theory Spec2Isabelle
  imports Main
begin

section \<open>Values, failures and the ambient context\<close>

text \<open>
  The jobs of \<^verbatim>\<open>create_election/performer_jobs.py\<close> work on the
  loosely typed payloads a task carries: nested dictionaries, lists, strings,
  booleans, numbers, \<^verbatim>\<open>None\<close> and \<^verbatim>\<open>datetime\<close> objects. A dictionary
  is an association list looked up with \<open>map_of\<close>; a \<^verbatim>\<open>datetime\<close> is
  the integer position of its instant on the time line.
\<close>

datatype pyval =
    PNone
  | PBool bool
  | PInt int
  | PStr string
  | PDate int
  | PList "pyval list"
  | PDict "(string \<times> pyval) list"

text \<open>
  Every \<^verbatim>\<open>raise\<close> of the source is a value. \<open>TaskError\<close> carries the
  \<^verbatim>\<open>reason\<close> of \<^verbatim>\<open>TaskError(dict(reason=...))\<close>; the other
  constructors are the untyped exceptions of the Python runtime and of the
  \<^verbatim>\<open>subprocess\<close> and \<^verbatim>\<open>shutil\<close> modules.
\<close>

datatype error =
    TaskError string
  | KeyError string
  | TypeError
  | AttributeError
  | IOError
  | OSError
  | ValueError
  | CalledProcessError
  | SameFileError

datatype pytype = Basestring | Bool | ListT | Datetime | DictT

fun isinstance :: "pyval \<Rightarrow> pytype \<Rightarrow> bool" where
  "isinstance (PStr _) Basestring = True"
| "isinstance (PBool _) Bool = True"
| "isinstance (PList _) ListT = True"
| "isinstance (PDate _) Datetime = True"
| "isinstance (PDict _) DictT = True"
| "isinstance _ _ = False"

text \<open>\<^verbatim>\<open>d.get(k, None)\<close>, \<^verbatim>\<open>k in d\<close> and \<^verbatim>\<open>d[k]\<close> on a dictionary.\<close>

definition dict_get :: "(string \<times> pyval) list \<Rightarrow> string \<Rightarrow> pyval" where
  "dict_get d k = (case map_of d k of None \<Rightarrow> PNone | Some v \<Rightarrow> v)"

definition dict_has :: "(string \<times> pyval) list \<Rightarrow> string \<Rightarrow> bool" where
  "dict_has d k = (map_of d k \<noteq> None)"

definition dict_item :: "(string \<times> pyval) list \<Rightarrow> string \<Rightarrow> error + pyval" where
  "dict_item d k = (case map_of d k of None \<Rightarrow> Inl (KeyError k) | Some v \<Rightarrow> Inr v)"

text \<open>\<^verbatim>\<open>v[k]\<close> with a string key on any value: only a dictionary can be
  subscripted with a string.\<close>

fun subscript :: "pyval \<Rightarrow> string \<Rightarrow> error + pyval" where
  "subscript (PDict d) k = dict_item d k"
| "subscript _ k = Inl TypeError"

text \<open>Whether the string \<open>k\<close> occurs inside the string \<open>s\<close>
  (\<^verbatim>\<open>k in s\<close> on two strings).\<close>

fun occurs_in :: "string \<Rightarrow> string \<Rightarrow> bool" where
  "occurs_in k [] = (k = [])"
| "occurs_in k (c # cs) = (take (length k) (c # cs) = k \<or> occurs_in k cs)"

text \<open>\<^verbatim>\<open>k in v\<close> with a string \<open>k\<close>: key membership on a dictionary,
  substring on a string, element membership on a list, \<^verbatim>\<open>TypeError\<close>
  on a value that is not iterable.\<close>

fun py_in :: "string \<Rightarrow> pyval \<Rightarrow> error + bool" where
  "py_in k (PDict d) = Inr (dict_has d k)"
| "py_in k (PStr s) = Inr (occurs_in k s)"
| "py_in k (PList xs) = Inr (PStr k \<in> set xs)"
| "py_in k _ = Inl TypeError"

fun py_len :: "pyval \<Rightarrow> error + nat" where
  "py_len (PList xs) = Inr (length xs)"
| "py_len (PStr s) = Inr (length s)"
| "py_len (PDict d) = Inr (length (remdups (map fst d)))"
| "py_len _ = Inl TypeError"

text \<open>
  \<^verbatim>\<open>re.match("^[a-zA-Z0-9_-]+$", s)\<close>. In Python \<^verbatim>\<open>$\<close> matches at the
  end of the string and also just before a newline that ends the string, so one
  trailing newline is let through. A subject that is no string raises
  \<^verbatim>\<open>TypeError\<close>.
\<close>

definition ident_char :: "char \<Rightarrow> bool" where
  "ident_char c =
     (let n = (of_char c :: nat) in
      (97 \<le> n \<and> n \<le> 122) \<or> (65 \<le> n \<and> n \<le> 90) \<or> (48 \<le> n \<and> n \<le> 57)
      \<or> n = 95 \<or> n = 45)"

definition newline :: char where
  "newline = CHR 0x0A"

definition ident_match :: "string \<Rightarrow> bool" where
  "ident_match s =
     (let body = (if s \<noteq> [] \<and> last s = newline then butlast s else s)
      in body \<noteq> [] \<and> list_all ident_char body)"

fun re_match_ident :: "pyval \<Rightarrow> error + bool" where
  "re_match_ident (PStr s) = Inr (ident_match s)"
| "re_match_ident _ = Inl TypeError"

text \<open>
  The rows of the Store. Modelled from the spec: \<^verbatim>\<open>models.py\<close> is not part
  of the sources; a row holds the keyword arguments its constructor is given in
  \<^verbatim>\<open>generate_private_info\<close>, \<^verbatim>\<open>db.session.add\<close> queues a row and
  \<^verbatim>\<open>db.session.commit\<close> appends the queued rows, in order, as one unit.
\<close>

record election_row =
  e_id :: pyval
  e_title :: pyval
  e_url :: pyval
  e_description :: pyval
  e_questions_data :: pyval
  e_voting_start_date :: pyval
  e_voting_end_date :: pyval
  e_is_recurring :: pyval
  e_num_parties :: pyval
  e_threshold_parties :: pyval

record authority_row =
  a_name :: pyval
  a_ssl_cert :: pyval
  a_orchestra_url :: pyval
  a_election_id :: pyval

record session_row =
  s_id :: pyval
  s_election_id :: pyval
  s_status :: string
  s_public_key :: string
  s_question_number :: nat

record store =
  elections :: "election_row list"
  authorities :: "authority_row list"
  sessions :: "session_row list"

text \<open>
  The ambient configuration \<^verbatim>\<open>app.config\<close> and the library functions the
  jobs call, as one explicit record: \<^verbatim>\<open>json.loads\<close> (\<open>None\<close> when it
  raises), \<^verbatim>\<open>frestq.protocol.certs_differ\<close>, \<^verbatim>\<open>frestq.utils.dumps\<close>,
  \<^verbatim>\<open>datetime.isoformat\<close>, and the two addresses \<^verbatim>\<open>get_server_url()\<close>
  and \<^verbatim>\<open>get_hint_server_url()\<close> of \<^verbatim>\<open>utils\<close>.
\<close>

record config =
  max_num_questions :: nat
  private_data_path :: string
  public_data_path :: string
  root_url :: string
  ssl_cert_string :: string
  autoaccept_requests :: bool
  json_loads :: "string \<Rightarrow> pyval option"
  certs_differ :: "string \<Rightarrow> string \<Rightarrow> bool"
  dumps :: "pyval \<Rightarrow> string"
  isoformat :: "int \<Rightarrow> string"
  server_url :: string
  hint_server_url :: string

section \<open>The validator: \<^verbatim>\<open>check_election_data\<close>\<close>

definition andthen :: "error + unit \<Rightarrow> error + 'a \<Rightarrow> error + 'a" where
  "andthen r k = (case r of Inl e \<Rightarrow> Inl e | Inr _ \<Rightarrow> k)"

definition invalid_parameter :: "string \<Rightarrow> error" where
  "invalid_parameter name = TaskError (''invalid '' @ name @ '' parameter'')"

definition base_requirements :: "(string \<times> pytype) list" where
  "base_requirements =
     [(''election_id'', Basestring), (''title'', Basestring), (''url'', Basestring),
      (''description'', Basestring), (''is_recurring'', Bool), (''authorities'', ListT)]"

definition extra_requirements :: "(string \<times> pytype) list" where
  "extra_requirements =
     [(''callback_url'', Basestring), (''extra'', ListT), (''questions_data'', ListT)]"

definition requirements :: "bool \<Rightarrow> (string \<times> pytype) list" where
  "requirements check_extra =
     (if check_extra then base_requirements @ extra_requirements else base_requirements)"

text \<open>Lines 49 to 60: the question payload is taken as it is on a first-time
  submission and decoded with \<^verbatim>\<open>json.loads\<close> otherwise; the bare
  \<^verbatim>\<open>except\<close> turns every failure of the decoding, also that of a payload
  that is no string, into the same task error.\<close>

definition load_questions_data ::
  "config \<Rightarrow> (string \<times> pyval) list \<Rightarrow> bool \<Rightarrow> error + pyval" where
  "load_questions_data cfg data check_extra =
     (if check_extra then Inr (dict_get data ''questions_data'')
      else (case dict_get data ''questions_data'' of
              PStr s \<Rightarrow> (case json_loads cfg s of
                           Some v \<Rightarrow> Inr v
                         | None \<Rightarrow> Inl (TaskError ''questions_data is not in json''))
            | _ \<Rightarrow> Inl (TaskError ''questions_data is not in json'')))"

text \<open>Lines 62 to 65: the loop over the requirements.\<close>

fun check_requirements :: "(string \<times> pytype) list \<Rightarrow> (string \<times> pyval) list \<Rightarrow> error + unit" where
  "check_requirements [] data = Inr ()"
| "check_requirements ((name, ty) # reqs) data =
     (case map_of data name of
        None \<Rightarrow> Inl (invalid_parameter name)
      | Some v \<Rightarrow> if isinstance v ty then check_requirements reqs data
                  else Inl (invalid_parameter name))"

text \<open>Lines 67 to 73: the key must be there; its value is \<^verbatim>\<open>None\<close> or a
  \<^verbatim>\<open>datetime\<close>. The reason of the second check reads
  \<^verbatim>\<open>voting_send_date\<close> in the source.\<close>

definition check_voting_date :: "(string \<times> pyval) list \<Rightarrow> string \<Rightarrow> string \<Rightarrow> error + unit" where
  "check_voting_date data key shown =
     (case map_of data key of
        None \<Rightarrow> Inl (invalid_parameter shown)
      | Some v \<Rightarrow> if v \<noteq> PNone \<and> \<not> isinstance v Datetime then Inl (invalid_parameter shown)
                  else Inr ())"

text \<open>Lines 75 and 76.\<close>

definition check_election_id :: "(string \<times> pyval) list \<Rightarrow> error + unit" where
  "check_election_id data =
     (case dict_item data ''election_id'' of
        Inl e \<Rightarrow> Inl e
      | Inr v \<Rightarrow> (case re_match_ident v of
                   Inl e \<Rightarrow> Inl e
                 | Inr m \<Rightarrow> if \<not> m then Inl (TaskError ''invalid characters in election_id'')
                            else Inr ()))"

text \<open>Lines 78 and 79.\<close>

definition check_some_authority :: "(string \<times> pyval) list \<Rightarrow> error + unit" where
  "check_some_authority data =
     (case dict_item data ''authorities'' of
        Inl e \<Rightarrow> Inl e
      | Inr v \<Rightarrow> (case py_len v of
                   Inl e \<Rightarrow> Inl e
                 | Inr n \<Rightarrow> if n = 0 then Inl (TaskError ''no authorities'') else Inr ()))"

text \<open>Lines 81 to 83.\<close>

definition check_question_count :: "config \<Rightarrow> pyval \<Rightarrow> error + unit" where
  "check_question_count cfg questions_data =
     (case questions_data of
        PList qs \<Rightarrow>
          if length qs < 1 \<or> length qs > max_num_questions cfg
          then Inl (TaskError ''Unsupported number of questions in the election'')
          else Inr ()
      | _ \<Rightarrow> Inl (TaskError ''Unsupported number of questions in the election''))"

text \<open>Lines 86 to 89: \<^verbatim>\<open>Election.query.filter_by(id=...).count() > 0\<close>,
  asked only on a first-time submission. The reason formats the identifier with
  \<^verbatim>\<open>%s\<close>.\<close>

definition election_count :: "store \<Rightarrow> pyval \<Rightarrow> nat" where
  "election_count db ident = length (filter (\<lambda>e. e_id e = ident) (elections db))"

definition check_not_in_store :: "store \<Rightarrow> (string \<times> pyval) list \<Rightarrow> bool \<Rightarrow> error + unit" where
  "check_not_in_store db data check_extra =
     (if \<not> check_extra then Inr ()
      else (case dict_item data ''election_id'' of
              Inl e \<Rightarrow> Inl e
            | Inr v \<Rightarrow>
                if election_count db v > 0
                then (case v of
                        PStr s \<Rightarrow> Inl (TaskError (''an election with id '' @ s @ '' already exists''))
                      | _ \<Rightarrow> Inl TypeError)
                else Inr ()))"

text \<open>Lines 91 to 101: the three fields of every authority entry. The entry
  itself is not checked to be a dictionary: \<^verbatim>\<open>name not in adata\<close> and
  \<^verbatim>\<open>adata[name]\<close> run on whatever the list holds.\<close>

definition auth_reqs :: "(string \<times> pytype) list" where
  "auth_reqs = [(''name'', Basestring), (''orchestra_url'', Basestring), (''ssl_cert'', Basestring)]"

fun check_auth_reqs :: "(string \<times> pytype) list \<Rightarrow> pyval \<Rightarrow> error + unit" where
  "check_auth_reqs [] adata = Inr ()"
| "check_auth_reqs ((name, ty) # reqs) adata =
     (case py_in name adata of
        Inl e \<Rightarrow> Inl e
      | Inr False \<Rightarrow> Inl (invalid_parameter name)
      | Inr True \<Rightarrow>
          (case subscript adata name of
             Inl e \<Rightarrow> Inl e
           | Inr v \<Rightarrow> if isinstance v ty then check_auth_reqs reqs adata
                       else Inl (invalid_parameter name)))"

fun check_authorities :: "pyval list \<Rightarrow> error + unit" where
  "check_authorities [] = Inr ()"
| "check_authorities (adata # rest) =
     (case check_auth_reqs auth_reqs adata of
        Inl e \<Rightarrow> Inl e
      | Inr _ \<Rightarrow> check_authorities rest)"

text \<open>
  Lines 103 to 107, \<^verbatim>\<open>unique_by_keys\<close>. \<^verbatim>\<open>[i[k] for i in l]\<close> subscripts
  every entry; \<^verbatim>\<open>set(...)\<close> needs hashable elements (a list or a dictionary
  raises \<^verbatim>\<open>TypeError\<close>) and identifies \<^verbatim>\<open>True\<close> with 1 and
  \<^verbatim>\<open>False\<close> with 0.
\<close>

fun hash_key :: "pyval \<Rightarrow> error + pyval" where
  "hash_key (PList _) = Inl TypeError"
| "hash_key (PDict _) = Inl TypeError"
| "hash_key (PBool b) = Inr (PInt (if b then 1 else 0))"
| "hash_key v = Inr v"

fun column :: "pyval list \<Rightarrow> string \<Rightarrow> error + pyval list" where
  "column [] k = Inr []"
| "column (i # l) k =
     (case subscript i k of
        Inl e \<Rightarrow> Inl e
      | Inr v \<Rightarrow> (case column l k of Inl e \<Rightarrow> Inl e | Inr vs \<Rightarrow> Inr (v # vs)))"

fun hash_keys :: "pyval list \<Rightarrow> error + pyval list" where
  "hash_keys [] = Inr []"
| "hash_keys (v # vs) =
     (case hash_key v of
        Inl e \<Rightarrow> Inl e
      | Inr h \<Rightarrow> (case hash_keys vs of Inl e \<Rightarrow> Inl e | Inr hs \<Rightarrow> Inr (h # hs)))"

fun unique_by_keys :: "pyval list \<Rightarrow> string list \<Rightarrow> error + bool" where
  "unique_by_keys l [] = Inr True"
| "unique_by_keys l (k # keys) =
     (case column l k of
        Inl e \<Rightarrow> Inl e
      | Inr vs \<Rightarrow>
          (case hash_keys vs of
             Inl e \<Rightarrow> Inl e
           | Inr hs \<Rightarrow> if length l \<noteq> card (set hs) then Inr False
                        else unique_by_keys l keys))"

text \<open>Lines 97 to 110 on \<^verbatim>\<open>data['authorities']\<close>; a \<^verbatim>\<open>for\<close> loop over a
  string visits its characters, over a dictionary its keys.\<close>

definition check_authority_list :: "(string \<times> pyval) list \<Rightarrow> error + unit" where
  "check_authority_list data =
     (case dict_item data ''authorities'' of
        Inl e \<Rightarrow> Inl e
      | Inr (PList l) \<Rightarrow>
          andthen (check_authorities l)
            (case unique_by_keys l [''ssl_cert'', ''orchestra_url''] of
               Inl e \<Rightarrow> Inl e
             | Inr u \<Rightarrow> if \<not> u then Inl (TaskError ''invalid authorities parameters'')
                        else Inr ())
      | Inr _ \<Rightarrow> Inl TypeError)"

text \<open>The whole of \<^verbatim>\<open>check_election_data(data, check_extra)\<close>: the checks
  in the order of the source, the first failure is the result. It returns
  nothing and changes nothing: the Store is only read.\<close>

definition check_election_data ::
  "config \<Rightarrow> store \<Rightarrow> (string \<times> pyval) list \<Rightarrow> bool \<Rightarrow> error + unit" where
  "check_election_data cfg db data check_extra =
     (case load_questions_data cfg data check_extra of
        Inl e \<Rightarrow> Inl e
      | Inr questions_data \<Rightarrow>
          andthen (check_requirements (requirements check_extra) data)
         (andthen (check_voting_date data ''voting_start_date'' ''voting_start_date'')
         (andthen (check_voting_date data ''voting_end_date'' ''voting_send_date'')
         (andthen (check_election_id data)
         (andthen (check_some_authority data)
         (andthen (check_question_count cfg questions_data)
         (andthen (check_not_in_store db data check_extra)
                  (check_authority_list data))))))))"

section \<open>The file system, the CryptoEngine and the state of a job\<close>

text \<open>
  The private and public areas are a store from path names to nodes.
  \<^verbatim>\<open>os.path.exists\<close> asks whether a path names a node; the empty path
  names none.
\<close>

datatype fsnode = Dir | File string

type_synonym filesystem = "string \<Rightarrow> fsnode option"

definition path_exists :: "filesystem \<Rightarrow> string \<Rightarrow> bool" where
  "path_exists fs p = (p \<noteq> [] \<and> fs p \<noteq> None)"

text \<open>\<^verbatim>\<open>os.path.join(a, b)\<close> of \<^verbatim>\<open>posixpath\<close>: an absolute \<open>b\<close>
  replaces \<open>a\<close>; otherwise one separator stands between the two. A
  component that is no string has no \<^verbatim>\<open>startswith\<close>.\<close>

definition slash :: char where
  "slash = CHR ''/''"

definition os_path_join :: "string \<Rightarrow> string \<Rightarrow> string" where
  "os_path_join a b =
     (if b \<noteq> [] \<and> hd b = slash then b
      else if a = [] \<or> last a = slash then a @ b
      else a @ [slash] @ b)"

fun path_join :: "string \<Rightarrow> pyval \<Rightarrow> error + string" where
  "path_join a (PStr b) = Inr (os_path_join a b)"
| "path_join a _ = Inl AttributeError"

text \<open>
  Modelled from the spec: \<^verbatim>\<open>mkdir_recursive\<close> of \<^verbatim>\<open>utils\<close> is not part
  of the sources; the spec has it create "the private directory tree": the
  path and every directory above it that is not there yet.
\<close>

fun dirs_above :: "string \<Rightarrow> string \<Rightarrow> string list" where
  "dirs_above seen [] = []"
| "dirs_above seen (c # cs) =
     (if c = slash \<and> seen \<noteq> [] then seen # dirs_above (seen @ [c]) cs
      else dirs_above (seen @ [c]) cs)"

definition mkdir :: "filesystem \<Rightarrow> string \<Rightarrow> filesystem" where
  "mkdir fs p = (if path_exists fs p then fs else fs(p \<mapsto> Dir))"

definition mkdir_recursive :: "filesystem \<Rightarrow> string \<Rightarrow> filesystem" where
  "mkdir_recursive fs p = fold (\<lambda>d f. mkdir f d) (dirs_above [] p @ [p]) fs"

text \<open>\<^verbatim>\<open>codecs.open(p, 'w')\<close> leaves an empty file at \<open>p\<close>;
  \<^verbatim>\<open>write\<close> and \<^verbatim>\<open>close\<close> leave the content there. Reading needs a
  file at the path. \<^verbatim>\<open>shutil.copyfile\<close> refuses to copy a file onto
  itself and needs a file to read.\<close>

definition write_file :: "filesystem \<Rightarrow> string \<Rightarrow> string \<Rightarrow> filesystem" where
  "write_file fs p content = fs(p \<mapsto> File content)"

definition read_file :: "filesystem \<Rightarrow> string \<Rightarrow> error + string" where
  "read_file fs p = (case fs p of Some (File content) \<Rightarrow> Inr content | _ \<Rightarrow> Inl IOError)"

definition copyfile :: "filesystem \<Rightarrow> string \<Rightarrow> string \<Rightarrow> error + filesystem" where
  "copyfile fs src dst =
     (case fs src of
        Some (File content) \<Rightarrow>
          if src = dst then Inl SameFileError else Inr (write_file fs dst content)
      | _ \<Rightarrow> Inl IOError)"

text \<open>
  The CryptoEngine is an external program: given its argument list and its working
  directory it does what it likes to the file system and returns an exit status.
  The jobs see nothing else of it, so it is a parameter of every job.
\<close>

type_synonym engine = "string list \<Rightarrow> string \<Rightarrow> filesystem \<Rightarrow> int \<times> filesystem"

datatype subtask =
    ExternalTask string "(string \<times> pyval) list"
  | SimpleTask string string string pyval

text \<open>
  What a job can change: the file system, the Store, the outputs of its own task
  and of its parent task, the subtasks added to its task; \<open>calls\<close> is the
  log of the CryptoEngine invocations, each with its argument list, working
  directory and exit status.
\<close>

record world =
  fs :: filesystem
  db :: store
  calls :: "(string list \<times> string \<times> int) list"
  own_output :: "pyval option"
  parent_output :: "pyval option"
  subtasks :: "subtask list"

text \<open>What \<^verbatim>\<open>task.get_data()\<close>, \<^verbatim>\<open>task.get_prev().get_data()\<close> and
  \<^verbatim>\<open>task.get_parent().get_data()\<close> hand to a job.\<close>

record task =
  input_data :: pyval
  sender_ssl_cert :: string
  prev_output_data :: pyval
  parent_input_data :: pyval

text \<open>
  \<^verbatim>\<open>subprocess.check_call(l, cwd=...)\<close>. The child changes into the
  working directory before it executes the program: when \<open>cwd\<close> is not a
  directory that exists, \<^verbatim>\<open>OSError\<close> is raised, the program has not
  started and nothing is logged. Otherwise the program runs, and a nonzero exit
  status raises \<^verbatim>\<open>CalledProcessError\<close>.
\<close>

definition is_dir :: "filesystem \<Rightarrow> string \<Rightarrow> bool" where
  "is_dir f p = (p \<noteq> [] \<and> f p = Some Dir)"

definition check_call :: "engine \<Rightarrow> string list \<Rightarrow> string \<Rightarrow> world \<Rightarrow> (error + unit) \<times> world" where
  "check_call eng l cwd w =
     (if \<not> is_dir (fs w) cwd then (Inl OSError, w)
      else (let (rc, fs') = eng l cwd (fs w);
                w' = w\<lparr>fs := fs', calls := calls w @ [(l, cwd, rc)]\<rparr>
            in if rc = 0 then (Inr (), w') else (Inl CalledProcessError, w')))"

text \<open>Truth of a value in a condition, and iteration over a value with
  \<^verbatim>\<open>for\<close>.\<close>

fun truthy :: "pyval \<Rightarrow> bool" where
  "truthy PNone = False"
| "truthy (PBool b) = b"
| "truthy (PInt i) = (i \<noteq> 0)"
| "truthy (PStr s) = (s \<noteq> [])"
| "truthy (PDate _) = True"
| "truthy (PList xs) = (xs \<noteq> [])"
| "truthy (PDict d) = (d \<noteq> [])"

fun py_iter :: "pyval \<Rightarrow> error + pyval list" where
  "py_iter (PList xs) = Inr xs"
| "py_iter (PStr s) = Inr (map (\<lambda>c. PStr [c]) s)"
| "py_iter (PDict d) = Inr (map (\<lambda>kv. PStr (fst kv)) d)"
| "py_iter _ = Inl TypeError"

section \<open>Bootstrap: \<^verbatim>\<open>generate_private_info\<close>\<close>

text \<open>Lines 128 to 136: the session list and its entries.\<close>

fun check_session_entries :: "pyval list \<Rightarrow> error + unit" where
  "check_session_entries [] = Inr ()"
| "check_session_entries (session # rest) =
     (case session of
        PDict d \<Rightarrow>
          if \<not> dict_has d ''id'' \<or> \<not> dict_has d ''stub''
             \<or> \<not> isinstance (dict_get d ''stub'') Basestring
          then Inl (TaskError ''Invalid session data provided'')
          else (case re_match_ident (dict_get d ''id'') of
                  Inl e \<Rightarrow> Inl e
                | Inr m \<Rightarrow> if \<not> m then Inl (TaskError ''Invalid session data provided'')
                           else check_session_entries rest)
      | _ \<Rightarrow> Inl (TaskError ''Invalid session data provided''))"

definition check_sessions :: "(string \<times> pyval) list \<Rightarrow> error + unit" where
  "check_sessions data =
     (case dict_get data ''sessions'' of
        PList ss \<Rightarrow> if ss = [] then Inl (TaskError ''No sessions provided'')
                    else check_session_entries ss
      | _ \<Rightarrow> Inl (TaskError ''No sessions provided''))"

text \<open>Lines 140 to 143 (and 269 to 272): the name of the authority whose
  endpoint is this node's \<^verbatim>\<open>ROOT_URL\<close>; the last match wins.\<close>

fun find_auth_name :: "string \<Rightarrow> pyval list \<Rightarrow> pyval \<Rightarrow> error + pyval" where
  "find_auth_name root [] auth_name = Inr auth_name"
| "find_auth_name root (auth_data # rest) auth_name =
     (case subscript auth_data ''orchestra_url'' of
        Inl e \<Rightarrow> Inl e
      | Inr u \<Rightarrow>
          if u = PStr root
          then (case subscript auth_data ''name'' of
                  Inl e \<Rightarrow> Inl e
                | Inr n \<Rightarrow> find_auth_name root rest n)
          else find_auth_name root rest auth_name)"

definition check_local_authority :: "config \<Rightarrow> (string \<times> pyval) list \<Rightarrow> error + unit" where
  "check_local_authority cfg data =
     (case dict_item data ''authorities'' of
        Inl e \<Rightarrow> Inl e
      | Inr auths \<Rightarrow>
          (case py_iter auths of
             Inl e \<Rightarrow> Inl e
           | Inr l \<Rightarrow>
               (case find_auth_name (root_url cfg) l PNone of
                  Inl e \<Rightarrow> Inl e
                | Inr auth_name \<Rightarrow>
                    if \<not> truthy auth_name
                    then Inl (TaskError ''trying to process what SEEMS to be an external election'')
                    else Inr ())))"

text \<open>Lines 151 to 155: no session may have its local descriptor yet.\<close>

fun check_not_created :: "filesystem \<Rightarrow> string \<Rightarrow> pyval list \<Rightarrow> error + unit" where
  "check_not_created f election_privpath [] = Inr ()"
| "check_not_created f election_privpath (session # rest) =
     (case subscript session ''id'' of
        Inl e \<Rightarrow> Inl e
      | Inr sid \<Rightarrow>
          (case path_join election_privpath sid of
             Inl e \<Rightarrow> Inl e
           | Inr session_privpath \<Rightarrow>
               if path_exists f (os_path_join session_privpath ''localProtInfo.xml'')
               then (case sid of
                       PStr s \<Rightarrow> Inl (TaskError (''session_id '' @ s @ '' already created''))
                     | _ \<Rightarrow> Inl TypeError)
               else check_not_created f election_privpath rest))"

definition session_list :: "(string \<times> pyval) list \<Rightarrow> error + pyval list" where
  "session_list data =
     (case dict_item data ''sessions'' of Inl e \<Rightarrow> Inl e | Inr v \<Rightarrow> py_iter v)"

text \<open>Lines 125 to 155, everything before the first write.\<close>

definition private_info_checks ::
  "config \<Rightarrow> world \<Rightarrow> (string \<times> pyval) list \<Rightarrow> string \<Rightarrow> error + unit" where
  "private_info_checks cfg w data election_privpath =
     andthen (check_election_data cfg (db w) data False)
    (andthen (check_sessions data)
    (andthen (check_local_authority cfg data)
       (case session_list data of
          Inl e \<Rightarrow> Inl e
        | Inr ss \<Rightarrow> check_not_created (fs w) election_privpath ss)))"

text \<open>Lines 162 to 173: the keyword arguments are read in the order they are
  written; the first missing key raises \<^verbatim>\<open>KeyError\<close>.\<close>

fun dict_items :: "(string \<times> pyval) list \<Rightarrow> string list \<Rightarrow> error + pyval list" where
  "dict_items d [] = Inr []"
| "dict_items d (k # ks) =
     (case dict_item d k of
        Inl e \<Rightarrow> Inl e
      | Inr v \<Rightarrow> (case dict_items d ks of Inl e \<Rightarrow> Inl e | Inr vs \<Rightarrow> Inr (v # vs)))"

definition new_election :: "(string \<times> pyval) list \<Rightarrow> error + election_row" where
  "new_election data =
     (case dict_items data
             [''election_id'', ''title'', ''url'', ''description'', ''questions_data'',
              ''voting_start_date'', ''voting_end_date'', ''is_recurring'',
              ''num_parties'', ''threshold_parties''] of
        Inl e \<Rightarrow> Inl e
      | Inr vs \<Rightarrow>
          Inr \<lparr>e_id = vs ! 0, e_title = vs ! 1, e_url = vs ! 2, e_description = vs ! 3,
               e_questions_data = vs ! 4, e_voting_start_date = vs ! 5,
               e_voting_end_date = vs ! 6, e_is_recurring = vs ! 7,
               e_num_parties = vs ! 8, e_threshold_parties = vs ! 9\<rparr>)"

text \<open>Lines 176 to 183.\<close>

fun new_authorities :: "pyval \<Rightarrow> pyval list \<Rightarrow> error + authority_row list" where
  "new_authorities election_id [] = Inr []"
| "new_authorities election_id (auth_data # rest) =
     (case subscript auth_data ''name'' of
        Inl e \<Rightarrow> Inl e
      | Inr n \<Rightarrow>
     (case subscript auth_data ''ssl_cert'' of
        Inl e \<Rightarrow> Inl e
      | Inr c \<Rightarrow>
     (case subscript auth_data ''orchestra_url'' of
        Inl e \<Rightarrow> Inl e
      | Inr u \<Rightarrow>
     (case new_authorities election_id rest of
        Inl e \<Rightarrow> Inl e
      | Inr rows \<Rightarrow>
          Inr (\<lparr>a_name = n, a_ssl_cert = c, a_orchestra_url = u,
                a_election_id = election_id\<rparr> # rows)))))"

text \<open>Lines 186 to 203: per session, in list order, the row with the running
  number \<open>i\<close>, the directory, and the stub written into it. A failure keeps
  what was written to the file system before it.\<close>

fun create_sessions ::
  "pyval \<Rightarrow> string \<Rightarrow> pyval list \<Rightarrow> nat \<Rightarrow> filesystem \<Rightarrow> (error + session_row list) \<times> filesystem" where
  "create_sessions election_id election_privpath [] i f = (Inr [], f)"
| "create_sessions election_id election_privpath (session # rest) i f =
     (case subscript session ''id'' of
        Inl e \<Rightarrow> (Inl e, f)
      | Inr sid \<Rightarrow>
     (case path_join election_privpath sid of
        Inl e \<Rightarrow> (Inl e, f)
      | Inr session_privpath \<Rightarrow>
          (let f1 = mkdir_recursive f session_privpath;
               stub_path = os_path_join session_privpath ''stub.xml'';
               f2 = write_file f1 stub_path []
           in (case subscript session ''stub'' of
                 Inl e \<Rightarrow> (Inl e, f2)
               | Inr (PStr stub) \<Rightarrow>
                   (case create_sessions election_id election_privpath rest (Suc i)
                           (write_file f2 stub_path stub) of
                      (Inl e, f3) \<Rightarrow> (Inl e, f3)
                    | (Inr rows, f3) \<Rightarrow>
                        (Inr (\<lparr>s_id = sid, s_election_id = election_id,
                               s_status = ''default'', s_public_key = [],
                               s_question_number = i\<rparr> # rows), f3))
               | Inr _ \<Rightarrow> (Inl TypeError, f2)))))"

text \<open>Lines 160 to 204, the performer's branch: nothing reaches the Store
  before \<^verbatim>\<open>db.session.commit()\<close>.\<close>

definition create_local_data ::
  "(string \<times> pyval) list \<Rightarrow> pyval \<Rightarrow> string \<Rightarrow> world \<Rightarrow> (error + election_row option) \<times> world" where
  "create_local_data data election_id election_privpath w =
     (if path_exists (fs w) election_privpath
      then (case election_id of
              PStr s \<Rightarrow> (Inl (TaskError (''Already existing election id '' @ s)), w)
            | _ \<Rightarrow> (Inl TypeError, w))
      else
     (case new_election data of
        Inl e \<Rightarrow> (Inl e, w)
      | Inr election \<Rightarrow>
     (case dict_item data ''authorities'' of
        Inl e \<Rightarrow> (Inl e, w)
      | Inr auths \<Rightarrow>
     (case py_iter auths of
        Inl e \<Rightarrow> (Inl e, w)
      | Inr l \<Rightarrow>
     (case new_authorities election_id l of
        Inl e \<Rightarrow> (Inl e, w)
      | Inr auth_rows \<Rightarrow>
     (case session_list data of
        Inl e \<Rightarrow> (Inl e, w)
      | Inr ss \<Rightarrow>
     (case create_sessions election_id election_privpath ss 0 (fs w) of
        (Inl e, f) \<Rightarrow> (Inl e, w\<lparr>fs := f\<rparr>)
      | (Inr session_rows, f) \<Rightarrow>
          (Inr (Some election),
           w\<lparr>fs := f,
             db := \<lparr>elections = elections (db w) @ [election],
                    authorities = authorities (db w) @ auth_rows,
                    sessions = sessions (db w) @ session_rows\<rparr>\<rparr>))))))))"

text \<open>Lines 208 and 209, the director's branch:
  \<^verbatim>\<open>query(Election).filter(Election.id == election_id).first()\<close>.\<close>

definition fetch_election :: "store \<Rightarrow> pyval \<Rightarrow> election_row option" where
  "fetch_election d election_id =
     (case filter (\<lambda>e. e_id e = election_id) (elections d) of
        [] \<Rightarrow> None
      | e # _ \<Rightarrow> Some e)"

text \<open>Lines 159 to 209: the role is decided by \<^verbatim>\<open>certs_differ\<close> on the
  sender's certificate and the local one.\<close>

definition resolve_role ::
  "config \<Rightarrow> task \<Rightarrow> (string \<times> pyval) list \<Rightarrow> pyval \<Rightarrow> string \<Rightarrow> world
     \<Rightarrow> (error + election_row option) \<times> world" where
  "resolve_role cfg t data election_id election_privpath w =
     (if certs_differ cfg (sender_ssl_cert t) (ssl_cert_string cfg)
      then create_local_data data election_id election_privpath w
      else (Inr (fetch_election (db w) election_id), w))"

text \<open>Lines 215 to 219.\<close>

definition str_date :: "config \<Rightarrow> pyval \<Rightarrow> error + string" where
  "str_date cfg date =
     (if truthy date
      then (case date of PDate d \<Rightarrow> Inr (isoformat cfg d) | _ \<Rightarrow> Inl AttributeError)
      else Inr [])"

text \<open>Lines 221 to 238: the values that fill the template of the approval
  request, in the order they are computed; the task carries them under the
  names of the template.\<close>

definition approve_task :: "config \<Rightarrow> (string \<times> pyval) list \<Rightarrow> election_row option \<Rightarrow> error + subtask" where
  "approve_task cfg data election =
     (case dict_item data ''url'' of
        Inl e \<Rightarrow> Inl e
      | Inr url \<Rightarrow>
     (case election of
        None \<Rightarrow> Inl AttributeError
      | Some el \<Rightarrow>
     (case str_date cfg (e_voting_start_date el) of
        Inl e \<Rightarrow> Inl e
      | Inr start_date \<Rightarrow>
     (case str_date cfg (e_voting_end_date el) of
        Inl e \<Rightarrow> Inl e
      | Inr end_date \<Rightarrow>
     (case dict_item data ''questions_data'' of
        Inl e \<Rightarrow> Inl e
      | Inr (PStr q) \<Rightarrow>
          (case json_loads cfg q of
             None \<Rightarrow> Inl ValueError
           | Some questions \<Rightarrow>
               (case dict_item data ''authorities'' of
                  Inl e \<Rightarrow> Inl e
                | Inr auths \<Rightarrow>
                    Inr (ExternalTask ''approve_election''
                          [(''url'', url), (''title'', e_title el),
                           (''description'', e_description el),
                           (''start_date'', PStr start_date), (''end_date'', PStr end_date),
                           (''questions_data'', PStr (dumps cfg questions)),
                           (''authorities'', PStr (dumps cfg auths))])))
      | Inr _ \<Rightarrow> Inl TypeError)))))"

definition verificatum_task :: "config \<Rightarrow> subtask" where
  "verificatum_task cfg =
     SimpleTask (root_url cfg) ''generate_private_info_verificatum'' ''orchestra_performer'' (PDict [])"

text \<open>Lines 213 to 245.\<close>

definition add_tasks ::
  "config \<Rightarrow> (string \<times> pyval) list \<Rightarrow> election_row option \<Rightarrow> world \<Rightarrow> (error + unit) \<times> world" where
  "add_tasks cfg data election w =
     (if \<not> autoaccept_requests cfg
      then (case approve_task cfg data election of
              Inl e \<Rightarrow> (Inl e, w)
            | Inr a \<Rightarrow> (Inr (), w\<lparr>subtasks := subtasks w @ [a, verificatum_task cfg]\<rparr>))
      else (Inr (), w\<lparr>subtasks := subtasks w @ [verificatum_task cfg]\<rparr>))"

text \<open>The job \<^verbatim>\<open>generate_private_info(task)\<close>.\<close>

definition generate_private_info :: "config \<Rightarrow> task \<Rightarrow> world \<Rightarrow> (error + unit) \<times> world" where
  "generate_private_info cfg t w =
     (case input_data t of
        PDict data \<Rightarrow>
          (case dict_item data ''election_id'' of
             Inl e \<Rightarrow> (Inl e, w)
           | Inr election_id \<Rightarrow>
          (case path_join (private_data_path cfg) election_id of
             Inl e \<Rightarrow> (Inl e, w)
           | Inr election_privpath \<Rightarrow>
          (case private_info_checks cfg w data election_privpath of
             Inl e \<Rightarrow> (Inl e, w)
           | Inr _ \<Rightarrow>
          (case resolve_role cfg t data election_id election_privpath w of
             (Inl e, w1) \<Rightarrow> (Inl e, w1)
           | (Inr election, w1) \<Rightarrow> add_tasks cfg data election w1))))
      | _ \<Rightarrow> (Inl TypeError, w))"

section \<open>Phase 1: \<^verbatim>\<open>generate_private_info_verificatum\<close>\<close>

text \<open>\<^verbatim>\<open>output_data != dict(status="accepted")\<close> is false only for a
  dictionary whose one key is \<^verbatim>\<open>status\<close>, with the string
  \<^verbatim>\<open>accepted\<close> as its value.\<close>

definition is_accepted :: "pyval \<Rightarrow> bool" where
  "is_accepted v =
     (case v of
        PDict d \<Rightarrow> set (map fst d) = {''status''} \<and> map_of d ''status'' = Some (PStr ''accepted'')
      | _ \<Rightarrow> False)"

definition vmni_command :: "config \<Rightarrow> string \<Rightarrow> string list" where
  "vmni_command cfg auth_name =
     [''vmni'', ''-party'', ''-arrays'', ''file'', ''-name'', auth_name, ''-http'',
      server_url cfg, ''-hint'', hint_server_url cfg]"

text \<open>Lines 282 to 295: per session, in list order, one run of the
  CryptoEngine in the session's directory, then the descriptor it left there is
  read and appended. An argument list that holds \<^verbatim>\<open>None\<close> cannot be
  executed.\<close>

fun descriptor_loop ::
  "engine \<Rightarrow> config \<Rightarrow> pyval \<Rightarrow> string \<Rightarrow> pyval list \<Rightarrow> world \<Rightarrow> (error + string list) \<times> world" where
  "descriptor_loop eng cfg auth_name election_privpath [] w = (Inr [], w)"
| "descriptor_loop eng cfg auth_name election_privpath (session # rest) w =
     (case subscript session ''id'' of
        Inl e \<Rightarrow> (Inl e, w)
      | Inr sid \<Rightarrow>
     (case path_join election_privpath sid of
        Inl e \<Rightarrow> (Inl e, w)
      | Inr session_privpath \<Rightarrow>
     (case auth_name of
        PStr name \<Rightarrow>
          (case check_call eng (vmni_command cfg name) session_privpath w of
             (Inl e, w1) \<Rightarrow> (Inl e, w1)
           | (Inr _, w1) \<Rightarrow>
               (case read_file (fs w1) (os_path_join session_privpath ''localProtInfo.xml'') of
                  Inl e \<Rightarrow> (Inl e, w1)
                | Inr protinfo \<Rightarrow>
                    (case descriptor_loop eng cfg auth_name election_privpath rest w1 of
                       (Inl e, w2) \<Rightarrow> (Inl e, w2)
                     | (Inr protinfos, w2) \<Rightarrow> (Inr (protinfo # protinfos), w2))))
      | _ \<Rightarrow> (Inl TypeError, w))))"

text \<open>Lines 263 to 298, what follows the approval check.\<close>

definition local_descriptors :: "engine \<Rightarrow> config \<Rightarrow> task \<Rightarrow> world \<Rightarrow> (error + unit) \<times> world" where
  "local_descriptors eng cfg t w =
     (case subscript (parent_input_data t) ''election_id'' of
        Inl e \<Rightarrow> (Inl e, w)
      | Inr election_id \<Rightarrow>
     (case subscript (parent_input_data t) ''sessions'' of
        Inl e \<Rightarrow> (Inl e, w)
      | Inr sessions_v \<Rightarrow>
     (case subscript (parent_input_data t) ''authorities'' of
        Inl e \<Rightarrow> (Inl e, w)
      | Inr auths \<Rightarrow>
     (case py_iter auths of
        Inl e \<Rightarrow> (Inl e, w)
      | Inr l \<Rightarrow>
     (case find_auth_name (root_url cfg) l PNone of
        Inl e \<Rightarrow> (Inl e, w)
      | Inr auth_name \<Rightarrow>
     (case path_join (private_data_path cfg) election_id of
        Inl e \<Rightarrow> (Inl e, w)
      | Inr election_privpath \<Rightarrow>
     (case py_iter sessions_v of
        Inl e \<Rightarrow> (Inl e, w)
      | Inr ss \<Rightarrow>
     (case descriptor_loop eng cfg auth_name election_privpath ss w of
        (Inl e, w1) \<Rightarrow> (Inl e, w1)
      | (Inr protinfos, w1) \<Rightarrow>
          (Inr (), w1\<lparr>parent_output := Some (PList (map PStr protinfos))\<rparr>)))))))))"

text \<open>The job \<^verbatim>\<open>generate_private_info_verificatum(task)\<close>: lines 257 to
  261 are the approval check.\<close>

definition generate_private_info_verificatum ::
  "engine \<Rightarrow> config \<Rightarrow> task \<Rightarrow> world \<Rightarrow> (error + unit) \<times> world" where
  "generate_private_info_verificatum eng cfg t w =
     (if \<not> autoaccept_requests cfg \<and> \<not> is_accepted (prev_output_data t)
      then (Inl (TaskError ''task not accepted''),
            w\<lparr>own_output := Some (PStr ''task not accepted'')\<rparr>)
      else local_descriptors eng cfg t w)"

section \<open>Phase 2: \<^verbatim>\<open>generate_public_key\<close>\<close>

text \<open>Lines 320 to 324: the merged descriptor is written only when it is not
  there; the file is opened, and so emptied, before the content is looked up.\<close>

definition store_merged_descriptor :: "pyval \<Rightarrow> string \<Rightarrow> world \<Rightarrow> (error + unit) \<times> world" where
  "store_merged_descriptor input protinfo_path w =
     (if \<not> path_exists (fs w) protinfo_path
      then (let w1 = w\<lparr>fs := write_file (fs w) protinfo_path []\<rparr>
            in (case subscript input ''protInfo_content'' of
                  Inl e \<Rightarrow> (Inl e, w1)
                | Inr (PStr content) \<Rightarrow>
                    (Inr (), w\<lparr>fs := write_file (fs w) protinfo_path content\<rparr>)
                | Inr _ \<Rightarrow> (Inl TypeError, w1)))
      else (Inr (), w))"

text \<open>Lines 334 to 345: the public mirror.\<close>

definition publish :: "config \<Rightarrow> string \<Rightarrow> string \<Rightarrow> string \<Rightarrow> world \<Rightarrow> (error + unit) \<times> world" where
  "publish cfg election_id session_id session_privpath w =
     (let session_pubpath =
            os_path_join (os_path_join (public_data_path cfg) election_id) session_id;
          w1 = (if \<not> path_exists (fs w) session_pubpath
                then w\<lparr>fs := mkdir_recursive (fs w) session_pubpath\<rparr> else w)
      in (case copyfile (fs w1) (os_path_join session_privpath ''publicKey_json'')
                 (os_path_join session_pubpath ''publicKey_json'') of
            Inl e \<Rightarrow> (Inl e, w1)
          | Inr f2 \<Rightarrow>
              (case copyfile f2 (os_path_join session_privpath ''protInfo.xml'')
                      (os_path_join session_pubpath ''protInfo.xml'') of
                 Inl e \<Rightarrow> (Inl e, w1\<lparr>fs := f2\<rparr>)
               | Inr f3 \<Rightarrow> (Inr (), w1\<lparr>fs := f3\<rparr>))))"

text \<open>Lines 320 to 345, what follows the two sanity checks.\<close>

definition make_public_key ::
  "engine \<Rightarrow> config \<Rightarrow> pyval \<Rightarrow> string \<Rightarrow> string \<Rightarrow> string \<Rightarrow> world \<Rightarrow> (error + unit) \<times> world" where
  "make_public_key eng cfg input election_id session_id session_privpath w =
     (case store_merged_descriptor input (os_path_join session_privpath ''protInfo.xml'') w of
        (Inl e, w1) \<Rightarrow> (Inl e, w1)
      | (Inr _, w1) \<Rightarrow>
     (case check_call eng [''vmn'', ''-keygen'', ''publicKey_raw''] session_privpath w1 of
        (Inl e, w2) \<Rightarrow> (Inl e, w2)
      | (Inr _, w2) \<Rightarrow>
     (case check_call eng [''vmnc'', ''-pkey'', ''-outi'', ''json'', ''publicKey_raw'',
                          ''publicKey_json''] session_privpath w2 of
        (Inl e, w3) \<Rightarrow> (Inl e, w3)
      | (Inr _, w3) \<Rightarrow> publish cfg election_id session_id session_privpath w3)))"

text \<open>The job \<^verbatim>\<open>generate_public_key(task)\<close>; lines 313 to 317 are the two
  sanity checks.\<close>

definition generate_public_key :: "engine \<Rightarrow> config \<Rightarrow> task \<Rightarrow> world \<Rightarrow> (error + unit) \<times> world" where
  "generate_public_key eng cfg t w =
     (case subscript (input_data t) ''session_id'' of
        Inl e \<Rightarrow> (Inl e, w)
      | Inr session_v \<Rightarrow>
     (case subscript (input_data t) ''election_id'' of
        Inl e \<Rightarrow> (Inl e, w)
      | Inr election_v \<Rightarrow>
     (case (election_v, session_v) of
        (PStr election_id, PStr session_id) \<Rightarrow>
          (let session_privpath =
                 os_path_join (os_path_join (private_data_path cfg) election_id) session_id
           in if \<not> path_exists (fs w) session_privpath
              then (Inl (TaskError ''invalid session_id / election_id''), w)
              else if path_exists (fs w) (os_path_join session_privpath ''publicKey_raw'')
                      \<or> path_exists (fs w) (os_path_join session_privpath ''publicKey_json'')
              then (Inl (TaskError ''pubkey already created''), w)
              else make_public_key eng cfg (input_data t) election_id session_id
                     session_privpath w)
      | _ \<Rightarrow> (Inl AttributeError, w))))"

text \<open>That a job has run the CryptoEngine shows in the log of invocations.\<close>

definition engine_invoked :: "world \<Rightarrow> world \<Rightarrow> bool" where
  "engine_invoked w w' = (length (calls w) < length (calls w'))"

section \<open>The checks of the validator, one by one\<close>

text \<open>
  What \<^verbatim>\<open>check_election_data\<close> asks of a submission, as one condition per
  check and in the order the source makes them, each with the reason the source
  raises when the condition fails. \<open>first_violation\<close> is the reason of the
  first condition in the list that does not hold.
\<close>

definition has_field :: "(string \<times> pyval) list \<Rightarrow> string \<Rightarrow> pytype \<Rightarrow> bool" where
  "has_field d k ty = (case map_of d k of None \<Rightarrow> False | Some v \<Rightarrow> isinstance v ty)"

definition fields_ok :: "(string \<times> pytype) list \<Rightarrow> (string \<times> pyval) list \<Rightarrow> bool" where
  "fields_ok reqs d = list_all (\<lambda>r. has_field d (fst r) (snd r)) reqs"

definition first_bad_field :: "(string \<times> pytype) list \<Rightarrow> (string \<times> pyval) list \<Rightarrow> string" where
  "first_bad_field reqs d =
     (case filter (\<lambda>r. \<not> has_field d (fst r) (snd r)) reqs of [] \<Rightarrow> [] | r # _ \<Rightarrow> fst r)"

text \<open>The question payload whose length is checked: the value itself on a
  first-time submission, the decoded text otherwise.\<close>

definition questions_of :: "config \<Rightarrow> (string \<times> pyval) list \<Rightarrow> bool \<Rightarrow> pyval option" where
  "questions_of cfg data check_extra =
     (if check_extra then Some (dict_get data ''questions_data'')
      else (case map_of data ''questions_data'' of
              Some (PStr s) \<Rightarrow> json_loads cfg s
            | _ \<Rightarrow> None))"

definition date_ok :: "(string \<times> pyval) list \<Rightarrow> string \<Rightarrow> bool" where
  "date_ok data key =
     (case map_of data key of
        None \<Rightarrow> False
      | Some v \<Rightarrow> v = PNone \<or> isinstance v Datetime)"

definition election_id_ok :: "(string \<times> pyval) list \<Rightarrow> bool" where
  "election_id_ok data =
     (case map_of data ''election_id'' of Some (PStr s) \<Rightarrow> ident_match s | _ \<Rightarrow> False)"

definition authority_entries :: "(string \<times> pyval) list \<Rightarrow> pyval list" where
  "authority_entries data =
     (case map_of data ''authorities'' of Some (PList l) \<Rightarrow> l | _ \<Rightarrow> [])"

definition question_count_ok :: "config \<Rightarrow> pyval option \<Rightarrow> bool" where
  "question_count_ok cfg q =
     (case q of
        Some (PList qs) \<Rightarrow> 1 \<le> length qs \<and> length qs \<le> max_num_questions cfg
      | _ \<Rightarrow> False)"

definition election_id_text :: "(string \<times> pyval) list \<Rightarrow> string" where
  "election_id_text data =
     (case map_of data ''election_id'' of Some (PStr s) \<Rightarrow> s | _ \<Rightarrow> [])"

definition authority_ok :: "pyval \<Rightarrow> bool" where
  "authority_ok adata = (case adata of PDict d \<Rightarrow> fields_ok auth_reqs d | _ \<Rightarrow> False)"

definition first_bad_authority_field :: "pyval list \<Rightarrow> string" where
  "first_bad_authority_field l =
     (case filter (\<lambda>a. \<not> authority_ok a) l of
        PDict d # _ \<Rightarrow> first_bad_field auth_reqs d
      | _ \<Rightarrow> [])"

definition field_values :: "pyval list \<Rightarrow> string \<Rightarrow> pyval list" where
  "field_values l k = map (\<lambda>a. case a of PDict d \<Rightarrow> dict_get d k | _ \<Rightarrow> PNone) l"

definition validation_rules ::
  "config \<Rightarrow> store \<Rightarrow> (string \<times> pyval) list \<Rightarrow> bool \<Rightarrow> (bool \<times> string) list" where
  "validation_rules cfg d data check_extra =
     [(questions_of cfg data check_extra \<noteq> None, ''questions_data is not in json''),
      (fields_ok (requirements check_extra) data,
         ''invalid '' @ first_bad_field (requirements check_extra) data @ '' parameter''),
      (date_ok data ''voting_start_date'', ''invalid voting_start_date parameter''),
      (date_ok data ''voting_end_date'', ''invalid voting_send_date parameter''),
      (election_id_ok data, ''invalid characters in election_id''),
      (authority_entries data \<noteq> [], ''no authorities''),
      (question_count_ok cfg (questions_of cfg data check_extra),
         ''Unsupported number of questions in the election''),
      (check_extra \<longrightarrow> election_count d (dict_get data ''election_id'') = 0,
         ''an election with id '' @ election_id_text data @ '' already exists''),
      (list_all authority_ok (authority_entries data),
         ''invalid '' @ first_bad_authority_field (authority_entries data) @ '' parameter''),
      (distinct (field_values (authority_entries data) ''ssl_cert'')
         \<and> distinct (field_values (authority_entries data) ''orchestra_url''),
         ''invalid authorities parameters'')]"

definition first_violation :: "(bool \<times> string) list \<Rightarrow> string option" where
  "first_violation rules =
     (case filter (\<lambda>r. \<not> fst r) rules of [] \<Rightarrow> None | r # _ \<Rightarrow> Some (snd r))"

text \<open>
  The eight checks of section 4.1 of the specification, following the spec's
  words, to be compared with the validator of the source: (1) identifier, title,
  url and description are text, the recurring flag is a boolean, the authority
  list is a non-empty list; (2) on a first-time submission the callback url, the
  extra metadata and the raw question payload are required and the payload is
  valid serialized structured data, otherwise the payload is already a parsed
  structure; (3) the voting window fields, if present, are date/time values;
  (4) the identifier matches the pattern; (5) the authority list is not empty
  and the question count is between 1 and the configured maximum; (6) on a
  first-time submission the identifier is not in the Store; (7) every authority
  entry has name, endpoint and certificate of the right type; (8) no two
  authorities share a certificate or an endpoint.
\<close>

definition spec_required_fields :: "(string \<times> pyval) list \<Rightarrow> bool" where
  "spec_required_fields data =
     (has_field data ''election_id'' Basestring \<and> has_field data ''title'' Basestring
      \<and> has_field data ''url'' Basestring \<and> has_field data ''description'' Basestring
      \<and> has_field data ''is_recurring'' Bool \<and> authority_entries data \<noteq> [])"

definition spec_question_payload :: "config \<Rightarrow> (string \<times> pyval) list \<Rightarrow> bool \<Rightarrow> pyval option" where
  "spec_question_payload cfg data first_time =
     (case map_of data ''questions_data'' of
        Some (PStr s) \<Rightarrow> if first_time then json_loads cfg s else None
      | Some (PList qs) \<Rightarrow> if first_time then None else Some (PList qs)
      | Some (PDict q) \<Rightarrow> if first_time then None else Some (PDict q)
      | _ \<Rightarrow> None)"

definition spec_first_time_extras :: "config \<Rightarrow> (string \<times> pyval) list \<Rightarrow> bool \<Rightarrow> bool" where
  "spec_first_time_extras cfg data first_time =
     ((first_time \<longrightarrow> has_field data ''callback_url'' Basestring \<and> map_of data ''extra'' \<noteq> None)
      \<and> spec_question_payload cfg data first_time \<noteq> None)"

definition spec_window_field :: "(string \<times> pyval) list \<Rightarrow> string \<Rightarrow> bool" where
  "spec_window_field data key =
     (case map_of data key of
        None \<Rightarrow> True
      | Some v \<Rightarrow> v = PNone \<or> isinstance v Datetime)"

definition spec_identifier :: "(string \<times> pyval) list \<Rightarrow> bool" where
  "spec_identifier data =
     (case map_of data ''election_id'' of
        Some (PStr s) \<Rightarrow> s \<noteq> [] \<and> list_all ident_char s
      | _ \<Rightarrow> False)"

definition spec_question_count :: "config \<Rightarrow> (string \<times> pyval) list \<Rightarrow> bool \<Rightarrow> bool" where
  "spec_question_count cfg data first_time =
     (case spec_question_payload cfg data first_time of
        Some (PList qs) \<Rightarrow> 1 \<le> length qs \<and> length qs \<le> max_num_questions cfg
      | _ \<Rightarrow> False)"

definition spec_checks_hold :: "config \<Rightarrow> store \<Rightarrow> (string \<times> pyval) list \<Rightarrow> bool \<Rightarrow> bool" where
  "spec_checks_hold cfg d data first_time =
     (spec_required_fields data
      \<and> spec_first_time_extras cfg data first_time
      \<and> spec_window_field data ''voting_start_date'' \<and> spec_window_field data ''voting_end_date''
      \<and> spec_identifier data
      \<and> authority_entries data \<noteq> [] \<and> spec_question_count cfg data first_time
      \<and> (first_time \<longrightarrow> election_count d (dict_get data ''election_id'') = 0)
      \<and> list_all authority_ok (authority_entries data)
      \<and> distinct (field_values (authority_entries data) ''ssl_cert'')
      \<and> distinct (field_values (authority_entries data) ''orchestra_url''))"

section \<open>What phase 1 reads and reports\<close>

text \<open>
  The directory of a session below the election's private directory; the file
  systems the CryptoEngine leaves when it is run in a list of directories one
  after the other; what is read from the local descriptor of each directory
  right after the run in it; and the invocations a job has added to the log.
\<close>

definition session_dir :: "string \<Rightarrow> pyval \<Rightarrow> string" where
  "session_dir election_privpath session =
     (case subscript session ''id'' of
        Inr (PStr sid) \<Rightarrow> os_path_join election_privpath sid
      | _ \<Rightarrow> [])"

fun filesystems_after ::
  "(string \<Rightarrow> filesystem \<Rightarrow> int \<times> filesystem) \<Rightarrow> string list \<Rightarrow> filesystem \<Rightarrow> filesystem list" where
  "filesystems_after run [] f = []"
| "filesystems_after run (dir # dirs) f =
     snd (run dir f) # filesystems_after run dirs (snd (run dir f))"

definition descriptors_read ::
  "(string \<Rightarrow> filesystem \<Rightarrow> int \<times> filesystem) \<Rightarrow> string list \<Rightarrow> filesystem \<Rightarrow> (error + string) list" where
  "descriptors_read run dirs f =
     map2 (\<lambda>dir f'. read_file f' (os_path_join dir ''localProtInfo.xml'')) dirs
       (filesystems_after run dirs f)"

definition new_calls :: "world \<Rightarrow> world \<Rightarrow> (string list \<times> string \<times> int) list" where
  "new_calls w w' = drop (length (calls w)) (calls w')"

section \<open>The rows and files of a bootstrap\<close>

text \<open>
  What the performer's branch of \<^verbatim>\<open>generate_private_info\<close> is to leave
  behind, read off the submission: the row of the election, the row of an
  authority entry, the row of the session at position \<open>i\<close>, the path and the
  text of a session's stub; and what the validator lets through as a voting
  date.
\<close>

definition the_field :: "pyval \<Rightarrow> string \<Rightarrow> pyval" where
  "the_field v k = (case subscript v k of Inr x \<Rightarrow> x | Inl _ \<Rightarrow> PNone)"

definition election_of :: "(string \<times> pyval) list \<Rightarrow> election_row" where
  "election_of data =
     \<lparr>e_id = dict_get data ''election_id'', e_title = dict_get data ''title'',
      e_url = dict_get data ''url'', e_description = dict_get data ''description'',
      e_questions_data = dict_get data ''questions_data'',
      e_voting_start_date = dict_get data ''voting_start_date'',
      e_voting_end_date = dict_get data ''voting_end_date'',
      e_is_recurring = dict_get data ''is_recurring'',
      e_num_parties = dict_get data ''num_parties'',
      e_threshold_parties = dict_get data ''threshold_parties''\<rparr>"

definition authority_of :: "pyval \<Rightarrow> pyval \<Rightarrow> authority_row" where
  "authority_of election_id auth_data =
     \<lparr>a_name = the_field auth_data ''name'', a_ssl_cert = the_field auth_data ''ssl_cert'',
      a_orchestra_url = the_field auth_data ''orchestra_url'', a_election_id = election_id\<rparr>"

definition session_of :: "pyval \<Rightarrow> pyval \<Rightarrow> nat \<Rightarrow> session_row" where
  "session_of election_id session i =
     \<lparr>s_id = the_field session ''id'', s_election_id = election_id, s_status = ''default'',
      s_public_key = [], s_question_number = i\<rparr>"

definition stub_path :: "string \<Rightarrow> pyval \<Rightarrow> string" where
  "stub_path election_privpath session =
     os_path_join (session_dir election_privpath session) ''stub.xml''"

definition stub_text :: "pyval \<Rightarrow> string" where
  "stub_text session = (case subscript session ''stub'' of Inr (PStr s) \<Rightarrow> s | _ \<Rightarrow> [])"

text \<open>The identifier of the first session of a list, in list order, whose
  local descriptor \<^verbatim>\<open>localProtInfo.xml\<close> exists.\<close>

definition id_text :: "pyval \<Rightarrow> string" where
  "id_text session = (case subscript session ''id'' of Inr (PStr s) \<Rightarrow> s | _ \<Rightarrow> [])"

definition first_created :: "filesystem \<Rightarrow> string \<Rightarrow> pyval list \<Rightarrow> string option" where
  "first_created f election_privpath ss =
     (case filter (\<lambda>s. path_exists f (os_path_join (session_dir election_privpath s)
                                          ''localProtInfo.xml'')) ss of
        [] \<Rightarrow> None
      | s # _ \<Rightarrow> Some (id_text s))"

definition date_or_null :: "pyval \<Rightarrow> bool" where
  "date_or_null v = (v = PNone \<or> isinstance v Datetime)"

text \<open>The voting-window invariant in the specification's words: the start is
  not after the end when both are present.\<close>

definition window_ordered :: "election_row \<Rightarrow> bool" where
  "window_ordered e =
     (case (e_voting_start_date e, e_voting_end_date e) of
        (PDate a, PDate b) \<Rightarrow> a \<le> b
      | _ \<Rightarrow> True)"

section \<open>A small election for the examples\<close>

text \<open>
  A node \<^verbatim>\<open>auth1\<close> with its configuration, an election \<^verbatim>\<open>E1\<close> with two
  authorities and one session \<^verbatim>\<open>S1\<close>, sent by the director \<^verbatim>\<open>auth2\<close>.
  \<open>sample_loads\<close> agrees with \<^verbatim>\<open>json.loads\<close> on the one text the
  examples decode, and \<open>sample_engine\<close> is a CryptoEngine that leaves the file
  each of the three commands is run for.
\<close>

definition sample_loads :: "string \<Rightarrow> pyval option" where
  "sample_loads s = (if s = ''[{}]'' then Some (PList [PDict []]) else None)"

definition sample_config :: config where
  "sample_config =
     \<lparr>max_num_questions = 10, private_data_path = ''priv'', public_data_path = ''pub'',
      root_url = ''https://auth1'', ssl_cert_string = ''CERT1'',
      autoaccept_requests = True, json_loads = sample_loads,
      certs_differ = (\<lambda>a b. a \<noteq> b), dumps = (\<lambda>v. ''...''), isoformat = (\<lambda>d. ''...''),
      server_url = ''http://auth1:8081'', hint_server_url = ''auth1:8082''\<rparr>"

definition sample_authorities :: pyval where
  "sample_authorities =
     PList [PDict [(''name'', PStr ''auth1''), (''orchestra_url'', PStr ''https://auth1''),
                   (''ssl_cert'', PStr ''CERT1'')],
            PDict [(''name'', PStr ''auth2''), (''orchestra_url'', PStr ''https://auth2''),
                   (''ssl_cert'', PStr ''CERT2'')]]"

definition sample_submission :: "pyval \<Rightarrow> pyval \<Rightarrow> (string \<times> pyval) list" where
  "sample_submission start_date end_date =
     [(''election_id'', PStr ''E1''), (''title'', PStr ''t''), (''url'', PStr ''u''),
      (''description'', PStr ''d''), (''is_recurring'', PBool False),
      (''authorities'', sample_authorities), (''questions_data'', PStr ''[{}]''),
      (''voting_start_date'', start_date), (''voting_end_date'', end_date),
      (''num_parties'', PInt 2), (''threshold_parties'', PInt 2),
      (''sessions'', PList [PDict [(''id'', PStr ''S1''), (''stub'', PStr ''<stub/>'')]])]"

definition sample_task :: "string \<Rightarrow> pyval \<Rightarrow> pyval \<Rightarrow> task" where
  "sample_task sender start_date end_date =
     \<lparr>input_data = PDict (sample_submission start_date end_date), sender_ssl_cert = sender,
      prev_output_data = PNone,
      parent_input_data = PDict (sample_submission start_date end_date)\<rparr>"

definition empty_world :: world where
  "empty_world =
     \<lparr>fs = Map.empty, db = \<lparr>elections = [], authorities = [], sessions = []\<rparr>, calls = [],
      own_output = None, parent_output = None, subtasks = []\<rparr>"

definition sample_engine :: engine where
  "sample_engine l cwd f =
     (if hd l = ''vmni''
      then (0, write_file f (os_path_join cwd ''localProtInfo.xml'') (''protinfo '' @ cwd))
      else (0, write_file f (os_path_join cwd (last l)) ''key''))"

definition failing_engine :: engine where
  "failing_engine l cwd f = (1, f)"

definition key_task :: task where
  "key_task =
     \<lparr>input_data = PDict [(''session_id'', PStr ''S1''), (''election_id'', PStr ''E1''),
                          (''protInfo_content'', PStr ''<merged/>'')],
      sender_ssl_cert = ''CERT2'', prev_output_data = PNone, parent_input_data = PNone\<rparr>"

definition key_world :: world where
  "key_world = empty_world\<lparr>fs := mkdir_recursive Map.empty ''priv/E1/S1''\<rparr>"

text \<open>Variants of the submission: one whose question payload is already a
  parsed list, a first-time submission with its three extra fields, and one
  whose two authorities bear the same name.\<close>

definition parsed_submission :: "(string \<times> pyval) list" where
  "parsed_submission = (''questions_data'', PList [PDict []]) # sample_submission PNone PNone"

definition first_time_submission :: "pyval \<Rightarrow> (string \<times> pyval) list" where
  "first_time_submission questions =
     [(''callback_url'', PStr ''c''), (''extra'', PList []), (''questions_data'', questions)]
     @ sample_submission PNone PNone"

definition same_name_authorities :: "pyval list" where
  "same_name_authorities =
     [PDict [(''name'', PStr ''auth1''), (''orchestra_url'', PStr ''https://auth1''),
             (''ssl_cert'', PStr ''CERT1'')],
      PDict [(''name'', PStr ''auth1''), (''orchestra_url'', PStr ''https://auth2''),
             (''ssl_cert'', PStr ''CERT2'')]]"

definition same_name_submission :: "(string \<times> pyval) list" where
  "same_name_submission =
     (''authorities'', PList same_name_authorities) # sample_submission PNone PNone"

definition without_key :: "string \<Rightarrow> (string \<times> pyval) list \<Rightarrow> (string \<times> pyval) list" where
  "without_key k d = filter (\<lambda>kv. fst kv \<noteq> k) d"

definition same_cert_authorities :: "pyval list" where
  "same_cert_authorities =
     [PDict [(''name'', PStr ''auth1''), (''orchestra_url'', PStr ''https://auth1''),
             (''ssl_cert'', PStr ''CERT1'')],
      PDict [(''name'', PStr ''auth2''), (''orchestra_url'', PStr ''https://auth2''),
             (''ssl_cert'', PStr ''CERT1'')]]"

text \<open>
  The same election with two sessions, the state a performer is in after its
  bootstrap, a CryptoEngine that fails in the directory of the second session,
  and the state of a director: its Store holds the election already, under a
  title of its own.
\<close>

definition two_session_submission :: "(string \<times> pyval) list" where
  "two_session_submission =
     (''sessions'', PList [PDict [(''id'', PStr ''S1''), (''stub'', PStr ''<stub1/>'')],
                           PDict [(''id'', PStr ''S2''), (''stub'', PStr ''<stub2/>'')]])
     # sample_submission PNone PNone"

definition two_session_task :: "pyval \<Rightarrow> task" where
  "two_session_task decision =
     \<lparr>input_data = PDict two_session_submission, sender_ssl_cert = ''CERT2'',
      prev_output_data = decision, parent_input_data = PDict two_session_submission\<rparr>"

definition bootstrapped :: "config \<Rightarrow> world" where
  "bootstrapped cfg = snd (generate_private_info cfg (two_session_task PNone) empty_world)"

definition second_fails_engine :: engine where
  "second_fails_engine l cwd f =
     (if cwd = ''priv/E1/S2'' then (1, f) else sample_engine l cwd f)"

definition stored_election :: election_row where
  "stored_election = (election_of (sample_submission PNone PNone))\<lparr>e_title := PStr ''stored title''\<rparr>"

definition director_world :: world where
  "director_world =
     empty_world\<lparr>db := \<lparr>elections = [stored_election], authorities = [], sessions = []\<rparr>\<rparr>"

section \<open>Phase 2 is write-once\<close>

lemma os_path_join_nonempty: "b \<noteq> [] \<Longrightarrow> os_path_join a b \<noteq> []"
  by (simp add: os_path_join_def)

lemma copyfile_keeps:
  assumes "copyfile f src dst = Inr f'" and "f p \<noteq> None"
  shows "f' p \<noteq> None"
  using assms
  by (auto simp: copyfile_def write_file_def split: option.splits fsnode.splits if_splits)

lemma copyfile_source:
  assumes "copyfile f src dst = Inr f'"
  shows "f src \<noteq> None"
  using assms by (auto simp: copyfile_def split: option.splits fsnode.splits if_splits)

text \<open>A publication that went through has read the encoded key from the
  private directory, and nothing after that removes it.\<close>

lemma publish_key_present:
  assumes "publish cfg eid sid sp w = (Inr u, w')"
  shows "path_exists (fs w') (os_path_join sp ''publicKey_json'')"
proof -
  let ?pub = "os_path_join (os_path_join (public_data_path cfg) eid) sid"
  let ?w1 = "if \<not> path_exists (fs w) ?pub then w\<lparr>fs := mkdir_recursive (fs w) ?pub\<rparr> else w"
  let ?key = "os_path_join sp ''publicKey_json''"
  from assms obtain f2 f3 where
    c1: "copyfile (fs ?w1) ?key (os_path_join ?pub ''publicKey_json'') = Inr f2"
    and c2: "copyfile f2 (os_path_join sp ''protInfo.xml'') (os_path_join ?pub ''protInfo.xml'') = Inr f3"
    and w': "w' = ?w1\<lparr>fs := f3\<rparr>"
    unfolding publish_def Let_def by (auto split: sum.splits)
  from c1 have "fs ?w1 ?key \<noteq> None" by (rule copyfile_source)
  with c1 have "f2 ?key \<noteq> None" by (rule copyfile_keeps)
  with c2 have "f3 ?key \<noteq> None" by (rule copyfile_keeps)
  with w' show ?thesis by (simp add: path_exists_def os_path_join_nonempty)
qed

lemma make_public_key_key_present:
  assumes "make_public_key eng cfg input eid sid sp w = (Inr u, w')"
  shows "path_exists (fs w') (os_path_join sp ''publicKey_json'')"
  using assms unfolding make_public_key_def
  by (auto split: sum.splits prod.splits dest: publish_key_present)

lemma generate_public_key_guard:
  assumes "subscript (input_data t) ''session_id'' = Inr (PStr sid)"
    and "subscript (input_data t) ''election_id'' = Inr (PStr eid)"
    and "sp = os_path_join (os_path_join (private_data_path cfg) eid) sid"
    and "path_exists (fs w) sp"
    and "path_exists (fs w) (os_path_join sp ''publicKey_raw'')
         \<or> path_exists (fs w) (os_path_join sp ''publicKey_json'')"
  shows "generate_public_key eng cfg t w = (Inl (TaskError ''pubkey already created''), w)"
  using assms unfolding generate_public_key_def Let_def by auto

lemma generate_public_key_success:
  assumes "subscript (input_data t) ''session_id'' = Inr (PStr sid)"
    and "subscript (input_data t) ''election_id'' = Inr (PStr eid)"
    and "sp = os_path_join (os_path_join (private_data_path cfg) eid) sid"
    and "generate_public_key eng cfg t w = (Inr u, w')"
  shows "path_exists (fs w') (os_path_join sp ''publicKey_json'')"
  using assms unfolding generate_public_key_def Let_def
  by (auto split: if_splits dest: make_public_key_key_present)

lemmas key_example_defs =
  generate_public_key_def sample_engine_def failing_engine_def sample_config_def key_task_def
  key_world_def empty_world_def mkdir_recursive_def mkdir_def path_exists_def os_path_join_def
  slash_def dict_item_def make_public_key_def store_merged_descriptor_def write_file_def
  check_call_def is_dir_def publish_def copyfile_def Let_def

text \<open>
  Claim C1. Take a call of \<^verbatim>\<open>generate_public_key\<close> for the election
  \<open>eid\<close> and the session \<open>sid\<close>, whose private directory is
  \<open>session_privpath\<close>. If that directory exists and the raw key file
  \<^verbatim>\<open>publicKey_raw\<close> or the encoded key file \<^verbatim>\<open>publicKey_json\<close> is in
  it, the call fails with the reason "pubkey already created" and the whole
  state, and with it every file of the private and the public area, is what it
  was. In particular, where a first call succeeded and left the state \<open>w1\<close>,
  a second call for the same session in \<open>w1\<close>, whatever its engine and its
  descriptor content, fails this way and leaves \<open>w1\<close> as it is.
\<close>

theorem generate_public_key_write_once:
  assumes "subscript (input_data t) ''session_id'' = Inr (PStr sid)"
    and "subscript (input_data t) ''election_id'' = Inr (PStr eid)"
    and "subscript (input_data t') ''session_id'' = Inr (PStr sid)"
    and "subscript (input_data t') ''election_id'' = Inr (PStr eid)"
    and "session_privpath = os_path_join (os_path_join (private_data_path cfg) eid) sid"
  shows "(path_exists (fs w) session_privpath
          \<and> (path_exists (fs w) (os_path_join session_privpath ''publicKey_raw'')
             \<or> path_exists (fs w) (os_path_join session_privpath ''publicKey_json''))
          \<longrightarrow> generate_public_key eng cfg t w = (Inl (TaskError ''pubkey already created''), w))
       \<and> (generate_public_key eng cfg t w = (Inr (), w1) \<and> path_exists (fs w1) session_privpath
          \<longrightarrow> generate_public_key eng' cfg t' w1
                = (Inl (TaskError ''pubkey already created''), w1))"
proof (intro conjI impI)
  assume "path_exists (fs w) session_privpath
          \<and> (path_exists (fs w) (os_path_join session_privpath ''publicKey_raw'')
             \<or> path_exists (fs w) (os_path_join session_privpath ''publicKey_json''))"
  with generate_public_key_guard [OF assms(1,2,5), of w eng]
  show "generate_public_key eng cfg t w = (Inl (TaskError ''pubkey already created''), w)"
    by blast
next
  assume first: "generate_public_key eng cfg t w = (Inr (), w1) \<and> path_exists (fs w1) session_privpath"
  with generate_public_key_success [OF assms(1,2,5), of eng w "()" w1]
  have "path_exists (fs w1) (os_path_join session_privpath ''publicKey_json'')"
    by blast
  with first generate_public_key_guard [OF assms(3,4,5), of w1 eng']
  show "generate_public_key eng' cfg t' w1 = (Inl (TaskError ''pubkey already created''), w1)"
    by blast
qed

theorem generate_public_key_write_once_witness:
  "generate_public_key sample_engine sample_config key_task key_world
     = (Inr (), snd (generate_public_key sample_engine sample_config key_task key_world))
   \<and> path_exists (fs (snd (generate_public_key sample_engine sample_config key_task key_world)))
        ''priv/E1/S1''
   \<and> path_exists (fs (snd (generate_public_key sample_engine sample_config key_task key_world)))
        (os_path_join ''priv/E1/S1'' ''publicKey_json'')
   \<and> generate_public_key failing_engine sample_config key_task
        (snd (generate_public_key sample_engine sample_config key_task key_world))
      = (Inl (TaskError ''pubkey already created''),
         snd (generate_public_key sample_engine sample_config key_task key_world))"
proof -
  let ?after = "snd (generate_public_key sample_engine sample_config key_task key_world)"
  have ids: "subscript (input_data key_task) ''session_id'' = Inr (PStr ''S1'')"
    "subscript (input_data key_task) ''election_id'' = Inr (PStr ''E1'')"
    by (simp_all add: key_task_def dict_item_def)
  have sp: "''priv/E1/S1'' = os_path_join (os_path_join (private_data_path sample_config) ''E1'') ''S1''"
    by (simp add: sample_config_def os_path_join_def slash_def)
  have "fst (generate_public_key sample_engine sample_config key_task key_world) = Inr ()"
    by (simp add: key_example_defs)
  then have first: "generate_public_key sample_engine sample_config key_task key_world = (Inr (), ?after)"
    by (simp add: prod_eq_iff)
  have dir: "path_exists (fs ?after) ''priv/E1/S1''"
    by (simp add: key_example_defs)
  have key: "path_exists (fs ?after) (os_path_join ''priv/E1/S1'' ''publicKey_json'')"
    by (simp add: key_example_defs)
  from generate_public_key_write_once
         [OF ids ids sp, where w = key_world and eng = sample_engine and ?w1.0 = ?after
            and eng' = failing_engine]
    first dir key
  show ?thesis by blast
qed

section \<open>The validator and its checks\<close>

lemma load_questions_data_eq:
  "load_questions_data cfg data ce =
     (case questions_of cfg data ce of
        None \<Rightarrow> Inl (TaskError ''questions_data is not in json'')
      | Some q \<Rightarrow> Inr q)"
  by (auto simp: load_questions_data_def questions_of_def dict_get_def
      split: option.splits pyval.splits)

lemma check_requirements_eq:
  "check_requirements reqs data =
     (if fields_ok reqs data then Inr ()
      else Inl (invalid_parameter (first_bad_field reqs data)))"
  by (induction reqs) (auto simp: fields_ok_def first_bad_field_def has_field_def split: option.splits)

lemma check_voting_date_eq:
  "check_voting_date data key shown =
     (if date_ok data key then Inr () else Inl (invalid_parameter shown))"
  by (auto simp: check_voting_date_def date_ok_def split: option.splits)

lemma has_field_Basestring:
  "has_field d k Basestring \<longleftrightarrow> (\<exists>s. map_of d k = Some (PStr s))"
  by (auto simp: has_field_def split: option.splits elim: isinstance.elims)

lemma has_field_ListT:
  "has_field d k ListT \<longleftrightarrow> (\<exists>l. map_of d k = Some (PList l))"
  by (auto simp: has_field_def split: option.splits elim: isinstance.elims)

lemma check_election_id_eq:
  assumes "has_field data ''election_id'' Basestring"
  shows "check_election_id data =
     (if election_id_ok data then Inr ()
      else Inl (TaskError ''invalid characters in election_id''))"
  using assms
  by (auto simp: has_field_Basestring check_election_id_def election_id_ok_def dict_item_def)

lemma check_some_authority_eq:
  assumes "has_field data ''authorities'' ListT"
  shows "check_some_authority data =
     (if authority_entries data \<noteq> [] then Inr () else Inl (TaskError ''no authorities''))"
  using assms
  by (auto simp: has_field_ListT check_some_authority_def authority_entries_def dict_item_def)

lemma check_question_count_eq:
  "check_question_count cfg q =
     (if question_count_ok cfg (Some q) then Inr ()
      else Inl (TaskError ''Unsupported number of questions in the election''))"
  by (auto simp: check_question_count_def question_count_ok_def Suc_le_eq split: pyval.splits)

lemma check_not_in_store_eq:
  assumes "has_field data ''election_id'' Basestring"
  shows "check_not_in_store d data ce =
     (if ce \<longrightarrow> election_count d (dict_get data ''election_id'') = 0 then Inr ()
      else Inl (TaskError (''an election with id '' @ election_id_text data @ '' already exists'')))"
  using assms
  by (auto simp: has_field_Basestring check_not_in_store_def dict_item_def dict_get_def
      election_id_text_def)

lemma check_auth_reqs_eq:
  "check_auth_reqs reqs (PDict d) =
     (if fields_ok reqs d then Inr () else Inl (invalid_parameter (first_bad_field reqs d)))"
  by (induction reqs)
    (auto simp: fields_ok_def first_bad_field_def has_field_def dict_has_def dict_item_def
      split: option.splits)

lemma check_authorities_eq:
  assumes "list_all (\<lambda>a. isinstance a DictT) l"
  shows "check_authorities l =
     (if list_all authority_ok l then Inr ()
      else Inl (invalid_parameter (first_bad_authority_field l)))"
  using assms
proof (induction l)
  case Nil
  then show ?case by simp
next
  case (Cons a l)
  then obtain d where a: "a = PDict d" by (cases a) auto
  with Cons show ?case
    by (auto simp: check_auth_reqs_eq authority_ok_def first_bad_authority_field_def)
qed

lemma authority_field_text:
  assumes "authority_ok a" and "k \<in> fst ` set auth_reqs"
  shows "\<exists>d s. a = PDict d \<and> map_of d k = Some (PStr s)"
proof -
  from assms(1) obtain d where a: "a = PDict d" and d: "fields_ok auth_reqs d"
    by (cases a) (auto simp: authority_ok_def)
  from d assms(2) obtain s where "map_of d k = Some (PStr s)"
    by (auto simp: fields_ok_def auth_reqs_def has_field_Basestring)
  with a show ?thesis by blast
qed

lemma field_values_simps:
  "field_values [] k = []"
  "field_values (PDict d # l) k = dict_get d k # field_values l k"
  by (simp_all add: field_values_def)

lemma column_eq:
  assumes "list_all authority_ok l" and "k \<in> fst ` set auth_reqs"
  shows "column l k = Inr (field_values l k)"
  using assms(1)
proof (induction l)
  case Nil
  show ?case by (simp add: field_values_simps)
next
  case (Cons a l)
  from Cons.prems authority_field_text [of a k] assms(2)
  obtain d s where a: "a = PDict d" and s: "map_of d k = Some (PStr s)" by auto
  from s have "dict_item d k = Inr (PStr s)" "dict_get d k = PStr s"
    by (simp_all add: dict_item_def dict_get_def)
  with Cons a show ?case by (simp add: field_values_simps)
qed

lemma hash_keys_eq:
  assumes "list_all authority_ok l" and "k \<in> fst ` set auth_reqs"
  shows "hash_keys (field_values l k) = Inr (field_values l k)"
  using assms(1)
proof (induction l)
  case Nil
  show ?case by (simp add: field_values_simps)
next
  case (Cons a l)
  from Cons.prems authority_field_text [of a k] assms(2)
  obtain d s where a: "a = PDict d" and s: "map_of d k = Some (PStr s)" by auto
  from s have "dict_get d k = PStr s" by (simp add: dict_get_def)
  with Cons a show ?case by (simp add: field_values_simps)
qed

lemma length_field_values: "length (field_values l k) = length l"
  by (simp add: field_values_def)

lemma unique_by_keys_eq:
  assumes "list_all authority_ok l"
  shows "unique_by_keys l [''ssl_cert'', ''orchestra_url'']
           = Inr (distinct (field_values l ''ssl_cert'') \<and> distinct (field_values l ''orchestra_url''))"
proof -
  have k: "''ssl_cert'' \<in> fst ` set auth_reqs" "''orchestra_url'' \<in> fst ` set auth_reqs"
    by (simp_all add: auth_reqs_def)
  have d: "length l \<noteq> card (set (field_values l k)) \<longleftrightarrow> \<not> distinct (field_values l k)" for k
    using card_distinct [of "field_values l k"] distinct_card [of "field_values l k"]
    by (auto simp: length_field_values)
  show ?thesis
    using column_eq [OF assms k(1)] column_eq [OF assms k(2)]
      hash_keys_eq [OF assms k(1)] hash_keys_eq [OF assms k(2)]
    by (simp add: d)
qed

lemma check_authority_list_eq:
  assumes "has_field data ''authorities'' ListT"
    and "list_all (\<lambda>a. isinstance a DictT) (authority_entries data)"
  shows "check_authority_list data =
     (if \<not> list_all authority_ok (authority_entries data)
      then Inl (invalid_parameter (first_bad_authority_field (authority_entries data)))
      else if distinct (field_values (authority_entries data) ''ssl_cert'')
              \<and> distinct (field_values (authority_entries data) ''orchestra_url'')
      then Inr () else Inl (TaskError ''invalid authorities parameters''))"
proof -
  from assms(1) obtain l where l: "map_of data ''authorities'' = Some (PList l)"
    by (auto simp: has_field_ListT)
  then have e: "authority_entries data = l" by (simp add: authority_entries_def)
  show ?thesis
  proof (cases "list_all authority_ok l")
    case True
    with l e assms(2) show ?thesis
      by (simp add: check_authority_list_def dict_item_def check_authorities_eq andthen_def
          unique_by_keys_eq del: unique_by_keys.simps)
  next
    case False
    with l e assms(2) show ?thesis
      by (simp add: check_authority_list_def dict_item_def check_authorities_eq andthen_def
          del: unique_by_keys.simps)
  qed
qed

lemma fields_ok_base:
  assumes "fields_ok (requirements ce) data"
  shows "has_field data ''election_id'' Basestring" and "has_field data ''authorities'' ListT"
  using assms by (auto simp: fields_ok_def requirements_def base_requirements_def split: if_splits)

lemma check_election_data_eq:
  assumes "list_all (\<lambda>a. isinstance a DictT) (authority_entries data)"
  shows "check_election_data cfg d data ce =
     (case first_violation (validation_rules cfg d data ce) of
        None \<Rightarrow> Inr ()
      | Some reason \<Rightarrow> Inl (TaskError reason))"
proof (cases "questions_of cfg data ce")
  case None
  then show ?thesis
    by (simp add: check_election_data_def load_questions_data_eq first_violation_def
        validation_rules_def)
next
  case (Some q)
  show ?thesis
  proof (cases "fields_ok (requirements ce) data")
    case False
    with Some show ?thesis
      by (simp add: check_election_data_def load_questions_data_eq first_violation_def
          validation_rules_def check_requirements_eq andthen_def invalid_parameter_def)
  next
    case True
    note f = fields_ok_base [OF True]
    from Some True show ?thesis
      by (simp add: check_election_data_def load_questions_data_eq first_violation_def
          validation_rules_def check_requirements_eq andthen_def invalid_parameter_def
          check_voting_date_eq check_election_id_eq [OF f(1)] check_some_authority_eq [OF f(2)]
          check_question_count_eq check_not_in_store_eq [OF f(1)]
          check_authority_list_eq [OF f(2) assms])
  qed
qed

text \<open>An accepted submission has passed every check, and the other way round.\<close>

lemma andthen_Inr_iff: "andthen r k = Inr x \<longleftrightarrow> r = Inr () \<and> k = Inr x"
  by (cases r) (auto simp: andthen_def)

lemma check_auth_reqs_dict:
  "check_auth_reqs auth_reqs a = Inr () \<Longrightarrow> isinstance a DictT"
  by (cases a) (auto simp: auth_reqs_def split: if_splits sum.splits bool.splits)

lemma check_authorities_dicts:
  "check_authorities l = Inr () \<Longrightarrow> list_all (\<lambda>a. isinstance a DictT) l"
proof (induction l)
  case Nil
  show ?case by simp
next
  case (Cons a l)
  from Cons.prems have "check_auth_reqs auth_reqs a = Inr ()" and "check_authorities l = Inr ()"
    by (auto split: sum.splits)
  with Cons.IH check_auth_reqs_dict [of a] show ?case by simp
qed

lemma check_authority_list_dicts:
  assumes "check_authority_list data = Inr ()"
  shows "list_all (\<lambda>a. isinstance a DictT) (authority_entries data)"
proof (cases "map_of data ''authorities''")
  case None
  then show ?thesis by (simp add: authority_entries_def)
next
  case (Some v)
  show ?thesis
  proof (cases v)
    case (PList l)
    with Some assms have "check_authorities l = Inr ()"
      by (auto simp: check_authority_list_def dict_item_def andthen_Inr_iff)
    with Some PList show ?thesis
      by (simp add: authority_entries_def check_authorities_dicts)
  qed (use Some in \<open>simp_all add: authority_entries_def\<close>)
qed

lemma check_election_data_dicts:
  assumes "check_election_data cfg d data ce = Inr ()"
  shows "list_all (\<lambda>a. isinstance a DictT) (authority_entries data)"
proof -
  from assms have "check_authority_list data = Inr ()"
    by (auto simp: check_election_data_def andthen_Inr_iff split: sum.splits)
  then show ?thesis by (rule check_authority_list_dicts)
qed

lemma first_violation_None_iff: "first_violation rules = None \<longleftrightarrow> list_all fst rules"
  by (induction rules) (auto simp: first_violation_def)

lemma authority_ok_dict: "authority_ok a \<Longrightarrow> isinstance a DictT"
  by (cases a) (auto simp: authority_ok_def)

lemma check_election_data_Inr_iff:
  "check_election_data cfg d data ce = Inr () \<longleftrightarrow> list_all fst (validation_rules cfg d data ce)"
proof
  assume ok: "check_election_data cfg d data ce = Inr ()"
  from check_election_data_eq [OF check_election_data_dicts [OF ok], of cfg d ce] ok
  have "first_violation (validation_rules cfg d data ce) = None"
    by (auto split: option.splits)
  then show "list_all fst (validation_rules cfg d data ce)"
    by (simp only: first_violation_None_iff)
next
  assume rules: "list_all fst (validation_rules cfg d data ce)"
  then have "list_all authority_ok (authority_entries data)"
    by (simp add: validation_rules_def)
  then have "list_all (\<lambda>a. isinstance a DictT) (authority_entries data)"
    by (induction "authority_entries data") (auto simp: list_all_iff authority_ok_dict)
  from check_election_data_eq [OF this, of cfg d ce] rules
  show "check_election_data cfg d data ce = Inr ()"
    by (simp only: first_violation_None_iff [symmetric]) simp
qed

section \<open>What the validator accepts and what it reports\<close>

lemmas validator_example_defs =
  check_election_data_def load_questions_data_def requirements_def base_requirements_def
  extra_requirements_def check_voting_date_def check_election_id_def check_some_authority_def
  check_question_count_def check_not_in_store_def check_authority_list_def auth_reqs_def
  andthen_def invalid_parameter_def dict_get_def dict_item_def dict_has_def ident_match_def
  ident_char_def newline_def election_count_def sample_config_def sample_loads_def
  sample_submission_def sample_authorities_def parsed_submission_def first_time_submission_def
  same_name_submission_def same_name_authorities_def same_cert_authorities_def
  without_key_def empty_world_def

lemmas spec_example_defs =
  spec_checks_hold_def spec_required_fields_def spec_first_time_extras_def
  spec_question_payload_def spec_window_field_def spec_identifier_def spec_question_count_def
  has_field_def authority_entries_def authority_ok_def fields_ok_def field_values_def

text \<open>
  Claim C3, as the source has it. For a submission whose authority entries are
  all dictionaries, \<^verbatim>\<open>check_election_data\<close> returns nothing when every
  check holds and otherwise raises one task error, whose reason is that of the
  first check that fails, in the order of the source: on a re-validation the
  question payload must decode; the required fields and their types (on a
  first-time submission also callback url, extra metadata and the question
  payload as a list); the start and the end of the voting window; the
  identifier pattern; a non-empty authority list; a question count between 1 and
  the maximum; on a first-time submission the identifier is not in the Store;
  the fields of every authority; the uniqueness of certificates and endpoints.
  It succeeds if and only if all of them hold. The validator only reads the
  Store and returns no state.
\<close>

theorem validator_first_violation:
  assumes "list_all (\<lambda>a. isinstance a DictT) (authority_entries data)"
  shows "check_election_data cfg d data check_extra =
           (case first_violation (validation_rules cfg d data check_extra) of
              None \<Rightarrow> Inr ()
            | Some reason \<Rightarrow> Inl (TaskError reason))
         \<and> (check_election_data cfg d data check_extra = Inr ()
              \<longleftrightarrow> list_all fst (validation_rules cfg d data check_extra))"
proof (intro conjI)
  show "check_election_data cfg d data check_extra =
           (case first_violation (validation_rules cfg d data check_extra) of
              None \<Rightarrow> Inr ()
            | Some reason \<Rightarrow> Inl (TaskError reason))"
    by (rule check_election_data_eq [OF assms])
  show "check_election_data cfg d data check_extra = Inr ()
              \<longleftrightarrow> list_all fst (validation_rules cfg d data check_extra)"
    by (rule check_election_data_Inr_iff)
qed

theorem validator_first_violation_witness:
  "list_all (\<lambda>a. isinstance a DictT) (authority_entries (sample_submission PNone PNone))
   \<and> check_election_data sample_config (db empty_world) (sample_submission PNone PNone) False
       = Inr ()
   \<and> list_all fst
        (validation_rules sample_config (db empty_world) (sample_submission PNone PNone) False)
   \<and> list_all (\<lambda>a. isinstance a DictT) (authority_entries (without_key ''title'' parsed_submission))
   \<and> first_violation
        (validation_rules sample_config (db empty_world) (without_key ''title'' parsed_submission)
           False) = Some ''questions_data is not in json''"
proof -
  let ?sub = "sample_submission PNone PNone"
  let ?bad = "without_key ''title'' parsed_submission"
  have dicts: "list_all (\<lambda>a. isinstance a DictT) (authority_entries ?sub)"
    "list_all (\<lambda>a. isinstance a DictT) (authority_entries ?bad)"
    by (simp_all add: authority_entries_def sample_submission_def sample_authorities_def
        parsed_submission_def without_key_def)
  have ok: "check_election_data sample_config (db empty_world) ?sub False = Inr ()"
    by (simp add: validator_example_defs)
  have bad: "check_election_data sample_config (db empty_world) ?bad False
               = Inl (TaskError ''questions_data is not in json'')"
    by (simp add: validator_example_defs)
  from validator_first_violation [OF dicts(1), of sample_config "db empty_world" False] ok
  have "list_all fst (validation_rules sample_config (db empty_world) ?sub False)"
    by simp
  moreover
  from validator_first_violation [OF dicts(2), of sample_config "db empty_world" False] bad
  have "first_violation (validation_rules sample_config (db empty_world) ?bad False)
          = Some ''questions_data is not in json''"
    by (auto split: option.splits)
  ultimately show ?thesis using dicts ok by simp
qed

text \<open>The claim as the specification words it fails: a re-validated
  submission whose question payload is a parsed list of one question meets all
  eight checks of section 4.1, and the validator rejects it.\<close>

theorem validator_spec_checks_counterexample:
  "spec_checks_hold sample_config (db empty_world) parsed_submission False
   \<and> check_election_data sample_config (db empty_world) parsed_submission False
       = Inl (TaskError ''questions_data is not in json'')"
  by (simp add: validator_example_defs spec_example_defs)

text \<open>
  Claim C7, as the source has it. On a first-time submission
  (\<^verbatim>\<open>check_extra\<close> true) an accepted question payload is a list of 1 to the
  maximum number of questions, taken as it is: the result does not depend on
  \<^verbatim>\<open>json.loads\<close>. On a re-validation (\<^verbatim>\<open>check_extra\<close> false) the payload is
  decoded: when it is no text that \<^verbatim>\<open>json.loads\<close> decodes the result is
  "questions_data is not in json", and an accepted payload is a text that decodes
  to a list of 1 to the maximum number of questions.
\<close>

theorem question_payload_handling:
  "(check_election_data cfg d data True = Inr () \<longrightarrow>
      (\<exists>qs. map_of data ''questions_data'' = Some (PList qs)
            \<and> 1 \<le> length qs \<and> length qs \<le> max_num_questions cfg))
   \<and> check_election_data (cfg\<lparr>json_loads := f\<rparr>) d data True = check_election_data cfg d data True
   \<and> ((\<forall>s. map_of data ''questions_data'' = Some (PStr s) \<longrightarrow> json_loads cfg s = None) \<longrightarrow>
        check_election_data cfg d data False = Inl (TaskError ''questions_data is not in json''))
   \<and> (check_election_data cfg d data False = Inr () \<longrightarrow>
      (\<exists>s qs. map_of data ''questions_data'' = Some (PStr s) \<and> json_loads cfg s = Some (PList qs)
            \<and> 1 \<le> length qs \<and> length qs \<le> max_num_questions cfg))"
proof (intro conjI impI)
  assume "check_election_data cfg d data True = Inr ()"
  then have "question_count_ok cfg (questions_of cfg data True)"
    by (simp add: check_election_data_Inr_iff validation_rules_def)
  then show "\<exists>qs. map_of data ''questions_data'' = Some (PList qs)
            \<and> 1 \<le> length qs \<and> length qs \<le> max_num_questions cfg"
    by (auto simp: question_count_ok_def questions_of_def dict_get_def
        split: option.splits pyval.splits)
next
  show "check_election_data (cfg\<lparr>json_loads := f\<rparr>) d data True = check_election_data cfg d data True"
    by (simp add: check_election_data_def load_questions_data_def check_question_count_def
        split: pyval.splits)
next
  assume "\<forall>s. map_of data ''questions_data'' = Some (PStr s) \<longrightarrow> json_loads cfg s = None"
  then have "load_questions_data cfg data False = Inl (TaskError ''questions_data is not in json'')"
    by (auto simp: load_questions_data_def dict_get_def split: option.splits pyval.splits)
  then show "check_election_data cfg d data False = Inl (TaskError ''questions_data is not in json'')"
    by (simp add: check_election_data_def)
next
  assume "check_election_data cfg d data False = Inr ()"
  then have "question_count_ok cfg (questions_of cfg data False)"
    by (simp add: check_election_data_Inr_iff validation_rules_def)
  then show "\<exists>s qs. map_of data ''questions_data'' = Some (PStr s) \<and> json_loads cfg s = Some (PList qs)
            \<and> 1 \<le> length qs \<and> length qs \<le> max_num_questions cfg"
    by (auto simp: question_count_ok_def questions_of_def
        split: option.splits pyval.splits)
qed

theorem question_payload_handling_witness:
  "check_election_data sample_config (db empty_world) (first_time_submission (PList [PDict []])) True
     = Inr ()
   \<and> map_of (first_time_submission (PList [PDict []])) ''questions_data'' = Some (PList [PDict []])
   \<and> map_of parsed_submission ''questions_data'' = Some (PList [PDict []])
   \<and> check_election_data sample_config (db empty_world) parsed_submission False
       = Inl (TaskError ''questions_data is not in json'')
   \<and> check_election_data sample_config (db empty_world) (sample_submission PNone PNone) False
       = Inr ()
   \<and> map_of (sample_submission PNone PNone) ''questions_data'' = Some (PStr ''[{}]'')
   \<and> json_loads sample_config ''[{}]'' = Some (PList [PDict []])"
proof -
  have first: "check_election_data sample_config (db empty_world)
                 (first_time_submission (PList [PDict []])) True = Inr ()"
    by (simp add: validator_example_defs)
  have parsed: "\<forall>s. map_of parsed_submission ''questions_data'' = Some (PStr s)
                  \<longrightarrow> json_loads sample_config s = None"
    by (simp add: parsed_submission_def)
  have again: "check_election_data sample_config (db empty_world) (sample_submission PNone PNone)
                 False = Inr ()"
    by (simp add: validator_example_defs)
  have payloads: "map_of (first_time_submission (PList [PDict []])) ''questions_data''
                    = Some (PList [PDict []])"
    "map_of (sample_submission PNone PNone) ''questions_data'' = Some (PStr ''[{}]'')"
    "json_loads sample_config ''[{}]'' = Some (PList [PDict []])"
    "map_of parsed_submission ''questions_data'' = Some (PList [PDict []])"
    by (simp_all add: first_time_submission_def sample_submission_def sample_config_def
        sample_loads_def parsed_submission_def)
  from question_payload_handling [of sample_config "db empty_world" parsed_submission] parsed
  have "check_election_data sample_config (db empty_world) parsed_submission False
          = Inl (TaskError ''questions_data is not in json'')"
    by blast
  with first again payloads show ?thesis by blast
qed

text \<open>The claim as stated fails in both halves: a first-time submission whose
  question payload is valid serialized text is rejected for the type of the
  payload, nothing being decoded, and a re-validated submission whose payload is
  a parsed list is rejected by the decoder.\<close>

theorem question_payload_counterexample:
  "check_election_data sample_config (db empty_world) (first_time_submission (PStr ''[{}]'')) True
     = Inl (TaskError ''invalid questions_data parameter'')
   \<and> json_loads sample_config ''[{}]'' = Some (PList [PDict []])
   \<and> check_election_data sample_config (db empty_world) parsed_submission False
       = Inl (TaskError ''questions_data is not in json'')
   \<and> map_of parsed_submission ''questions_data'' = Some (PList [PDict []])"
  by (simp add: validator_example_defs)

text \<open>
  Claim C8, as the source has it. A submission the validator accepts has no
  two authorities with the same certificate and no two with the same endpoint;
  and on a list of well-formed authority entries \<^verbatim>\<open>unique_by_keys\<close> with the
  keys \<^verbatim>\<open>ssl_cert\<close> and \<^verbatim>\<open>orchestra_url\<close> returns true exactly when the
  certificates are pairwise different and the endpoints are pairwise different.
  Names are not compared.
\<close>

theorem authority_uniqueness:
  "(check_election_data cfg d data check_extra = Inr () \<longrightarrow>
      distinct (field_values (authority_entries data) ''ssl_cert'')
      \<and> distinct (field_values (authority_entries data) ''orchestra_url''))
   \<and> (list_all authority_ok l \<longrightarrow>
        unique_by_keys l [''ssl_cert'', ''orchestra_url'']
          = Inr (distinct (field_values l ''ssl_cert'') \<and> distinct (field_values l ''orchestra_url'')))"
  using unique_by_keys_eq [of l]
  by (simp add: check_election_data_Inr_iff validation_rules_def del: unique_by_keys.simps)

theorem authority_uniqueness_witness:
  "check_election_data sample_config (db empty_world) (sample_submission PNone PNone) False = Inr ()
   \<and> distinct (field_values (authority_entries (sample_submission PNone PNone)) ''ssl_cert'')
   \<and> distinct (field_values (authority_entries (sample_submission PNone PNone)) ''orchestra_url'')
   \<and> list_all authority_ok same_cert_authorities
   \<and> unique_by_keys same_cert_authorities [''ssl_cert'', ''orchestra_url''] = Inr False"
proof -
  have ok: "check_election_data sample_config (db empty_world) (sample_submission PNone PNone)
              False = Inr ()"
    by (simp add: validator_example_defs)
  have wf: "list_all authority_ok same_cert_authorities"
    by (simp add: same_cert_authorities_def authority_ok_def fields_ok_def has_field_def
        auth_reqs_def)
  have dup: "\<not> distinct (field_values same_cert_authorities ''ssl_cert'')"
    by (simp add: same_cert_authorities_def field_values_def dict_get_def)
  from authority_uniqueness
         [of sample_config "db empty_world" "sample_submission PNone PNone" False
             same_cert_authorities] ok wf dup
  show ?thesis by simp
qed

text \<open>The claim as stated fails for names: two authorities with the same
  name, different certificates and different endpoints are accepted.\<close>

theorem authority_name_counterexample:
  "check_election_data sample_config (db empty_world) same_name_submission False = Inr ()
   \<and> authority_entries same_name_submission = same_name_authorities
   \<and> field_values same_name_authorities ''name'' = [PStr ''auth1'', PStr ''auth1'']"
  by (simp add: validator_example_defs authority_entries_def field_values_def)

text \<open>The voting window.\<close>

lemma date_ok_absent: "map_of data key = None \<Longrightarrow> \<not> date_ok data key"
  by (simp add: date_ok_def)

lemma fields_ok_other_key:
  assumes "key \<notin> fst ` set reqs"
  shows "fields_ok reqs ((key, v) # data) = fields_ok reqs data"
  using assms by (induction reqs) (auto simp: fields_ok_def has_field_def)

lemma requirements_keys:
  "fst ` set (requirements ce) \<subseteq>
     {''election_id'', ''title'', ''url'', ''description'', ''is_recurring'', ''authorities'',
      ''callback_url'', ''extra'', ''questions_data''}"
  by (simp add: requirements_def base_requirements_def extra_requirements_def)

lemma null_start_other_fields:
  shows "questions_of cfg ((''voting_start_date'', PNone) # data) ce = questions_of cfg data ce"
    and "fields_ok (requirements ce) ((''voting_start_date'', PNone) # data)
           = fields_ok (requirements ce) data"
    and "election_id_ok ((''voting_start_date'', PNone) # data) = election_id_ok data"
    and "authority_entries ((''voting_start_date'', PNone) # data) = authority_entries data"
    and "dict_get ((''voting_start_date'', PNone) # data) ''election_id''
           = dict_get data ''election_id''"
    and "date_ok ((''voting_start_date'', PNone) # data) ''voting_start_date''"
    and "date_ok ((''voting_start_date'', PNone) # data) ''voting_end_date''
           = date_ok data ''voting_end_date''"
proof -
  show "questions_of cfg ((''voting_start_date'', PNone) # data) ce = questions_of cfg data ce"
    by (simp add: questions_of_def dict_get_def)
  have "''voting_start_date'' \<notin> fst ` set (requirements ce)"
    using requirements_keys [of ce] by auto
  then show "fields_ok (requirements ce) ((''voting_start_date'', PNone) # data)
           = fields_ok (requirements ce) data"
    by (rule fields_ok_other_key)
  show "election_id_ok ((''voting_start_date'', PNone) # data) = election_id_ok data"
    by (simp add: election_id_ok_def)
  show "authority_entries ((''voting_start_date'', PNone) # data) = authority_entries data"
    by (simp add: authority_entries_def)
  show "dict_get ((''voting_start_date'', PNone) # data) ''election_id''
           = dict_get data ''election_id''"
    by (simp add: dict_get_def)
  show "date_ok ((''voting_start_date'', PNone) # data) ''voting_start_date''"
    by (simp add: date_ok_def)
  show "date_ok ((''voting_start_date'', PNone) # data) ''voting_end_date''
           = date_ok data ''voting_end_date''"
    by (simp add: date_ok_def)
qed

lemma null_end_other_fields:
  shows "questions_of cfg ((''voting_end_date'', PNone) # data) ce = questions_of cfg data ce"
    and "fields_ok (requirements ce) ((''voting_end_date'', PNone) # data)
           = fields_ok (requirements ce) data"
    and "election_id_ok ((''voting_end_date'', PNone) # data) = election_id_ok data"
    and "authority_entries ((''voting_end_date'', PNone) # data) = authority_entries data"
    and "dict_get ((''voting_end_date'', PNone) # data) ''election_id''
           = dict_get data ''election_id''"
    and "date_ok ((''voting_end_date'', PNone) # data) ''voting_end_date''"
    and "date_ok ((''voting_end_date'', PNone) # data) ''voting_start_date''
           = date_ok data ''voting_start_date''"
proof -
  show "questions_of cfg ((''voting_end_date'', PNone) # data) ce = questions_of cfg data ce"
    by (simp add: questions_of_def dict_get_def)
  have "''voting_end_date'' \<notin> fst ` set (requirements ce)"
    using requirements_keys [of ce] by auto
  then show "fields_ok (requirements ce) ((''voting_end_date'', PNone) # data)
           = fields_ok (requirements ce) data"
    by (rule fields_ok_other_key)
  show "election_id_ok ((''voting_end_date'', PNone) # data) = election_id_ok data"
    by (simp add: election_id_ok_def)
  show "authority_entries ((''voting_end_date'', PNone) # data) = authority_entries data"
    by (simp add: authority_entries_def)
  show "dict_get ((''voting_end_date'', PNone) # data) ''election_id''
           = dict_get data ''election_id''"
    by (simp add: dict_get_def)
  show "date_ok ((''voting_end_date'', PNone) # data) ''voting_end_date''"
    by (simp add: date_ok_def)
  show "date_ok ((''voting_end_date'', PNone) # data) ''voting_start_date''
           = date_ok data ''voting_start_date''"
    by (simp add: date_ok_def)
qed

lemma rules_with_null_start:
  assumes "list_all fst (validation_rules cfg d data ce)"
  shows "list_all fst (validation_rules cfg d ((''voting_start_date'', PNone) # data) ce)"
  using assms unfolding validation_rules_def
  by (simp add: null_start_other_fields)

lemma rules_with_null_end:
  assumes "list_all fst (validation_rules cfg d data ce)"
  shows "list_all fst (validation_rules cfg d ((''voting_end_date'', PNone) # data) ce)"
  using assms unfolding validation_rules_def
  by (simp add: null_end_other_fields)

text \<open>
  Claim C10. The validator asks for the keys \<^verbatim>\<open>voting_start_date\<close> and
  \<^verbatim>\<open>voting_end_date\<close> themselves: a submission that lacks one of them is
  never accepted, and once the payload and the required fields have passed, the
  reason is "invalid voting_start_date parameter" for a missing start and
  "invalid voting_send_date parameter" for a missing end after a good start. A
  key that is there with the value \<^verbatim>\<open>None\<close> is accepted: setting either
  date of an accepted submission to \<^verbatim>\<open>None\<close> leaves it accepted.
\<close>

theorem voting_dates_required:
  "(map_of data ''voting_start_date'' = None \<or> map_of data ''voting_end_date'' = None \<longrightarrow>
      check_election_data cfg d data check_extra \<noteq> Inr ())
   \<and> (questions_of cfg data check_extra \<noteq> None \<and> fields_ok (requirements check_extra) data \<longrightarrow>
        (map_of data ''voting_start_date'' = None \<longrightarrow>
           check_election_data cfg d data check_extra
             = Inl (TaskError ''invalid voting_start_date parameter''))
      \<and> (date_ok data ''voting_start_date'' \<and> map_of data ''voting_end_date'' = None \<longrightarrow>
           check_election_data cfg d data check_extra
             = Inl (TaskError ''invalid voting_send_date parameter'')))
   \<and> (check_election_data cfg d data check_extra = Inr () \<longrightarrow>
        check_election_data cfg d ((''voting_start_date'', PNone) # data) check_extra = Inr ()
      \<and> check_election_data cfg d ((''voting_end_date'', PNone) # data) check_extra = Inr ())"
proof (intro conjI impI)
  assume "map_of data ''voting_start_date'' = None \<or> map_of data ''voting_end_date'' = None"
  then have "\<not> date_ok data ''voting_start_date'' \<or> \<not> date_ok data ''voting_end_date''"
    by (auto simp: date_ok_absent)
  then show "check_election_data cfg d data check_extra \<noteq> Inr ()"
    by (auto simp: check_election_data_Inr_iff validation_rules_def)
next
  assume pre: "questions_of cfg data check_extra \<noteq> None \<and> fields_ok (requirements check_extra) data"
    and "map_of data ''voting_start_date'' = None"
  then show "check_election_data cfg d data check_extra
             = Inl (TaskError ''invalid voting_start_date parameter'')"
    by (auto simp: check_election_data_def load_questions_data_eq check_requirements_eq
        check_voting_date_eq date_ok_absent andthen_def invalid_parameter_def)
next
  assume pre: "questions_of cfg data check_extra \<noteq> None \<and> fields_ok (requirements check_extra) data"
    and "date_ok data ''voting_start_date'' \<and> map_of data ''voting_end_date'' = None"
  then show "check_election_data cfg d data check_extra
             = Inl (TaskError ''invalid voting_send_date parameter'')"
    by (auto simp: check_election_data_def load_questions_data_eq check_requirements_eq
        check_voting_date_eq date_ok_absent andthen_def invalid_parameter_def)
next
  assume "check_election_data cfg d data check_extra = Inr ()"
  then show "check_election_data cfg d ((''voting_start_date'', PNone) # data) check_extra = Inr ()"
    by (simp only: check_election_data_Inr_iff rules_with_null_start)
next
  assume "check_election_data cfg d data check_extra = Inr ()"
  then show "check_election_data cfg d ((''voting_end_date'', PNone) # data) check_extra = Inr ()"
    by (simp only: check_election_data_Inr_iff rules_with_null_end)
qed

theorem voting_dates_required_witness:
  "map_of (without_key ''voting_start_date'' (sample_submission PNone PNone)) ''voting_start_date''
     = None
   \<and> check_election_data sample_config (db empty_world)
        (without_key ''voting_start_date'' (sample_submission PNone PNone)) False
       = Inl (TaskError ''invalid voting_start_date parameter'')
   \<and> map_of (without_key ''voting_end_date'' (sample_submission PNone PNone)) ''voting_end_date''
       = None
   \<and> check_election_data sample_config (db empty_world)
        (without_key ''voting_end_date'' (sample_submission PNone PNone)) False
       = Inl (TaskError ''invalid voting_send_date parameter'')
   \<and> check_election_data sample_config (db empty_world) (sample_submission (PDate 1) (PDate 2))
        False = Inr ()
   \<and> check_election_data sample_config (db empty_world)
        ((''voting_start_date'', PNone) # sample_submission (PDate 1) (PDate 2)) False = Inr ()
   \<and> check_election_data sample_config (db empty_world)
        ((''voting_end_date'', PNone) # sample_submission (PDate 1) (PDate 2)) False = Inr ()"
proof -
  let ?no_start = "without_key ''voting_start_date'' (sample_submission PNone PNone)"
  let ?no_end = "without_key ''voting_end_date'' (sample_submission PNone PNone)"
  let ?dated = "sample_submission (PDate 1) (PDate 2)"
  have absent: "map_of ?no_start ''voting_start_date'' = None"
    "map_of ?no_end ''voting_end_date'' = None"
    by (simp_all add: without_key_def sample_submission_def)
  have start: "date_ok ?no_end ''voting_start_date''"
    by (simp add: without_key_def sample_submission_def date_ok_def)
  have pre: "questions_of sample_config ?no_start False \<noteq> None
             \<and> fields_ok (requirements False) ?no_start"
    "questions_of sample_config ?no_end False \<noteq> None \<and> fields_ok (requirements False) ?no_end"
    by (simp_all add: without_key_def sample_submission_def sample_authorities_def
        sample_config_def sample_loads_def questions_of_def fields_ok_def has_field_def
        requirements_def base_requirements_def)
  have ok: "check_election_data sample_config (db empty_world) ?dated False = Inr ()"
    by (simp add: validator_example_defs)
  from voting_dates_required [of ?no_start sample_config "db empty_world" False] absent(1) pre(1)
  have r1: "check_election_data sample_config (db empty_world) ?no_start False
              = Inl (TaskError ''invalid voting_start_date parameter'')"
    by blast
  from voting_dates_required [of ?no_end sample_config "db empty_world" False] absent(2) pre(2)
    start
  have r2: "check_election_data sample_config (db empty_world) ?no_end False
              = Inl (TaskError ''invalid voting_send_date parameter'')"
    by blast
  from voting_dates_required [of ?dated sample_config "db empty_world" False] ok
  have r3: "check_election_data sample_config (db empty_world)
              ((''voting_start_date'', PNone) # ?dated) False = Inr ()
            \<and> check_election_data sample_config (db empty_world)
              ((''voting_end_date'', PNone) # ?dated) False = Inr ()"
    by blast
  from absent r1 r2 ok r3 show ?thesis by blast
qed

section \<open>What a bootstrap leaves behind\<close>

lemma dict_items_eq:
  "dict_items d ks = Inr vs \<Longrightarrow> vs = map (dict_get d) ks"
proof (induction ks arbitrary: vs)
  case Nil
  then show ?case by simp
next
  case (Cons k ks)
  then show ?case
    by (auto simp: dict_item_def dict_get_def split: sum.splits option.splits)
qed

lemma new_election_eq:
  assumes "new_election data = Inr el"
  shows "el = election_of data"
proof -
  from assms obtain vs where
    vs: "dict_items data
             [''election_id'', ''title'', ''url'', ''description'', ''questions_data'',
              ''voting_start_date'', ''voting_end_date'', ''is_recurring'',
              ''num_parties'', ''threshold_parties''] = Inr vs"
    and el: "el = \<lparr>e_id = vs ! 0, e_title = vs ! 1, e_url = vs ! 2, e_description = vs ! 3,
               e_questions_data = vs ! 4, e_voting_start_date = vs ! 5,
               e_voting_end_date = vs ! 6, e_is_recurring = vs ! 7,
               e_num_parties = vs ! 8, e_threshold_parties = vs ! 9\<rparr>"
    unfolding new_election_def by (auto split: sum.splits)
  from dict_items_eq [OF vs] el show ?thesis
    by (simp add: election_of_def)
qed

lemma new_authorities_eq:
  "new_authorities eid l = Inr rows \<Longrightarrow> rows = map (authority_of eid) l"
proof (induction l arbitrary: rows)
  case Nil
  then show ?case by simp
next
  case (Cons a l)
  then show ?case
    by (auto simp: authority_of_def the_field_def split: sum.splits)
qed

lemma mkdir_keeps: "p \<noteq> [] \<Longrightarrow> f p = Some n \<Longrightarrow> mkdir f d p = Some n"
  by (auto simp: mkdir_def path_exists_def)

lemma mkdir_makes: "d \<noteq> [] \<Longrightarrow> path_exists (mkdir f d) d"
  by (auto simp: mkdir_def path_exists_def)

lemma fold_mkdir_keeps:
  "p \<noteq> [] \<Longrightarrow> f p = Some n \<Longrightarrow> fold (\<lambda>d g. mkdir g d) ds f p = Some n"
  by (induction ds arbitrary: f) (auto simp: mkdir_keeps)

lemma fold_mkdir_makes:
  "d \<in> set ds \<Longrightarrow> d \<noteq> [] \<Longrightarrow> path_exists (fold (\<lambda>d g. mkdir g d) ds f) d"
proof (induction ds arbitrary: f)
  case Nil
  then show ?case by simp
next
  case (Cons a ds)
  show ?case
  proof (cases "d \<in> set ds")
    case True
    with Cons show ?thesis by simp
  next
    case False
    with Cons.prems have a: "a = d" by simp
    from mkdir_makes [OF Cons.prems(2), of f] obtain n where "mkdir f d d = Some n"
      by (auto simp: path_exists_def)
    from fold_mkdir_keeps [of d "mkdir f d" n ds] this a Cons.prems(2)
    show ?thesis by (simp add: path_exists_def)
  qed
qed

lemma mkdir_recursive_keeps:
  "p \<noteq> [] \<Longrightarrow> f p = Some n \<Longrightarrow> mkdir_recursive f q p = Some n"
  unfolding mkdir_recursive_def by (rule fold_mkdir_keeps)

lemma mkdir_recursive_makes:
  "d \<in> set (dirs_above [] q @ [q]) \<Longrightarrow> d \<noteq> [] \<Longrightarrow> path_exists (mkdir_recursive f q) d"
  unfolding mkdir_recursive_def by (rule fold_mkdir_makes)

lemma dirs_above_mem:
  "seen @ a \<noteq> [] \<Longrightarrow> seen @ a \<in> set (dirs_above seen (a @ slash # b))"
proof (induction a arbitrary: seen)
  case Nil
  then show ?case by simp
next
  case (Cons c a)
  from Cons.IH [of "seen @ [c]"] show ?case by auto
qed

lemma mkdir_recursive_parent:
  assumes "a \<noteq> []"
  shows "path_exists (mkdir_recursive f (a @ slash # b)) a"
proof -
  from dirs_above_mem [of "[]" a b] assms have "a \<in> set (dirs_above [] (a @ slash # b))"
    by simp
  then have "a \<in> set (dirs_above [] (a @ slash # b) @ [a @ slash # b])" by simp
  from mkdir_recursive_makes [OF this assms] show ?thesis .
qed

lemma session_dir_eq:
  assumes "subscript session ''id'' = Inr sid" and "path_join ep sid = Inr sp"
  shows "session_dir ep session = sp" and "the_field session ''id'' = sid"
  using assms by (cases sid; simp add: session_dir_def the_field_def)+

lemma create_sessions_step:
  assumes "create_sessions eid ep (session # rest) i f = (r, f')"
    and "f' \<noteq> f"
  obtains sid sp where
    "subscript session ''id'' = Inr sid" "path_join ep sid = Inr sp"
  using assms by (auto split: sum.splits)

lemma create_sessions_success_step:
  assumes "create_sessions eid ep (session # rest) i f = (Inr rows, f')"
  obtains stub rows' where
    "subscript session ''stub'' = Inr (PStr stub)"
    "create_sessions eid ep rest (Suc i)
       (write_file (write_file (mkdir_recursive f (session_dir ep session)) (stub_path ep session) [])
          (stub_path ep session) stub) = (Inr rows', f')"
    "rows = session_of eid session i # rows'"
proof -
  from assms obtain sid where sid: "subscript session ''id'' = Inr sid"
    by (auto split: sum.splits)
  with assms obtain sp where sp: "path_join ep sid = Inr sp"
    by (auto split: sum.splits)
  note d = session_dir_eq [OF sid sp]
  from assms sid sp obtain stub where stub: "subscript session ''stub'' = Inr (PStr stub)"
    by (auto simp: Let_def split: sum.splits pyval.splits)
  from assms sid sp stub obtain rows' where
    "create_sessions eid ep rest (Suc i)
       (write_file (write_file (mkdir_recursive f sp) (os_path_join sp ''stub.xml'') [])
          (os_path_join sp ''stub.xml'') stub) = (Inr rows', f')"
    "rows = \<lparr>s_id = sid, s_election_id = eid, s_status = ''default'', s_public_key = [],
             s_question_number = i\<rparr> # rows'"
    by (auto simp: Let_def split: sum.splits prod.splits)
  with d stub that show thesis
    by (simp add: stub_path_def session_of_def)
qed

lemma create_sessions_rows:
  "create_sessions eid ep ss i f = (Inr rows, f')
   \<Longrightarrow> rows = map2 (session_of eid) ss [i..<i + length ss]"
proof (induction ss arbitrary: i f rows)
  case Nil
  then show ?case by simp
next
  case (Cons session rest)
  from Cons.prems obtain stub rows' where
    rest: "create_sessions eid ep rest (Suc i)
       (write_file (write_file (mkdir_recursive f (session_dir ep session)) (stub_path ep session) [])
          (stub_path ep session) stub) = (Inr rows', f')"
    and rows: "rows = session_of eid session i # rows'"
    by (rule create_sessions_success_step)
  have u: "[i..<i + length (session # rest)] = i # [Suc i..<Suc i + length rest]"
    by (simp del: upt_Suc add: upt_conv_Cons)
  from Cons.IH [OF rest] rows show ?case
    unfolding u by simp
qed

lemma write_file_keeps: "f p \<noteq> None \<Longrightarrow> write_file f q c p \<noteq> None"
  by (simp add: write_file_def)

lemma create_sessions_keeps:
  "create_sessions eid ep ss i f = (r, f') \<Longrightarrow> p \<noteq> [] \<Longrightarrow> f p \<noteq> None \<Longrightarrow> f' p \<noteq> None"
proof (induction ss arbitrary: i f r)
  case Nil
  then show ?case by simp
next
  case (Cons session rest)
  show ?case
  proof (cases "f' = f")
    case True
    with Cons.prems show ?thesis by simp
  next
    case False
    with Cons.prems(1) obtain sid sp where
      sid: "subscript session ''id'' = Inr sid" and sp: "path_join ep sid = Inr sp"
      by (rule create_sessions_step)
    let ?f1 = "mkdir_recursive f sp"
    let ?f2 = "write_file ?f1 (os_path_join sp ''stub.xml'') []"
    from Cons.prems(2,3) mkdir_recursive_keeps [of p f _ sp] have "?f1 p \<noteq> None" by auto
    then have f2: "?f2 p \<noteq> None" by (rule write_file_keeps)
    show ?thesis
    proof (cases "subscript session ''stub''")
      case (Inl e)
      with Cons.prems(1) sid sp have "f' = ?f2" by (simp add: Let_def)
      with f2 show ?thesis by simp
    next
      case (Inr v)
      show ?thesis
      proof (cases v)
        case (PStr stub)
        let ?f3 = "write_file ?f2 (os_path_join sp ''stub.xml'') stub"
        from f2 have f3: "?f3 p \<noteq> None" by (rule write_file_keeps)
        from Cons.prems(1) sid sp Inr PStr obtain r' where
          "create_sessions eid ep rest (Suc i) ?f3 = (r', f')"
          by (auto simp: Let_def split: sum.splits prod.splits)
        from Cons.IH [OF this Cons.prems(2) f3] show ?thesis .
      qed (use Cons.prems(1) sid sp Inr f2 in \<open>auto simp: Let_def\<close>)
    qed
  qed
qed

lemma os_path_join_nonempty_left: "a \<noteq> [] \<Longrightarrow> os_path_join a b \<noteq> []"
  by (auto simp: os_path_join_def)

lemma stub_path_nonempty: "stub_path ep session \<noteq> []"
  by (simp add: stub_path_def os_path_join_def)

lemma create_sessions_success_id:
  assumes "create_sessions eid ep (session # rest) i f = (Inr rows, f')"
  obtains sid where "subscript session ''id'' = Inr (PStr sid)"
    "session_dir ep session = os_path_join ep sid"
proof -
  from assms obtain v where v: "subscript session ''id'' = Inr v"
    by (auto split: sum.splits)
  with assms obtain sp where "path_join ep v = Inr sp"
    by (auto split: sum.splits)
  then obtain sid where "v = PStr sid" by (cases v) auto
  with v that show thesis by (simp add: session_dir_def)
qed

lemma create_sessions_keeps_file:
  "create_sessions eid ep ss i f = (Inr rows, f') \<Longrightarrow> p \<noteq> [] \<Longrightarrow> f p = Some (File c)
   \<Longrightarrow> (\<exists>c'. f' p = Some (File c')) \<and> (p \<notin> stub_path ep ` set ss \<longrightarrow> f' p = Some (File c))"
proof (induction ss arbitrary: i f rows c)
  case Nil
  then show ?case by simp
next
  case (Cons session rest)
  let ?sp = "stub_path ep session"
  let ?f1 = "mkdir_recursive f (session_dir ep session)"
  from Cons.prems(1) obtain stub rows' where
    rest: "create_sessions eid ep rest (Suc i) (write_file (write_file ?f1 ?sp []) ?sp stub)
             = (Inr rows', f')"
    by (rule create_sessions_success_step)
  let ?f3 = "write_file (write_file ?f1 ?sp []) ?sp stub"
  from Cons.prems(2,3) have f1: "?f1 p = Some (File c)" by (rule mkdir_recursive_keeps)
  show ?case
  proof (cases "p = ?sp")
    case True
    then have "?f3 p = Some (File stub)" by (simp add: write_file_def)
    from Cons.IH [OF rest Cons.prems(2) this] True show ?thesis by simp
  next
    case False
    with f1 have "?f3 p = Some (File c)" by (simp add: write_file_def)
    from Cons.IH [OF rest Cons.prems(2) this] False show ?thesis by simp
  qed
qed

lemma create_sessions_files:
  "create_sessions eid ep ss i f = (Inr rows, f') \<Longrightarrow> ep \<noteq> [] \<Longrightarrow> s \<in> set ss
   \<Longrightarrow> path_exists f' (session_dir ep s)
       \<and> (\<exists>c. f' (stub_path ep s) = Some (File c))
       \<and> (distinct (map (stub_path ep) ss) \<longrightarrow> f' (stub_path ep s) = Some (File (stub_text s)))"
proof (induction ss arbitrary: i f rows)
  case Nil
  then show ?case by simp
next
  case (Cons session rest)
  let ?dir = "session_dir ep session"
  let ?sp = "stub_path ep session"
  let ?f1 = "mkdir_recursive f ?dir"
  let ?f3 = "write_file (write_file ?f1 ?sp []) ?sp stub"
  from Cons.prems(1) obtain stub rows' where
    stub: "subscript session ''stub'' = Inr (PStr stub)"
    and rest: "create_sessions eid ep rest (Suc i) (write_file (write_file ?f1 ?sp []) ?sp stub)
             = (Inr rows', f')"
    by (rule create_sessions_success_step)
  from Cons.prems(1) obtain sid where "session_dir ep session = os_path_join ep sid"
    by (rule create_sessions_success_id)
  with Cons.prems(2) have dir: "?dir \<noteq> []" by (simp add: os_path_join_nonempty_left)
  show ?case
  proof (cases "s = session")
    case True
    from dir have "path_exists ?f1 ?dir" by (intro mkdir_recursive_makes) simp_all
    with dir have "write_file (write_file ?f1 ?sp []) ?sp stub ?dir \<noteq> None"
      by (simp add: path_exists_def write_file_def)
    from create_sessions_keeps [OF rest dir this] dir
    have exists: "path_exists f' ?dir" by (simp add: path_exists_def)
    have "write_file (write_file ?f1 ?sp []) ?sp stub ?sp = Some (File stub)"
      by (simp add: write_file_def)
    from create_sessions_keeps_file [OF rest stub_path_nonempty this]
    have isfile: "\<exists>c'. f' ?sp = Some (File c')"
      and content: "?sp \<notin> stub_path ep ` set rest \<longrightarrow> f' ?sp = Some (File stub)"
      by blast+
    from stub have "stub_text session = stub" by (simp add: stub_text_def)
    with exists isfile content True show ?thesis by auto
  next
    case False
    with Cons.prems(3) have "s \<in> set rest" by simp
    from Cons.IH [OF rest Cons.prems(2) this] show ?thesis by simp
  qed
qed

lemma ident_match_shape:
  assumes "ident_match s"
  shows "s \<noteq> []" and "hd s \<noteq> slash" and "last s \<noteq> slash"
proof -
  have no_slash: "\<not> ident_char slash" and nl: "newline \<noteq> slash"
    by (simp_all add: ident_char_def slash_def newline_def)
  let ?body = "if s \<noteq> [] \<and> last s = newline then butlast s else s"
  from assms have body: "?body \<noteq> []" "list_all ident_char ?body"
    by (simp_all add: ident_match_def Let_def)
  from body(1) show ne: "s \<noteq> []" by (auto split: if_splits)
  from body have "ident_char (hd ?body)" by (cases ?body) auto
  moreover from body(1) have "hd ?body = hd s"
    by (cases s) (auto split: if_splits)
  ultimately show "hd s \<noteq> slash" using no_slash by auto
  show "last s \<noteq> slash"
  proof (cases "last s = newline")
    case True
    with nl show ?thesis by simp
  next
    case False
    with body ne have "ident_char (last s)" by (simp add: list_all_iff)
    with no_slash show ?thesis by auto
  qed
qed

lemma os_path_join_ident:
  assumes "ident_match s"
  shows "os_path_join a s = (if a = [] \<or> last a = slash then a @ s else a @ slash # s)"
    and "last (os_path_join a s) \<noteq> slash" and "os_path_join a s \<noteq> []"
  using ident_match_shape [OF assms] by (auto simp: os_path_join_def)

lemma os_path_join_below:
  assumes "ident_match s" and "a \<noteq> []" and "last a \<noteq> slash"
  shows "os_path_join a s = a @ slash # s"
  using assms os_path_join_ident(1) [OF assms(1), of a] by simp

lemma add_tasks_state:
  "add_tasks cfg data el w1 = (r, w') \<Longrightarrow> fs w' = fs w1 \<and> db w' = db w1"
  by (auto simp: add_tasks_def split: if_splits sum.splits)

lemma generate_private_info_success:
  assumes "generate_private_info cfg t w = (Inr (), w')"
  obtains data eid ep election w1 where
    "input_data t = PDict data" "dict_item data ''election_id'' = Inr eid"
    "path_join (private_data_path cfg) eid = Inr ep"
    "private_info_checks cfg w data ep = Inr ()"
    "resolve_role cfg t data eid ep w = (Inr election, w1)"
    "add_tasks cfg data election w1 = (Inr (), w')"
  using assms unfolding generate_private_info_def
  by (auto split: pyval.splits sum.splits prod.splits)

lemma private_info_checks_success:
  assumes "private_info_checks cfg w data ep = Inr ()"
  obtains ss where
    "check_election_data cfg (db w) data False = Inr ()"
    "check_sessions data = Inr ()"
    "session_list data = Inr ss"
    "check_not_created (fs w) ep ss = Inr ()"
  using assms unfolding private_info_checks_def
  by (auto simp: andthen_Inr_iff split: sum.splits)

lemma create_local_data_success:
  assumes "create_local_data data eid ep w = (Inr el, w1)"
  obtains auths l ss where
    "\<not> path_exists (fs w) ep"
    "el = Some (election_of data)"
    "dict_item data ''authorities'' = Inr auths" "py_iter auths = Inr l"
    "session_list data = Inr ss"
    "create_sessions eid ep ss 0 (fs w)
       = (Inr (map2 (session_of eid) ss [0..<length ss]), fs w1)"
    "db w1 = \<lparr>elections = elections (db w) @ [election_of data],
              authorities = authorities (db w) @ map (authority_of eid) l,
              sessions = sessions (db w) @ map2 (session_of eid) ss [0..<length ss]\<rparr>"
proof -
  from assms have ne: "\<not> path_exists (fs w) ep"
    by (auto simp: create_local_data_def split: if_splits pyval.splits)
  with assms obtain election auths l auth_rows ss session_rows f where
    e: "new_election data = Inr election"
    and a: "dict_item data ''authorities'' = Inr auths" "py_iter auths = Inr l"
    and ar: "new_authorities eid l = Inr auth_rows"
    and s: "session_list data = Inr ss"
    and c: "create_sessions eid ep ss 0 (fs w) = (Inr session_rows, f)"
    and r: "el = Some election"
      "w1 = w\<lparr>fs := f,
             db := \<lparr>elections = elections (db w) @ [election],
                    authorities = authorities (db w) @ auth_rows,
                    sessions = sessions (db w) @ session_rows\<rparr>\<rparr>"
    unfolding create_local_data_def
    by (auto split: sum.splits prod.splits)
  from create_sessions_rows [OF c] have rows: "session_rows = map2 (session_of eid) ss [0..<length ss]"
    by simp
  from new_election_eq [OF e] new_authorities_eq [OF ar] rows c r a s ne that
  show thesis by simp
qed

section \<open>The CryptoEngine in phase 1\<close>

lemmas bootstrap_example_defs =
  validator_example_defs generate_private_info_def private_info_checks_def check_sessions_def
  check_local_authority_def session_list_def resolve_role_def create_local_data_def
  new_election_def add_tasks_def verificatum_task_def sample_task_def mkdir_recursive_def
  mkdir_def path_exists_def os_path_join_def slash_def write_file_def Let_def
  two_session_submission_def two_session_task_def bootstrapped_def approve_task_def
  str_date_def

lemmas phase1_example_defs =
  generate_private_info_verificatum_def local_descriptors_def sample_engine_def
  failing_engine_def second_fails_engine_def is_accepted_def engine_invoked_def check_call_def
  is_dir_def vmni_command_def read_file_def new_calls_def

lemma check_call_cases:
  assumes "check_call eng l cwd w = (r, w1)"
  shows "(\<not> is_dir (fs w) cwd \<and> r = Inl OSError \<and> w1 = w)
       \<or> (is_dir (fs w) cwd \<and> fs w1 = snd (eng l cwd (fs w))
          \<and> calls w1 = calls w @ [(l, cwd, fst (eng l cwd (fs w)))]
          \<and> parent_output w1 = parent_output w
          \<and> (r = Inr () \<longleftrightarrow> fst (eng l cwd (fs w)) = 0)
          \<and> (r = Inr () \<or> r = Inl CalledProcessError))"
  using assms by (auto simp: check_call_def Let_def split: prod.splits if_splits)

lemma check_call_success:
  assumes "check_call eng l cwd w = (Inr (), w1)"
  shows "is_dir (fs w) cwd" and "fs w1 = snd (eng l cwd (fs w))"
    and "calls w1 = calls w @ [(l, cwd, 0)]" and "parent_output w1 = parent_output w"
  using check_call_cases [OF assms] by auto

lemma descriptor_loop_parent_output:
  "parent_output (snd (descriptor_loop eng cfg a ep ss w)) = parent_output w"
proof (induction ss arbitrary: w)
  case Nil
  show ?case by simp
next
  case (Cons session rest)
  show ?case
    using Cons.IH check_call_cases [of eng]
    by (auto split: sum.splits pyval.splits prod.splits) (metis snd_conv)+
qed

lemma path_join_Inr: "path_join a v = Inr p \<Longrightarrow> \<exists>s. v = PStr s \<and> p = os_path_join a s"
  by (cases v) auto

lemma descriptor_loop_step:
  assumes "descriptor_loop eng cfg a ep (session # rest) w = (Inr ps, w')"
  obtains name w1 p ps' where
    "a = PStr name"
    "check_call eng (vmni_command cfg name) (session_dir ep session) w = (Inr (), w1)"
    "read_file (fs w1) (os_path_join (session_dir ep session) ''localProtInfo.xml'') = Inr p"
    "descriptor_loop eng cfg a ep rest w1 = (Inr ps', w')"
    "ps = p # ps'"
proof -
  from assms obtain sid where sid: "subscript session ''id'' = Inr sid"
    by (auto split: sum.splits)
  with assms obtain sp where sp: "path_join ep sid = Inr sp"
    by (auto split: sum.splits)
  from path_join_Inr [OF sp] obtain s where s: "sid = PStr s" "sp = os_path_join ep s" by blast
  with sid have dir: "session_dir ep session = sp" by (simp add: session_dir_def)
  from assms sid sp obtain name where name: "a = PStr name"
    by (cases a) auto
  from assms sid sp name obtain w1 where
    c: "check_call eng (vmni_command cfg name) sp w = (Inr (), w1)"
    by (auto split: sum.splits prod.splits)
  from assms sid sp name c obtain p where
    p: "read_file (fs w1) (os_path_join sp ''localProtInfo.xml'') = Inr p"
    by (auto split: sum.splits prod.splits)
  from assms sid sp name c p obtain ps' where
    "descriptor_loop eng cfg a ep rest w1 = (Inr ps', w')" "ps = p # ps'"
    by (auto split: sum.splits prod.splits)
  with name c p dir that show thesis by simp
qed

lemma descriptor_loop_success:
  assumes "descriptor_loop eng cfg a ep ss w = (Inr ps, w')"
    and "cmd = (case a of PStr name \<Rightarrow> vmni_command cfg name | _ \<Rightarrow> [])"
  shows "length ps = length ss
     \<and> map Inr ps = descriptors_read (eng cmd) (map (session_dir ep) ss) (fs w)
     \<and> calls w' = calls w @ map (\<lambda>s. (cmd, session_dir ep s, 0)) ss"
  using assms(1)
proof (induction ss arbitrary: w ps)
  case Nil
  then show ?case by (simp add: descriptors_read_def)
next
  case (Cons session rest)
  from Cons.prems obtain name w1 p ps' where
    name: "a = PStr name"
    and c: "check_call eng (vmni_command cfg name) (session_dir ep session) w = (Inr (), w1)"
    and p: "read_file (fs w1) (os_path_join (session_dir ep session) ''localProtInfo.xml'') = Inr p"
    and rest: "descriptor_loop eng cfg a ep rest w1 = (Inr ps', w')"
    and ps: "ps = p # ps'"
    by (rule descriptor_loop_step)
  from name assms(2) have cmd: "cmd = vmni_command cfg name" by simp
  from check_call_cases [OF c] cmd
  have w1: "fs w1 = snd (eng cmd (session_dir ep session) (fs w))"
    "calls w1 = calls w @ [(cmd, session_dir ep session, 0)]"
    by auto
  from Cons.IH [OF rest] w1 p ps show ?case
    by (simp add: descriptors_read_def)
qed

text \<open>The loop only ever appends to the log, and a nonzero exit status in
  what it appended means the loop has raised.\<close>

lemma descriptor_loop_exit_status:
  "\<exists>cs. calls (snd (descriptor_loop eng cfg a ep ss w)) = calls w @ cs
     \<and> ((\<exists>c \<in> set cs. snd (snd c) \<noteq> 0)
          \<longrightarrow> fst (descriptor_loop eng cfg a ep ss w) = Inl CalledProcessError)"
proof (induction ss arbitrary: w)
  case Nil
  then show ?case by simp
next
  case (Cons session rest)
  let ?r = "descriptor_loop eng cfg a ep (session # rest) w"
  show ?case
  proof (cases "snd ?r = w")
    case True
    then show ?thesis by simp
  next
    case False
    then obtain sid sp name where
      sid: "subscript session ''id'' = Inr sid" and sp: "path_join ep sid = Inr sp"
      and a: "a = PStr name"
      by (auto split: sum.splits pyval.splits)
    obtain r1 w1 where c: "check_call eng (vmni_command cfg name) sp w = (r1, w1)"
      by (cases "check_call eng (vmni_command cfg name) sp w")
    have ran: "is_dir (fs w) sp"
    proof (rule ccontr)
      assume "\<not> is_dir (fs w) sp"
      with check_call_cases [OF c] have "r1 = Inl OSError" "w1 = w" by auto
      with sid sp a c have "?r = (Inl OSError, w)" by simp
      with False show False by simp
    qed
    with check_call_cases [OF c]
    have cc: "calls w1 = calls w @ [(vmni_command cfg name, sp, fst (eng (vmni_command cfg name) sp (fs w)))]"
      "r1 = Inr () \<longleftrightarrow> fst (eng (vmni_command cfg name) sp (fs w)) = 0"
      "r1 = Inr () \<or> r1 = Inl CalledProcessError"
      by auto
    show ?thesis
    proof (cases "r1 = Inr ()")
      case False
      with cc have r1: "r1 = Inl CalledProcessError" by blast
      with sid sp a c have "?r = (Inl CalledProcessError, w1)" by simp
      with cc show ?thesis by simp
    next
      case True
      with cc have zero: "fst (eng (vmni_command cfg name) sp (fs w)) = 0" by blast
      show ?thesis
      proof (cases "read_file (fs w1) (os_path_join sp ''localProtInfo.xml'')")
        case (Inl e)
        with sid sp a c True have "?r = (Inl e, w1)" by simp
        with cc zero show ?thesis by simp
      next
        case (Inr p)
        from Cons.IH [of w1] obtain cs where
          cs: "calls (snd (descriptor_loop eng cfg a ep rest w1)) = calls w1 @ cs"
          and st: "(\<exists>c \<in> set cs. snd (snd c) \<noteq> 0)
                    \<longrightarrow> fst (descriptor_loop eng cfg a ep rest w1) = Inl CalledProcessError"
          by blast
        from sid sp a c True Inr
        have "snd ?r = snd (descriptor_loop eng cfg a ep rest w1)"
          and "fst (descriptor_loop eng cfg a ep rest w1) = Inl CalledProcessError
                 \<Longrightarrow> fst ?r = Inl CalledProcessError"
          by (auto split: sum.splits prod.splits)
        with cs st cc zero show ?thesis by auto
      qed
    qed
  qed
qed



lemma local_descriptors_success:
  assumes "local_descriptors eng cfg t w = (Inr (), w')"
    and "subscript (parent_input_data t) ''election_id'' = Inr (PStr eid)"
    and "subscript (parent_input_data t) ''sessions'' = Inr (PList ss)"
  obtains a ps w1 where
    "descriptor_loop eng cfg a (os_path_join (private_data_path cfg) eid) ss w = (Inr ps, w1)"
    "w' = w1\<lparr>parent_output := Some (PList (map PStr ps))\<rparr>"
  using assms unfolding local_descriptors_def
  by (auto split: sum.splits prod.splits)

lemma new_calls_same [simp]: "new_calls w w = []"
  by (simp add: new_calls_def)

lemma new_calls_parent_output [simp]: "new_calls w (w1\<lparr>parent_output := v\<rparr>) = new_calls w w1"
  by (simp add: new_calls_def)

lemma descriptor_loop_keeps_parent_output:
  "descriptor_loop eng cfg a ep ss w = (r, w1) \<Longrightarrow> parent_output w1 = parent_output w"
  using descriptor_loop_parent_output [of eng cfg a ep ss w] by simp

lemma new_calls_own_output [simp]: "new_calls w (w1\<lparr>own_output := v\<rparr>) = new_calls w w1"
  by (simp add: new_calls_def)

lemma descriptor_loop_nonzero_exit:
  assumes "descriptor_loop eng cfg a ep ss w = (r, w1)"
    and "(l, cwd, rc) \<in> set (new_calls w w1)" and "rc \<noteq> 0"
  shows "r = Inl CalledProcessError"
proof -
  from descriptor_loop_exit_status [of eng cfg a ep ss w] assms(1) obtain cs where
    cs: "calls w1 = calls w @ cs"
    and st: "(\<exists>c \<in> set cs. snd (snd c) \<noteq> 0) \<longrightarrow> r = Inl CalledProcessError"
    by auto
  from cs assms(2) have "(l, cwd, rc) \<in> set cs" by (simp add: new_calls_def)
  with assms(3) have "\<exists>c \<in> set cs. snd (snd c) \<noteq> 0" by force
  with st show ?thesis by blast
qed

lemma local_descriptors_failure:
  assumes "fst (local_descriptors eng cfg t w) \<noteq> Inr ()"
  shows "parent_output (snd (local_descriptors eng cfg t w)) = parent_output w"
  using assms unfolding local_descriptors_def
  by (auto split: sum.splits prod.splits dest: descriptor_loop_keeps_parent_output)

lemma local_descriptors_exit_status:
  assumes "\<exists>c \<in> set (new_calls w (snd (local_descriptors eng cfg t w))). snd (snd c) \<noteq> 0"
  shows "fst (local_descriptors eng cfg t w) = Inl CalledProcessError"
  using assms unfolding local_descriptors_def
  by (auto split: sum.splits prod.splits dest: descriptor_loop_nonzero_exit)


section \<open>The approval gate of phase 1\<close>


text \<open>The state a performer is in after the bootstrap of the two-session
  election.\<close>

lemma bootstrap_succeeds:
  "fst (generate_private_info sample_config (two_session_task PNone) empty_world) = Inr ()"
  by (simp add: bootstrap_example_defs)

lemma bootstrapped_eq:
  "bootstrapped sample_config =
     empty_world
       \<lparr>fs := [''priv'' \<mapsto> Dir, ''priv/E1'' \<mapsto> Dir, ''priv/E1/S1'' \<mapsto> Dir,
               ''priv/E1/S1/stub.xml'' \<mapsto> File ''<stub1/>'', ''priv/E1/S2'' \<mapsto> Dir,
               ''priv/E1/S2/stub.xml'' \<mapsto> File ''<stub2/>''],
        db := \<lparr>elections = [election_of two_session_submission],
                authorities =
                  [authority_of (PStr ''E1'')
                     (PDict [(''name'', PStr ''auth1''), (''orchestra_url'', PStr ''https://auth1''),
                             (''ssl_cert'', PStr ''CERT1'')]),
                   authority_of (PStr ''E1'')
                     (PDict [(''name'', PStr ''auth2''), (''orchestra_url'', PStr ''https://auth2''),
                             (''ssl_cert'', PStr ''CERT2'')])],
                sessions =
                  [session_of (PStr ''E1'')
                     (PDict [(''id'', PStr ''S1''), (''stub'', PStr ''<stub1/>'')]) 0,
                   session_of (PStr ''E1'')
                     (PDict [(''id'', PStr ''S2''), (''stub'', PStr ''<stub2/>'')]) 1]\<rparr>,
        subtasks := [verificatum_task sample_config]\<rparr>"
  by (simp add: bootstrap_example_defs election_of_def authority_of_def session_of_def
      the_field_def)


lemma two_session_input:
  "subscript (parent_input_data (two_session_task d)) ''election_id'' = Inr (PStr ''E1'')"
  "subscript (parent_input_data (two_session_task d)) ''sessions''
     = Inr (PList [PDict [(''id'', PStr ''S1''), (''stub'', PStr ''<stub1/>'')],
                   PDict [(''id'', PStr ''S2''), (''stub'', PStr ''<stub2/>'')]])"
  "subscript (parent_input_data (two_session_task d)) ''authorities''
     = Inr (PList [PDict [(''name'', PStr ''auth1''), (''orchestra_url'', PStr ''https://auth1''),
                          (''ssl_cert'', PStr ''CERT1'')],
                   PDict [(''name'', PStr ''auth2''), (''orchestra_url'', PStr ''https://auth2''),
                          (''ssl_cert'', PStr ''CERT2'')]])"
  "prev_output_data (two_session_task d) = d"
  by (simp_all add: two_session_task_def two_session_submission_def sample_submission_def
      sample_authorities_def dict_item_def)


section \<open>Phase 1 reports one descriptor per session\<close>

text \<open>
  Claim C6. When \<^verbatim>\<open>generate_private_info_verificatum\<close> succeeds on an
  election with the session list \<open>ss\<close>, the output of the parent task is
  one list of descriptors, as long as \<open>ss\<close>; the CryptoEngine has been run
  exactly once per session, in the order of \<open>ss\<close>, each time in that
  session's directory and with exit status 0; and the i-th descriptor is what
  was read from \<^verbatim>\<open>localProtInfo.xml\<close> in the i-th session's directory right
  after the run for that session. When the step fails, the output of the parent
  task is what it was, so no sequence is reported; and a run of the CryptoEngine
  that ends with a nonzero exit status for any session makes the step fail.
\<close>

theorem phase1_reports_descriptors:
  "(generate_private_info_verificatum eng cfg t w = (Inr (), w')
      \<and> subscript (parent_input_data t) ''election_id'' = Inr (PStr eid)
      \<and> subscript (parent_input_data t) ''sessions'' = Inr (PList ss)
      \<and> dirs = map (session_dir (os_path_join (private_data_path cfg) eid)) ss
    \<longrightarrow> (\<exists>protinfos cmd.
           parent_output w' = Some (PList (map PStr protinfos))
           \<and> length protinfos = length ss
           \<and> map Inr protinfos = descriptors_read (eng cmd) dirs (fs w)
           \<and> new_calls w w' = map (\<lambda>dir. (cmd, dir, 0)) dirs))
   \<and> (fst (generate_private_info_verificatum eng cfg t w) \<noteq> Inr () \<longrightarrow>
        parent_output (snd (generate_private_info_verificatum eng cfg t w)) = parent_output w)
   \<and> ((\<exists>c \<in> set (new_calls w (snd (generate_private_info_verificatum eng cfg t w))).
          snd (snd c) \<noteq> 0) \<longrightarrow>
        fst (generate_private_info_verificatum eng cfg t w) = Inl CalledProcessError)"
proof (intro conjI impI)
  assume h: "generate_private_info_verificatum eng cfg t w = (Inr (), w')
      \<and> subscript (parent_input_data t) ''election_id'' = Inr (PStr eid)
      \<and> subscript (parent_input_data t) ''sessions'' = Inr (PList ss)
      \<and> dirs = map (session_dir (os_path_join (private_data_path cfg) eid)) ss"
  then have "local_descriptors eng cfg t w = (Inr (), w')"
    by (auto simp: generate_private_info_verificatum_def split: if_splits)
  with h obtain a ps w1 where
    loop: "descriptor_loop eng cfg a (os_path_join (private_data_path cfg) eid) ss w = (Inr ps, w1)"
    and w': "w' = w1\<lparr>parent_output := Some (PList (map PStr ps))\<rparr>"
    by (auto elim: local_descriptors_success)
  define cmd where "cmd = (case a of PStr name \<Rightarrow> vmni_command cfg name | _ \<Rightarrow> [])"
  from descriptor_loop_success [OF loop cmd_def] h w'
  have "parent_output w' = Some (PList (map PStr ps))
           \<and> length ps = length ss
           \<and> map Inr ps = descriptors_read (eng cmd) dirs (fs w)
           \<and> new_calls w w' = map (\<lambda>dir. (cmd, dir, 0)) dirs"
    by (simp add: new_calls_def comp_def)
  then show "\<exists>protinfos cmd.
           parent_output w' = Some (PList (map PStr protinfos))
           \<and> length protinfos = length ss
           \<and> map Inr protinfos = descriptors_read (eng cmd) dirs (fs w)
           \<and> new_calls w w' = map (\<lambda>dir. (cmd, dir, 0)) dirs"
    by blast
next
  assume "fst (generate_private_info_verificatum eng cfg t w) \<noteq> Inr ()"
  then show "parent_output (snd (generate_private_info_verificatum eng cfg t w)) = parent_output w"
    using local_descriptors_failure [of eng cfg t w]
    by (auto simp: generate_private_info_verificatum_def split: if_splits)
next
  assume "\<exists>c \<in> set (new_calls w (snd (generate_private_info_verificatum eng cfg t w))).
          snd (snd c) \<noteq> 0"
  then show "fst (generate_private_info_verificatum eng cfg t w) = Inl CalledProcessError"
    using local_descriptors_exit_status [of w eng cfg t]
    by (auto simp: generate_private_info_verificatum_def split: if_splits)
qed


theorem phase1_reports_descriptors_witness:
  "generate_private_info sample_config (two_session_task PNone) empty_world
     = (Inr (), bootstrapped sample_config)
   \<and> fst (generate_private_info_verificatum sample_engine sample_config (two_session_task PNone)
          (bootstrapped sample_config)) = Inr ()
   \<and> parent_output (snd (generate_private_info_verificatum sample_engine sample_config
          (two_session_task PNone) (bootstrapped sample_config)))
       = Some (PList [PStr ''protinfo priv/E1/S1'', PStr ''protinfo priv/E1/S2''])
   \<and> (\<exists>protinfos cmd.
         parent_output (snd (generate_private_info_verificatum sample_engine sample_config
            (two_session_task PNone) (bootstrapped sample_config)))
           = Some (PList (map PStr protinfos))
         \<and> length protinfos = 2
         \<and> map Inr protinfos
             = descriptors_read (sample_engine cmd) [''priv/E1/S1'', ''priv/E1/S2'']
                 (fs (bootstrapped sample_config))
         \<and> new_calls (bootstrapped sample_config)
              (snd (generate_private_info_verificatum sample_engine sample_config
                 (two_session_task PNone) (bootstrapped sample_config)))
             = [(cmd, ''priv/E1/S1'', 0), (cmd, ''priv/E1/S2'', 0)])
   \<and> new_calls (bootstrapped sample_config)
        (snd (generate_private_info_verificatum second_fails_engine sample_config
           (two_session_task PNone) (bootstrapped sample_config)))
       = [(vmni_command sample_config ''auth1'', ''priv/E1/S1'', 0),
          (vmni_command sample_config ''auth1'', ''priv/E1/S2'', 1)]
   \<and> fst (generate_private_info_verificatum second_fails_engine sample_config
          (two_session_task PNone) (bootstrapped sample_config)) = Inl CalledProcessError
   \<and> parent_output (snd (generate_private_info_verificatum second_fails_engine sample_config
          (two_session_task PNone) (bootstrapped sample_config))) = None"
proof -
  let ?t = "two_session_task PNone"
  let ?w = "bootstrapped sample_config"
  let ?s1 = "PDict [(''id'', PStr ''S1''), (''stub'', PStr ''<stub1/>'')]"
  let ?s2 = "PDict [(''id'', PStr ''S2''), (''stub'', PStr ''<stub2/>'')]"
  let ?good = "generate_private_info_verificatum sample_engine sample_config ?t ?w"
  let ?bad = "generate_private_info_verificatum second_fails_engine sample_config ?t ?w"
  have boot: "generate_private_info sample_config ?t empty_world = (Inr (), ?w)"
    using bootstrap_succeeds by (simp add: bootstrapped_def prod_eq_iff)
  have good: "fst ?good = Inr ()"
    "parent_output (snd ?good)
       = Some (PList [PStr ''protinfo priv/E1/S1'', PStr ''protinfo priv/E1/S2''])"
    unfolding bootstrapped_eq
    by (simp_all add: phase1_example_defs two_session_task_def
        two_session_submission_def sample_submission_def sample_authorities_def
        sample_config_def empty_world_def dict_item_def os_path_join_def slash_def
        write_file_def Let_def)
  then have run: "?good = (Inr (), snd ?good)"
    by (simp add: prod_eq_iff)
  have dirs: "[''priv/E1/S1'', ''priv/E1/S2'']
       = map (session_dir (os_path_join (private_data_path sample_config) ''E1'')) [?s1, ?s2]"
    by (simp add: sample_config_def dict_item_def session_dir_def os_path_join_def slash_def)
  from phase1_reports_descriptors
         [where eng = sample_engine and cfg = sample_config and t = ?t and w = ?w
            and w' = "snd ?good" and eid = "''E1''" and ss = "[?s1, ?s2]"
            and dirs = "[''priv/E1/S1'', ''priv/E1/S2'']"]
    run two_session_input(1,2) [of PNone] dirs
  have "\<exists>protinfos cmd.
         parent_output (snd ?good) = Some (PList (map PStr protinfos))
         \<and> length protinfos = length [?s1, ?s2]
         \<and> map Inr protinfos
             = descriptors_read (sample_engine cmd) [''priv/E1/S1'', ''priv/E1/S2''] (fs ?w)
         \<and> new_calls ?w (snd ?good)
             = map (\<lambda>dir. (cmd, dir, 0)) [''priv/E1/S1'', ''priv/E1/S2'']"
    by blast
  then have reported: "\<exists>protinfos cmd.
         parent_output (snd ?good) = Some (PList (map PStr protinfos))
         \<and> length protinfos = 2
         \<and> map Inr protinfos
             = descriptors_read (sample_engine cmd) [''priv/E1/S1'', ''priv/E1/S2''] (fs ?w)
         \<and> new_calls ?w (snd ?good) = [(cmd, ''priv/E1/S1'', 0), (cmd, ''priv/E1/S2'', 0)]"
    by (simp add: numeral_2_eq_2)
  have log: "new_calls ?w (snd ?bad)
       = [(vmni_command sample_config ''auth1'', ''priv/E1/S1'', 0),
          (vmni_command sample_config ''auth1'', ''priv/E1/S2'', 1)]"
    unfolding bootstrapped_eq
    by (simp add: phase1_example_defs two_session_task_def
        two_session_submission_def sample_submission_def sample_authorities_def
        sample_config_def empty_world_def dict_item_def os_path_join_def slash_def
        write_file_def Let_def)
  then have "\<exists>c \<in> set (new_calls ?w (snd ?bad)). snd (snd c) \<noteq> 0"
    by simp
  with phase1_reports_descriptors [of second_fails_engine sample_config ?t ?w]
  have bad: "fst ?bad = Inl CalledProcessError"
    "parent_output (snd ?bad) = parent_output ?w"
    by auto
  have "parent_output ?w = None"
    by (simp add: bootstrapped_eq empty_world_def)
  with boot good reported log bad show ?thesis by simp
qed

section \<open>Roles, created rows and repeated bootstraps\<close>

lemma check_session_entries_valid:
  "check_session_entries ss = Inr () \<Longrightarrow> s \<in> set ss
   \<Longrightarrow> \<exists>d sid stub. s = PDict d \<and> map_of d ''id'' = Some (PStr sid) \<and> ident_match sid
         \<and> map_of d ''stub'' = Some (PStr stub)"
proof (induction ss)
  case Nil
  then show ?case by simp
next
  case (Cons session rest)
  from Cons.prems(1) obtain d where d: "session = PDict d"
    by (cases session) auto
  from Cons.prems(1) d have has: "dict_has d ''id''" "dict_has d ''stub''"
    "isinstance (dict_get d ''stub'') Basestring"
    by (auto split: if_splits)
  with Cons.prems(1) d have m: "re_match_ident (dict_get d ''id'') = Inr True"
    and rest: "check_session_entries rest = Inr ()"
    by (auto split: if_splits sum.splits)
  from m obtain sid where sid: "dict_get d ''id'' = PStr sid" "ident_match sid"
    by (cases "dict_get d ''id''") auto
  from has(3) obtain stub where stub: "dict_get d ''stub'' = PStr stub"
    by (cases "dict_get d ''stub''") auto
  from has(1,2) sid(1) stub have "map_of d ''id'' = Some (PStr sid)"
    "map_of d ''stub'' = Some (PStr stub)"
    by (auto simp: dict_has_def dict_get_def)
  with d sid(2) Cons.IH [OF rest] Cons.prems(2) show ?case by auto
qed

lemma check_sessions_valid:
  assumes "check_sessions data = Inr ()"
  obtains ss where "map_of data ''sessions'' = Some (PList ss)" "ss \<noteq> []"
    "check_session_entries ss = Inr ()" "session_list data = Inr ss"
proof -
  from assms obtain ss where ss: "dict_get data ''sessions'' = PList ss" "ss \<noteq> []"
    "check_session_entries ss = Inr ()"
    unfolding check_sessions_def by (auto split: pyval.splits if_splits)
  from ss(1) have "map_of data ''sessions'' = Some (PList ss)"
    by (auto simp: dict_get_def split: option.splits)
  with ss that show thesis by (simp add: session_list_def dict_item_def)
qed

lemma validated_election_id:
  assumes "check_election_data cfg d data False = Inr ()"
  obtains eid where "map_of data ''election_id'' = Some (PStr eid)" "ident_match eid"
proof -
  from assms have "election_id_ok data"
    by (simp add: check_election_data_Inr_iff validation_rules_def)
  with that show thesis
    by (auto simp: election_id_ok_def split: option.splits pyval.splits)
qed

lemma validated_dates:
  assumes "check_election_data cfg d data ce = Inr ()"
  shows "date_or_null (dict_get data ''voting_start_date'')"
    and "date_or_null (dict_get data ''voting_end_date'')"
proof -
  from assms have "date_ok data ''voting_start_date''" "date_ok data ''voting_end_date''"
    by (simp_all add: check_election_data_Inr_iff validation_rules_def)
  then show "date_or_null (dict_get data ''voting_start_date'')"
    and "date_or_null (dict_get data ''voting_end_date'')"
    by (auto simp: date_ok_def date_or_null_def dict_get_def split: option.splits)
qed

lemma validated_authorities:
  assumes "check_election_data cfg d data ce = Inr ()"
  obtains l where "map_of data ''authorities'' = Some (PList l)"
proof -
  from assms have "fields_ok (requirements ce) data"
    by (simp add: check_election_data_Inr_iff validation_rules_def)
  from fields_ok_base(2) [OF this] that show thesis
    by (auto simp: has_field_ListT)
qed

lemma validated_session_paths:
  assumes "check_session_entries ss = Inr ()" and "s \<in> set ss"
    and "ep \<noteq> []" and "last ep \<noteq> slash"
  obtains sid where "the_field s ''id'' = PStr sid" "ident_match sid"
    "session_dir ep s = ep @ slash # sid"
    "stub_path ep s = ep @ slash # sid @ slash # ''stub.xml''"
proof -
  from check_session_entries_valid [OF assms(1,2)] obtain d sid stub where
    s: "s = PDict d" "map_of d ''id'' = Some (PStr sid)" "ident_match sid"
    by blast
  from s have id: "the_field s ''id'' = PStr sid" and dir0: "session_dir ep s = os_path_join ep sid"
    by (simp_all add: the_field_def session_dir_def dict_item_def)
  from os_path_join_below [OF s(3) assms(3,4)] dir0
  have dir: "session_dir ep s = ep @ slash # sid" by simp
  from ident_match_shape [OF s(3)] have "last (ep @ slash # sid) \<noteq> slash" by simp
  with dir have "stub_path ep s = ep @ slash # sid @ slash # ''stub.xml''"
    by (simp add: stub_path_def os_path_join_def slash_def)
  with id s(3) dir that show thesis by blast
qed

lemma distinct_map_transfer:
  assumes "distinct (map f xs)"
    and "\<forall>x \<in> set xs. \<forall>y \<in> set xs. g x = g y \<longrightarrow> f x = f y"
  shows "distinct (map g xs)"
proof -
  from assms(1) have d: "distinct xs" and i: "inj_on f (set xs)"
    by (simp_all add: distinct_map)
  have "inj_on g (set xs)"
  proof (rule inj_onI)
    fix x y
    assume x: "x \<in> set xs" and y: "y \<in> set xs" and "g x = g y"
    with assms(2) have "f x = f y" by blast
    from inj_onD [OF i this x y] show "x = y" .
  qed
  with d show ?thesis by (simp add: distinct_map)
qed

lemma validated_stub_paths_distinct:
  assumes "check_session_entries ss = Inr ()" and "ep \<noteq> []" and "last ep \<noteq> slash"
    and "distinct (map (\<lambda>s. the_field s ''id'') ss)"
  shows "distinct (map (stub_path ep) ss)"
proof (rule distinct_map_transfer [OF assms(4)], intro ballI impI)
  fix x y
  assume x: "x \<in> set ss" and y: "y \<in> set ss" and eq: "stub_path ep x = stub_path ep y"
  from validated_session_paths [OF assms(1) x assms(2,3)] obtain sx where
    sx: "the_field x ''id'' = PStr sx" "stub_path ep x = ep @ slash # sx @ slash # ''stub.xml''"
    by blast
  from validated_session_paths [OF assms(1) y assms(2,3)] obtain sy where
    sy: "the_field y ''id'' = PStr sy" "stub_path ep y = ep @ slash # sy @ slash # ''stub.xml''"
    by blast
  from eq sx(2) sy(2) have "sx @ slash # ''stub.xml'' = sy @ slash # ''stub.xml''" by simp
  then have "sx = sy" by (simp add: append_eq_append_conv)
  with sx(1) sy(1) show "the_field x ''id'' = the_field y ''id''" by simp
qed

lemma performer_success:
  assumes "generate_private_info cfg t w = (Inr (), w')"
    and "certs_differ cfg (sender_ssl_cert t) (ssl_cert_string cfg)"
  obtains data eid l ss where
    "input_data t = PDict data" "map_of data ''election_id'' = Some (PStr eid)" "ident_match eid"
    "map_of data ''authorities'' = Some (PList l)"
    "map_of data ''sessions'' = Some (PList ss)" "ss \<noteq> []"
    "check_session_entries ss = Inr ()"
    "check_election_data cfg (db w) data False = Inr ()"
    "\<not> path_exists (fs w) (os_path_join (private_data_path cfg) eid)"
    "create_sessions (PStr eid) (os_path_join (private_data_path cfg) eid) ss 0 (fs w)
       = (Inr (map2 (session_of (PStr eid)) ss [0..<length ss]), fs w')"
    "db w' = \<lparr>elections = elections (db w) @ [election_of data],
              authorities = authorities (db w) @ map (authority_of (PStr eid)) l,
              sessions = sessions (db w) @ map2 (session_of (PStr eid)) ss [0..<length ss]\<rparr>"
proof -
  from assms(1) obtain data eid0 ep election w1 where
    data: "input_data t = PDict data" and eid0: "dict_item data ''election_id'' = Inr eid0"
    and ep: "path_join (private_data_path cfg) eid0 = Inr ep"
    and checks: "private_info_checks cfg w data ep = Inr ()"
    and role: "resolve_role cfg t data eid0 ep w = (Inr election, w1)"
    and tasks: "add_tasks cfg data election w1 = (Inr (), w')"
    by (rule generate_private_info_success)
  from checks obtain ss0 where
    valid: "check_election_data cfg (db w) data False = Inr ()"
    and sess: "check_sessions data = Inr ()"
    by (rule private_info_checks_success)
  from valid obtain eid where eid: "map_of data ''election_id'' = Some (PStr eid)" "ident_match eid"
    by (rule validated_election_id)
  from valid obtain l where l: "map_of data ''authorities'' = Some (PList l)"
    by (rule validated_authorities)
  from sess obtain ss where ss: "map_of data ''sessions'' = Some (PList ss)" "ss \<noteq> []"
    "check_session_entries ss = Inr ()" "session_list data = Inr ss"
    by (rule check_sessions_valid)
  from eid(1) eid0 have e0: "eid0 = PStr eid" by (simp add: dict_item_def)
  with ep have epv: "ep = os_path_join (private_data_path cfg) eid" by simp
  from role assms(2) have "create_local_data data eid0 ep w = (Inr election, w1)"
    by (simp add: resolve_role_def)
  then obtain auths l' ss' where
    ne: "\<not> path_exists (fs w) ep"
    and a: "dict_item data ''authorities'' = Inr auths" "py_iter auths = Inr l'"
    and s': "session_list data = Inr ss'"
    and c: "create_sessions eid0 ep ss' 0 (fs w)
              = (Inr (map2 (session_of eid0) ss' [0..<length ss']), fs w1)"
    and d: "db w1 = \<lparr>elections = elections (db w) @ [election_of data],
              authorities = authorities (db w) @ map (authority_of eid0) l',
              sessions = sessions (db w) @ map2 (session_of eid0) ss' [0..<length ss']\<rparr>"
    by (rule create_local_data_success)
  from a l have "l' = l" by (auto simp: dict_item_def)
  moreover from s' ss(4) have "ss' = ss" by simp
  moreover note add_tasks_state [OF tasks]
  ultimately show thesis
    using that [OF data eid l ss(1,2,3) valid] ne c d e0 epv by simp
qed

lemma director_state:
  assumes "\<not> certs_differ cfg (sender_ssl_cert t) (ssl_cert_string cfg)"
  shows "db (snd (generate_private_info cfg t w)) = db w"
    and "fs (snd (generate_private_info cfg t w)) = fs w"
proof -
  have "db (snd (generate_private_info cfg t w)) = db w
        \<and> fs (snd (generate_private_info cfg t w)) = fs w"
  proof (cases "snd (generate_private_info cfg t w) = w")
    case True
    then show ?thesis by simp
  next
    case False
    then obtain data election where
      "generate_private_info cfg t w = add_tasks cfg data election w"
      using assms unfolding generate_private_info_def resolve_role_def
      by (auto split: pyval.splits sum.splits)
    with add_tasks_state [of cfg data election w] show ?thesis
      by (cases "add_tasks cfg data election w") auto
  qed
  then show "db (snd (generate_private_info cfg t w)) = db w"
    and "fs (snd (generate_private_info cfg t w)) = fs w"
    by simp_all
qed

lemma check_election_data_store_free:
  "check_election_data cfg d data False = check_election_data cfg d' data False"
  by (simp add: check_election_data_def check_not_in_store_def split: sum.splits)

lemma performer_election_dir:
  assumes "generate_private_info cfg t w = (Inr (), w1)"
    and "certs_differ cfg (sender_ssl_cert t) (ssl_cert_string cfg)"
    and "input_data t = PDict data" and "map_of data ''election_id'' = Some (PStr eid)"
  shows "path_exists (fs w1) (os_path_join (private_data_path cfg) eid)"
proof -
  let ?ep = "os_path_join (private_data_path cfg) eid"
  from assms(1,2) obtain data0 eid0 l ss where
    p: "input_data t = PDict data0" "map_of data0 ''election_id'' = Some (PStr eid0)"
      "ident_match eid0" "ss \<noteq> []" "check_session_entries ss = Inr ()"
    and c0: "create_sessions (PStr eid0) (os_path_join (private_data_path cfg) eid0) ss 0 (fs w)
       = (Inr (map2 (session_of (PStr eid0)) ss [0..<length ss]), fs w1)"
    by (rule performer_success)
  from p assms(3,4) have same: "eid0 = eid" by simp
  from os_path_join_ident(2,3) [OF p(3), of "private_data_path cfg"] same
  have ep: "?ep \<noteq> []" "last ?ep \<noteq> slash" by simp_all
  from p(4) obtain session rest where ss: "ss = session # rest" by (cases ss) auto
  from c0 have "create_sessions (PStr eid) ?ep (session # rest) 0 (fs w)
       = (Inr (map2 (session_of (PStr eid)) (session # rest) [0..<length (session # rest)]), fs w1)"
    by (simp only: same ss)
  then obtain stub rows' where
    rest: "create_sessions (PStr eid) ?ep rest (Suc 0)
       (write_file (write_file (mkdir_recursive (fs w) (session_dir ?ep session))
            (stub_path ?ep session) []) (stub_path ?ep session) stub) = (Inr rows', fs w1)"
    by (rule create_sessions_success_step)
  from p(5) ss have "session \<in> set ss" by simp
  from validated_session_paths [OF p(5) this ep] obtain sid where
    "session_dir ?ep session = ?ep @ slash # sid" by blast
  with mkdir_recursive_parent [OF ep(1), of "fs w" sid]
  have "mkdir_recursive (fs w) (session_dir ?ep session) ?ep \<noteq> None"
    by (simp add: path_exists_def)
  then have "write_file (write_file (mkdir_recursive (fs w) (session_dir ?ep session))
            (stub_path ?ep session) []) (stub_path ?ep session) stub ?ep \<noteq> None"
    by (intro write_file_keeps)
  from create_sessions_keeps [OF rest ep(1) this] ep(1) show ?thesis
    by (simp add: path_exists_def)
qed

text \<open>The query of the director's branch returns the first row with the
  identifier, and a second run of the checks differs from the first only in
  the guard on the local descriptors.\<close>

lemma find_filter: "find P xs = (case filter P xs of [] \<Rightarrow> None | x # _ \<Rightarrow> Some x)"
  by (induction xs) simp_all

lemma fetch_election_find:
  "fetch_election d election_id = find (\<lambda>e. e_id e = election_id) (elections d)"
  by (simp add: fetch_election_def find_filter)

lemma approve_task_success:
  assumes "approve_task cfg data election = Inr a"
  obtains el fields start_date end_date where
    "election = Some el" "a = ExternalTask ''approve_election'' fields"
    "map_of fields ''title'' = Some (e_title el)"
    "map_of fields ''description'' = Some (e_description el)"
    "str_date cfg (e_voting_start_date el) = Inr start_date"
    "map_of fields ''start_date'' = Some (PStr start_date)"
    "str_date cfg (e_voting_end_date el) = Inr end_date"
    "map_of fields ''end_date'' = Some (PStr end_date)"
  using assms unfolding approve_task_def
  by (auto split: sum.splits option.splits pyval.splits)

lemma first_created_Cons:
  "first_created f ep (s # rest)
     = (if path_exists f (os_path_join (session_dir ep s) ''localProtInfo.xml'')
        then Some (id_text s) else first_created f ep rest)"
  by (simp add: first_created_def)

lemma check_not_created_reason:
  "check_not_created f ep ss = Inr ()
   \<Longrightarrow> check_not_created f2 ep ss
       = (case first_created f2 ep ss of
            None \<Rightarrow> Inr ()
          | Some sid \<Rightarrow> Inl (TaskError (''session_id '' @ sid @ '' already created'')))"
proof (induction ss)
  case Nil
  then show ?case by (simp add: first_created_def)
next
  case (Cons session rest)
  from Cons.prems obtain v where v: "subscript session ''id'' = Inr v"
    by (auto split: sum.splits)
  with Cons.prems obtain sp where sp: "path_join ep v = Inr sp"
    by (auto split: sum.splits)
  from path_join_Inr [OF sp] obtain sid where sid: "v = PStr sid" "sp = os_path_join ep sid"
    by blast
  from Cons.prems v sp sid have rest: "check_not_created f ep rest = Inr ()"
    by (auto split: if_splits)
  from v sid have dir: "session_dir ep session = sp" "id_text session = sid"
    by (simp_all add: session_dir_def id_text_def)
  show ?case
  proof (cases "path_exists f2 (os_path_join sp ''localProtInfo.xml'')")
    case True
    with v sp sid dir show ?thesis by (simp add: first_created_Cons)
  next
    case False
    with v sp dir Cons.IH [OF rest] show ?thesis by (simp add: first_created_Cons)
  qed
qed

lemma private_info_checks_reason:
  assumes "private_info_checks cfg w data ep = Inr ()"
    and "map_of data ''sessions'' = Some (PList ss)"
  shows "private_info_checks cfg w2 data ep
       = (case first_created (fs w2) ep ss of
            None \<Rightarrow> Inr ()
          | Some sid \<Rightarrow> Inl (TaskError (''session_id '' @ sid @ '' already created'')))"
proof -
  from assms(1) obtain ss0 where
    a: "check_election_data cfg (db w) data False = Inr ()"
    and b: "check_sessions data = Inr ()"
    and c: "check_local_authority cfg data = Inr ()"
    and s: "session_list data = Inr ss0"
    and n: "check_not_created (fs w) ep ss0 = Inr ()"
    unfolding private_info_checks_def
    by (auto simp: andthen_Inr_iff split: sum.splits)
  from assms(2) s have same: "ss0 = ss"
    by (simp add: session_list_def dict_item_def)
  from a have a2: "check_election_data cfg (db w2) data False = Inr ()"
    by (simp add: check_election_data_store_free [of cfg "db w2" data "db w"])
  from a2 b c s have "private_info_checks cfg w2 data ep = check_not_created (fs w2) ep ss0"
    by (simp add: private_info_checks_def andthen_def)
  with check_not_created_reason [OF n, of "fs w2"] same show ?thesis by simp
qed

lemma described_files:
  "fs (snd (generate_private_info_verificatum sample_engine sample_config (two_session_task PNone)
         (bootstrapped sample_config)))
     = [''priv'' \<mapsto> Dir, ''priv/E1'' \<mapsto> Dir, ''priv/E1/S1'' \<mapsto> Dir,
        ''priv/E1/S1/stub.xml'' \<mapsto> File ''<stub1/>'', ''priv/E1/S2'' \<mapsto> Dir,
        ''priv/E1/S2/stub.xml'' \<mapsto> File ''<stub2/>'',
        ''priv/E1/S1/localProtInfo.xml'' \<mapsto> File ''protinfo priv/E1/S1'',
        ''priv/E1/S2/localProtInfo.xml'' \<mapsto> File ''protinfo priv/E1/S2'']"
  unfolding bootstrapped_eq
  by (simp add: phase1_example_defs two_session_task_def
      two_session_submission_def sample_submission_def sample_authorities_def
      sample_config_def empty_world_def dict_item_def os_path_join_def slash_def
      write_file_def Let_def)

text \<open>
  Claim C5. The role is decided by \<^verbatim>\<open>certs_differ\<close> on the sender's and the
  local certificate alone. Where they differ and \<^verbatim>\<open>generate_private_info\<close>
  succeeds, the Store has gained exactly the row of the election, one row per
  authority entry in list order, and one row per session in list order, with the
  status \<^verbatim>\<open>default\<close> and the position in the list as
  \<^verbatim>\<open>question_number\<close>; every session's private directory exists and holds
  a stub file, which has the session's stub as its content when the session
  identifiers are pairwise different. Where the certificates do not differ, the
  election is the first row of the Store with the identifier of the message,
  and neither the Store nor the file system is changed, whatever the outcome;
  when the call succeeds with auto-accept off, that row is in the Store and the
  approval request added to the subtasks carries the title, the description and
  the two dates of that row, not those of the message.
\<close>

theorem role_resolution:
  "(generate_private_info cfg t w = (Inr (), w')
      \<and> certs_differ cfg (sender_ssl_cert t) (ssl_cert_string cfg)
      \<and> input_data t = PDict data \<and> map_of data ''election_id'' = Some (PStr eid)
      \<and> map_of data ''authorities'' = Some (PList l) \<and> map_of data ''sessions'' = Some (PList ss)
      \<and> ep = os_path_join (private_data_path cfg) eid
    \<longrightarrow> elections (db w') = elections (db w) @ [election_of data]
        \<and> authorities (db w') = authorities (db w) @ map (authority_of (PStr eid)) l
        \<and> sessions (db w') = sessions (db w) @ map2 (session_of (PStr eid)) ss [0..<length ss]
        \<and> (\<forall>s \<in> set ss. path_exists (fs w') (session_dir ep s)
                        \<and> (\<exists>c. fs w' (stub_path ep s) = Some (File c)))
        \<and> (distinct (map (\<lambda>s. the_field s ''id'') ss) \<longrightarrow>
             (\<forall>s \<in> set ss. fs w' (stub_path ep s) = Some (File (stub_text s)))))
   \<and> (\<not> certs_differ cfg (sender_ssl_cert t) (ssl_cert_string cfg) \<longrightarrow>
        resolve_role cfg t data' eid' ep' w
          = (Inr (find (\<lambda>e. e_id e = eid') (elections (db w))), w)
        \<and> db (snd (generate_private_info cfg t w)) = db w
        \<and> fs (snd (generate_private_info cfg t w)) = fs w
        \<and> (generate_private_info cfg t w = (Inr (), w') \<and> \<not> autoaccept_requests cfg
             \<and> input_data t = PDict data \<and> map_of data ''election_id'' = Some (PStr eid)
           \<longrightarrow> (\<exists>el fields start_date end_date.
                  find (\<lambda>e. e_id e = PStr eid) (elections (db w)) = Some el
                  \<and> subtasks w'
                      = subtasks w @ [ExternalTask ''approve_election'' fields, verificatum_task cfg]
                  \<and> map_of fields ''title'' = Some (e_title el)
                  \<and> map_of fields ''description'' = Some (e_description el)
                  \<and> str_date cfg (e_voting_start_date el) = Inr start_date
                  \<and> map_of fields ''start_date'' = Some (PStr start_date)
                  \<and> str_date cfg (e_voting_end_date el) = Inr end_date
                  \<and> map_of fields ''end_date'' = Some (PStr end_date))))"
proof (intro conjI impI)
  assume h: "generate_private_info cfg t w = (Inr (), w')
      \<and> certs_differ cfg (sender_ssl_cert t) (ssl_cert_string cfg)
      \<and> input_data t = PDict data \<and> map_of data ''election_id'' = Some (PStr eid)
      \<and> map_of data ''authorities'' = Some (PList l) \<and> map_of data ''sessions'' = Some (PList ss)
      \<and> ep = os_path_join (private_data_path cfg) eid"
  then have first: "generate_private_info cfg t w = (Inr (), w')"
    and perf: "certs_differ cfg (sender_ssl_cert t) (ssl_cert_string cfg)"
    by simp_all
  from first perf obtain data0 eid0 l0 ss0 where
    p: "input_data t = PDict data0" "map_of data0 ''election_id'' = Some (PStr eid0)"
      "ident_match eid0" "map_of data0 ''authorities'' = Some (PList l0)"
      "map_of data0 ''sessions'' = Some (PList ss0)"
      "check_session_entries ss0 = Inr ()"
    and c0: "create_sessions (PStr eid0) (os_path_join (private_data_path cfg) eid0) ss0 0 (fs w)
       = (Inr (map2 (session_of (PStr eid0)) ss0 [0..<length ss0]), fs w')"
    and d0: "db w' = \<lparr>elections = elections (db w) @ [election_of data0],
              authorities = authorities (db w) @ map (authority_of (PStr eid0)) l0,
              sessions = sessions (db w) @ map2 (session_of (PStr eid0)) ss0 [0..<length ss0]\<rparr>"
    by (rule performer_success)
  from h p have same: "data0 = data" "eid0 = eid" "l0 = l" "ss0 = ss"
    by auto
  from os_path_join_ident(2,3) [OF p(3), of "private_data_path cfg"] h same
  have ep: "ep \<noteq> []" "last ep \<noteq> slash" by simp_all
  from h same c0 have c: "create_sessions (PStr eid) ep ss 0 (fs w)
       = (Inr (map2 (session_of (PStr eid)) ss [0..<length ss]), fs w')"
    by simp
  from d0 same show "elections (db w') = elections (db w) @ [election_of data]"
    and "authorities (db w') = authorities (db w) @ map (authority_of (PStr eid)) l"
    and "sessions (db w') = sessions (db w) @ map2 (session_of (PStr eid)) ss [0..<length ss]"
    by simp_all
  show "\<forall>s \<in> set ss. path_exists (fs w') (session_dir ep s)
                        \<and> (\<exists>c. fs w' (stub_path ep s) = Some (File c))"
    using create_sessions_files [OF c ep(1)] by blast
  show "\<forall>s \<in> set ss. fs w' (stub_path ep s) = Some (File (stub_text s))"
    if "distinct (map (\<lambda>s. the_field s ''id'') ss)"
  proof -
    from p(6) same have "check_session_entries ss = Inr ()" by simp
    from validated_stub_paths_distinct [OF this ep that]
    have "distinct (map (stub_path ep) ss)" .
    with create_sessions_files [OF c ep(1)] show ?thesis by blast
  qed
next
  assume "\<not> certs_differ cfg (sender_ssl_cert t) (ssl_cert_string cfg)"
  then show "resolve_role cfg t data' eid' ep' w
          = (Inr (find (\<lambda>e. e_id e = eid') (elections (db w))), w)"
    by (simp add: resolve_role_def fetch_election_find)
next
  assume "\<not> certs_differ cfg (sender_ssl_cert t) (ssl_cert_string cfg)"
  then show "db (snd (generate_private_info cfg t w)) = db w" by (rule director_state)
next
  assume "\<not> certs_differ cfg (sender_ssl_cert t) (ssl_cert_string cfg)"
  then show "fs (snd (generate_private_info cfg t w)) = fs w" by (rule director_state)
next
  assume dir: "\<not> certs_differ cfg (sender_ssl_cert t) (ssl_cert_string cfg)"
    and h: "generate_private_info cfg t w = (Inr (), w') \<and> \<not> autoaccept_requests cfg
             \<and> input_data t = PDict data \<and> map_of data ''election_id'' = Some (PStr eid)"
  then have run: "generate_private_info cfg t w = (Inr (), w')"
    and off: "\<not> autoaccept_requests cfg" by simp_all
  from run obtain data0 eid0 ep0 election w1 where
    g: "input_data t = PDict data0" "dict_item data0 ''election_id'' = Inr eid0"
      "resolve_role cfg t data0 eid0 ep0 w = (Inr election, w1)"
      "add_tasks cfg data0 election w1 = (Inr (), w')"
    by (rule generate_private_info_success)
  from g(1,2) h have same: "data0 = data" "eid0 = PStr eid"
    by (auto simp: dict_item_def)
  from g(3) dir same have fetched: "election = find (\<lambda>e. e_id e = PStr eid) (elections (db w))"
    and w1: "w1 = w"
    by (auto simp: resolve_role_def fetch_election_find)
  from g(4) off obtain a where
    a: "approve_task cfg data0 election = Inr a"
    and w': "w' = w1\<lparr>subtasks := subtasks w1 @ [a, verificatum_task cfg]\<rparr>"
    by (auto simp: add_tasks_def split: sum.splits)
  from a obtain el fields start_date end_date where
    el: "election = Some el" "a = ExternalTask ''approve_election'' fields"
    and shown: "map_of fields ''title'' = Some (e_title el)"
      "map_of fields ''description'' = Some (e_description el)"
      "str_date cfg (e_voting_start_date el) = Inr start_date"
      "map_of fields ''start_date'' = Some (PStr start_date)"
      "str_date cfg (e_voting_end_date el) = Inr end_date"
      "map_of fields ''end_date'' = Some (PStr end_date)"
    by (rule approve_task_success)
  from fetched el(1) have found: "find (\<lambda>e. e_id e = PStr eid) (elections (db w)) = Some el"
    by simp
  from w1 w' el(2) have tasks: "subtasks w'
      = subtasks w @ [ExternalTask ''approve_election'' fields, verificatum_task cfg]"
    by simp
  from found tasks shown show "\<exists>el fields start_date end_date.
                  find (\<lambda>e. e_id e = PStr eid) (elections (db w)) = Some el
                  \<and> subtasks w'
                      = subtasks w @ [ExternalTask ''approve_election'' fields, verificatum_task cfg]
                  \<and> map_of fields ''title'' = Some (e_title el)
                  \<and> map_of fields ''description'' = Some (e_description el)
                  \<and> str_date cfg (e_voting_start_date el) = Inr start_date
                  \<and> map_of fields ''start_date'' = Some (PStr start_date)
                  \<and> str_date cfg (e_voting_end_date el) = Inr end_date
                  \<and> map_of fields ''end_date'' = Some (PStr end_date)"
    by blast
qed

theorem role_resolution_witness:
  "fst (generate_private_info sample_config (sample_task ''CERT2'' PNone PNone) empty_world) = Inr ()
   \<and> certs_differ sample_config (sender_ssl_cert (sample_task ''CERT2'' PNone PNone))
        (ssl_cert_string sample_config)
   \<and> elections (db (snd (generate_private_info sample_config (sample_task ''CERT2'' PNone PNone)
          empty_world)))
       = elections (db empty_world) @ [election_of (sample_submission PNone PNone)]
   \<and> sessions (db (snd (generate_private_info sample_config (sample_task ''CERT2'' PNone PNone)
          empty_world)))
       = sessions (db empty_world)
         @ [session_of (PStr ''E1'') (PDict [(''id'', PStr ''S1''), (''stub'', PStr ''<stub/>'')]) 0]
   \<and> fs (snd (generate_private_info sample_config (sample_task ''CERT2'' PNone PNone) empty_world))
        (stub_path ''priv/E1'' (PDict [(''id'', PStr ''S1''), (''stub'', PStr ''<stub/>'')]))
       = Some (File ''<stub/>'')
   \<and> \<not> certs_differ (sample_config\<lparr>autoaccept_requests := False\<rparr>)
          (sender_ssl_cert (sample_task ''CERT1'' PNone PNone))
          (ssl_cert_string (sample_config\<lparr>autoaccept_requests := False\<rparr>))
   \<and> fst (generate_private_info (sample_config\<lparr>autoaccept_requests := False\<rparr>)
          (sample_task ''CERT1'' PNone PNone) director_world) = Inr ()
   \<and> resolve_role (sample_config\<lparr>autoaccept_requests := False\<rparr>)
        (sample_task ''CERT1'' PNone PNone) (sample_submission PNone PNone) (PStr ''E1'')
        ''priv/E1'' director_world
       = (Inr (Some stored_election), director_world)
   \<and> db (snd (generate_private_info (sample_config\<lparr>autoaccept_requests := False\<rparr>)
          (sample_task ''CERT1'' PNone PNone) director_world)) = db director_world
   \<and> fs (snd (generate_private_info (sample_config\<lparr>autoaccept_requests := False\<rparr>)
          (sample_task ''CERT1'' PNone PNone) director_world)) = fs director_world
   \<and> (\<exists>fields.
         subtasks (snd (generate_private_info (sample_config\<lparr>autoaccept_requests := False\<rparr>)
            (sample_task ''CERT1'' PNone PNone) director_world))
           = subtasks director_world
             @ [ExternalTask ''approve_election'' fields,
                verificatum_task (sample_config\<lparr>autoaccept_requests := False\<rparr>)]
         \<and> map_of fields ''title'' = Some (PStr ''stored title'')
         \<and> map_of fields ''description'' = Some (PStr ''d''))"
proof -
  let ?t = "sample_task ''CERT2'' PNone PNone"
  let ?t1 = "sample_task ''CERT1'' PNone PNone"
  let ?off = "sample_config\<lparr>autoaccept_requests := False\<rparr>"
  let ?data = "sample_submission PNone PNone"
  let ?session = "PDict [(''id'', PStr ''S1''), (''stub'', PStr ''<stub/>'')]"
  let ?after = "snd (generate_private_info sample_config ?t empty_world)"
  let ?directed = "snd (generate_private_info ?off ?t1 director_world)"
  have ok: "fst (generate_private_info sample_config ?t empty_world) = Inr ()"
    by (simp add: bootstrap_example_defs)
  then have first: "generate_private_info sample_config ?t empty_world = (Inr (), ?after)"
    by (simp add: prod_eq_iff)
  have perf: "certs_differ sample_config (sender_ssl_cert ?t) (ssl_cert_string sample_config)"
    and dir: "\<not> certs_differ ?off (sender_ssl_cert ?t1) (ssl_cert_string ?off)"
    by (simp_all add: sample_config_def sample_task_def)
  have input: "input_data ?t = PDict ?data"
    "map_of ?data ''election_id'' = Some (PStr ''E1'')"
    "map_of ?data ''authorities''
       = Some (PList [PDict [(''name'', PStr ''auth1''), (''orchestra_url'', PStr ''https://auth1''),
                             (''ssl_cert'', PStr ''CERT1'')],
                      PDict [(''name'', PStr ''auth2''), (''orchestra_url'', PStr ''https://auth2''),
                             (''ssl_cert'', PStr ''CERT2'')]])"
    "map_of ?data ''sessions'' = Some (PList [?session])"
    "''priv/E1'' = os_path_join (private_data_path sample_config) ''E1''"
    by (simp_all add: sample_task_def sample_submission_def sample_authorities_def
        sample_config_def os_path_join_def slash_def)
  have ids: "distinct (map (\<lambda>s. the_field s ''id'') [?session])"
    and stub: "stub_text ?session = ''<stub/>''"
    by (simp_all add: stub_text_def dict_item_def)
  from role_resolution
         [where cfg = sample_config and t = ?t and w = empty_world and w' = ?after
            and data = ?data and eid = "''E1''" and ss = "[?session]" and ep = "''priv/E1''"]
    first perf input ids stub
  have created: "elections (db ?after) = elections (db empty_world) @ [election_of ?data]"
    "sessions (db ?after)
       = sessions (db empty_world) @ [session_of (PStr ''E1'') ?session 0]"
    "fs ?after (stub_path ''priv/E1'' ?session) = Some (File ''<stub/>'')"
    by simp_all
  have ok1: "fst (generate_private_info ?off ?t1 director_world) = Inr ()"
    by (simp add: bootstrap_example_defs director_world_def stored_election_def election_of_def
        fetch_election_def)
  then have run: "generate_private_info ?off ?t1 director_world = (Inr (), ?directed)"
    by (simp add: prod_eq_iff)
  have off: "\<not> autoaccept_requests ?off" by simp
  have input1: "input_data ?t1 = PDict ?data"
    by (simp add: sample_task_def)
  have stored: "find (\<lambda>e. e_id e = PStr ''E1'') (elections (db director_world))
       = Some stored_election"
    "e_title stored_election = PStr ''stored title''"
    "e_description stored_election = PStr ''d''"
    by (simp_all add: director_world_def empty_world_def stored_election_def election_of_def
        sample_submission_def dict_get_def)
  note director = role_resolution
         [where cfg = ?off and t = ?t1 and w = director_world and w' = ?directed
            and data = ?data and eid = "''E1''" and data' = ?data and eid' = "PStr ''E1''"
            and ep' = "''priv/E1''"]
  from director dir stored(1)
  have fetched: "resolve_role ?off ?t1 ?data (PStr ''E1'') ''priv/E1'' director_world
       = (Inr (Some stored_election), director_world)"
    and same: "db ?directed = db director_world" "fs ?directed = fs director_world"
    by simp_all
  from director dir run off input1 input(2)
  have "\<exists>el fields start_date end_date.
          find (\<lambda>e. e_id e = PStr ''E1'') (elections (db director_world)) = Some el
          \<and> subtasks ?directed
              = subtasks director_world
                @ [ExternalTask ''approve_election'' fields, verificatum_task ?off]
          \<and> map_of fields ''title'' = Some (e_title el)
          \<and> map_of fields ''description'' = Some (e_description el)
          \<and> str_date ?off (e_voting_start_date el) = Inr start_date
          \<and> map_of fields ''start_date'' = Some (PStr start_date)
          \<and> str_date ?off (e_voting_end_date el) = Inr end_date
          \<and> map_of fields ''end_date'' = Some (PStr end_date)"
    by blast
  with stored have approval: "\<exists>fields.
         subtasks ?directed
           = subtasks director_world
             @ [ExternalTask ''approve_election'' fields, verificatum_task ?off]
         \<and> map_of fields ''title'' = Some (PStr ''stored title'')
         \<and> map_of fields ''description'' = Some (PStr ''d'')"
    by auto
  from ok perf created dir ok1 fetched same approval show ?thesis by blast
qed

text \<open>
  Claim C9, as the source has it. A successful \<^verbatim>\<open>generate_private_info\<close>
  leaves the elections of the Store as they were or adds one election, whose
  \<^verbatim>\<open>voting_start_date\<close> and \<^verbatim>\<open>voting_end_date\<close> are each
  \<^verbatim>\<open>None\<close> or a \<^verbatim>\<open>datetime\<close>. The two dates are not compared.
\<close>

theorem created_election_dates:
  "generate_private_info cfg t w = (Inr (), w') \<longrightarrow>
     elections (db w') = elections (db w)
     \<or> (\<exists>e. elections (db w') = elections (db w) @ [e]
            \<and> date_or_null (e_voting_start_date e) \<and> date_or_null (e_voting_end_date e))"
proof
  assume first: "generate_private_info cfg t w = (Inr (), w')"
  show "elections (db w') = elections (db w)
     \<or> (\<exists>e. elections (db w') = elections (db w) @ [e]
            \<and> date_or_null (e_voting_start_date e) \<and> date_or_null (e_voting_end_date e))"
  proof (cases "certs_differ cfg (sender_ssl_cert t) (ssl_cert_string cfg)")
    case False
    from director_state(1) [OF False, of w] first show ?thesis by simp
  next
    case True
    from first True obtain data eid l ss where
      valid: "check_election_data cfg (db w) data False = Inr ()"
      and d: "db w' = \<lparr>elections = elections (db w) @ [election_of data],
              authorities = authorities (db w) @ map (authority_of (PStr eid)) l,
              sessions = sessions (db w) @ map2 (session_of (PStr eid)) ss [0..<length ss]\<rparr>"
      by (rule performer_success)
    from validated_dates [OF valid]
    have "date_or_null (e_voting_start_date (election_of data))"
      "date_or_null (e_voting_end_date (election_of data))"
      by (simp_all add: election_of_def)
    with d show ?thesis by simp
  qed
qed

theorem created_election_dates_witness:
  "fst (generate_private_info sample_config (sample_task ''CERT2'' (PDate 1) (PDate 2)) empty_world)
     = Inr ()
   \<and> (elections (db (snd (generate_private_info sample_config
          (sample_task ''CERT2'' (PDate 1) (PDate 2)) empty_world))) = elections (db empty_world)
      \<or> (\<exists>e. elections (db (snd (generate_private_info sample_config
                  (sample_task ''CERT2'' (PDate 1) (PDate 2)) empty_world)))
                = elections (db empty_world) @ [e]
              \<and> date_or_null (e_voting_start_date e) \<and> date_or_null (e_voting_end_date e)))"
proof -
  let ?t = "sample_task ''CERT2'' (PDate 1) (PDate 2)"
  let ?after = "snd (generate_private_info sample_config ?t empty_world)"
  have ok: "fst (generate_private_info sample_config ?t empty_world) = Inr ()"
    by (simp add: bootstrap_example_defs)
  then have "generate_private_info sample_config ?t empty_world = (Inr (), ?after)"
    by (simp add: prod_eq_iff)
  with created_election_dates [of sample_config ?t empty_world ?after] ok
  show ?thesis by blast
qed

text \<open>The invariant of the claim fails: a submission whose voting window
  starts after it ends passes the validator and its election row is created.\<close>

theorem voting_window_counterexample:
  "fst (generate_private_info sample_config (sample_task ''CERT2'' (PDate 2) (PDate 1)) empty_world)
     = Inr ()
   \<and> elections (db (snd (generate_private_info sample_config
          (sample_task ''CERT2'' (PDate 2) (PDate 1)) empty_world)))
       = [election_of (sample_submission (PDate 2) (PDate 1))]
   \<and> e_voting_start_date (election_of (sample_submission (PDate 2) (PDate 1))) = PDate 2
   \<and> e_voting_end_date (election_of (sample_submission (PDate 2) (PDate 1))) = PDate 1
   \<and> \<not> window_ordered (election_of (sample_submission (PDate 2) (PDate 1)))"
proof -
  have "fst (generate_private_info sample_config (sample_task ''CERT2'' (PDate 2) (PDate 1))
               empty_world) = Inr ()"
    by (simp add: bootstrap_example_defs)
  moreover
  have "elections (db (snd (generate_private_info sample_config
          (sample_task ''CERT2'' (PDate 2) (PDate 1)) empty_world)))
       = [election_of (sample_submission (PDate 2) (PDate 1))]"
    by (simp add: bootstrap_example_defs election_of_def)
  moreover
  have "e_voting_start_date (election_of (sample_submission (PDate 2) (PDate 1))) = PDate 2"
    "e_voting_end_date (election_of (sample_submission (PDate 2) (PDate 1))) = PDate 1"
    "\<not> window_ordered (election_of (sample_submission (PDate 2) (PDate 1)))"
    by (simp_all add: window_ordered_def election_of_def sample_submission_def dict_get_def)
  ultimately show ?thesis by blast
qed

text \<open>
  Claim C2, as the source has it. After a successful bootstrap on the performer's
  side, a second \<^verbatim>\<open>generate_private_info\<close> for the same task, in the state
  the first one left or in any later state \<open>w2\<close> in which every path of
  that state still exists, fails with a task error and leaves the state
  \<open>w2\<close> exactly as it is: no row, directory or file comes from it. The
  reason is "session_id ... already created", with the identifier of the first
  session in list order whose local descriptor \<^verbatim>\<open>localProtInfo.xml\<close> is
  there, and "Already existing election id ..." when no session has one.
\<close>

theorem second_bootstrap_fails:
  assumes "generate_private_info cfg t w = (Inr (), w1)"
    and "certs_differ cfg (sender_ssl_cert t) (ssl_cert_string cfg)"
    and "input_data t = PDict data" and "map_of data ''election_id'' = Some (PStr eid)"
    and "map_of data ''sessions'' = Some (PList ss)"
    and "\<forall>p. path_exists (fs w1) p \<longrightarrow> path_exists (fs w2) p"
  shows "generate_private_info cfg t w2
           = (Inl (TaskError
                (case first_created (fs w2) (os_path_join (private_data_path cfg) eid) ss of
                   Some sid \<Rightarrow> ''session_id '' @ sid @ '' already created''
                 | None \<Rightarrow> ''Already existing election id '' @ eid)), w2)"
proof -
  let ?ep = "os_path_join (private_data_path cfg) eid"
  from performer_election_dir [OF assms(1-4)] assms(6)
  have dir: "path_exists (fs w2) ?ep" by blast
  from assms(1) obtain data0 eid0 ep where
    d0: "input_data t = PDict data0" "dict_item data0 ''election_id'' = Inr eid0"
      "path_join (private_data_path cfg) eid0 = Inr ep"
    and checks0: "private_info_checks cfg w data0 ep = Inr ()"
    by (rule generate_private_info_success)
  from d0 assms(3,4) have same: "data0 = data" "eid0 = PStr eid" "ep = ?ep"
    by (auto simp: dict_item_def)
  with checks0 have checks: "private_info_checks cfg w data ?ep = Inr ()" by simp
  have item: "dict_item data ''election_id'' = Inr (PStr eid)"
    using assms(4) by (simp add: dict_item_def)
  note again = private_info_checks_reason [OF checks assms(5), of w2]
  show ?thesis
  proof (cases "first_created (fs w2) ?ep ss")
    case None
    with again have ok: "private_info_checks cfg w2 data ?ep = Inr ()" by simp
    from dir have "create_local_data data (PStr eid) ?ep w2
                     = (Inl (TaskError (''Already existing election id '' @ eid)), w2)"
      by (simp add: create_local_data_def)
    with ok assms(2,3) item None show ?thesis
      by (simp add: generate_private_info_def resolve_role_def)
  next
    case (Some sid)
    with again have "private_info_checks cfg w2 data ?ep
                  = Inl (TaskError (''session_id '' @ sid @ '' already created''))"
      by simp
    with assms(3) item Some show ?thesis
      by (simp add: generate_private_info_def)
  qed
qed

theorem second_bootstrap_fails_witness:
  "generate_private_info sample_config (two_session_task PNone) empty_world
     = (Inr (), bootstrapped sample_config)
   \<and> certs_differ sample_config (sender_ssl_cert (two_session_task PNone))
        (ssl_cert_string sample_config)
   \<and> first_created (fs (bootstrapped sample_config)) ''priv/E1''
        [PDict [(''id'', PStr ''S1''), (''stub'', PStr ''<stub1/>'')],
         PDict [(''id'', PStr ''S2''), (''stub'', PStr ''<stub2/>'')]] = None
   \<and> generate_private_info sample_config (two_session_task PNone) (bootstrapped sample_config)
       = (Inl (TaskError ''Already existing election id E1''), bootstrapped sample_config)
   \<and> first_created
        (fs (snd (generate_private_info_verificatum sample_engine sample_config
                    (two_session_task PNone) (bootstrapped sample_config))))
        ''priv/E1''
        [PDict [(''id'', PStr ''S1''), (''stub'', PStr ''<stub1/>'')],
         PDict [(''id'', PStr ''S2''), (''stub'', PStr ''<stub2/>'')]] = Some ''S1''
   \<and> generate_private_info sample_config (two_session_task PNone)
        (snd (generate_private_info_verificatum sample_engine sample_config
                (two_session_task PNone) (bootstrapped sample_config)))
       = (Inl (TaskError ''session_id S1 already created''),
          snd (generate_private_info_verificatum sample_engine sample_config
                 (two_session_task PNone) (bootstrapped sample_config)))"
proof -
  let ?t = "two_session_task PNone"
  let ?w1 = "bootstrapped sample_config"
  let ?w2 = "snd (generate_private_info_verificatum sample_engine sample_config ?t ?w1)"
  let ?s1 = "PDict [(''id'', PStr ''S1''), (''stub'', PStr ''<stub1/>'')]"
  let ?s2 = "PDict [(''id'', PStr ''S2''), (''stub'', PStr ''<stub2/>'')]"
  have first: "generate_private_info sample_config ?t empty_world = (Inr (), ?w1)"
    using bootstrap_succeeds by (simp add: bootstrapped_def prod_eq_iff)
  have perf: "certs_differ sample_config (sender_ssl_cert ?t) (ssl_cert_string sample_config)"
    by (simp add: sample_config_def two_session_task_def)
  have input: "input_data ?t = PDict two_session_submission"
    "map_of two_session_submission ''election_id'' = Some (PStr ''E1'')"
    "map_of two_session_submission ''sessions'' = Some (PList [?s1, ?s2])"
    by (simp_all add: two_session_task_def two_session_submission_def sample_submission_def)
  have ep: "os_path_join (private_data_path sample_config) ''E1'' = ''priv/E1''"
    by (simp add: sample_config_def os_path_join_def slash_def)
  have same: "\<forall>p. path_exists (fs ?w1) p \<longrightarrow> path_exists (fs ?w1) p"
    by simp
  have later: "\<forall>p. path_exists (fs ?w1) p \<longrightarrow> path_exists (fs ?w2) p"
    unfolding described_files unfolding bootstrapped_eq
    by (simp add: path_exists_def empty_world_def)
  have none: "first_created (fs ?w1) ''priv/E1'' [?s1, ?s2] = None"
    unfolding bootstrapped_eq
    by (simp add: first_created_def session_dir_def dict_item_def path_exists_def
        os_path_join_def slash_def empty_world_def)
  have some: "first_created (fs ?w2) ''priv/E1'' [?s1, ?s2] = Some ''S1''"
    unfolding described_files
    by (simp add: first_created_def session_dir_def id_text_def dict_item_def path_exists_def
        os_path_join_def slash_def)
  from second_bootstrap_fails [OF first perf input same] ep none
  have again: "generate_private_info sample_config ?t ?w1
       = (Inl (TaskError ''Already existing election id E1''), ?w1)"
    by simp
  from second_bootstrap_fails [OF first perf input later] ep some
  have described: "generate_private_info sample_config ?t ?w2
       = (Inl (TaskError ''session_id S1 already created''), ?w2)"
    by simp
  from first perf none again some described show ?thesis by blast
qed

text \<open>The reason of the claim is not the one the second call gives: right
  after a first bootstrap no local descriptor exists yet, and the second call
  fails on the election's directory.\<close>

theorem second_bootstrap_counterexample:
  "fst (generate_private_info sample_config (sample_task ''CERT2'' PNone PNone) empty_world) = Inr ()
   \<and> fst (generate_private_info sample_config (sample_task ''CERT2'' PNone PNone)
           (snd (generate_private_info sample_config (sample_task ''CERT2'' PNone PNone)
                   empty_world)))
       = Inl (TaskError ''Already existing election id E1'')"
  by (simp add: bootstrap_example_defs)

end
